(* ===== verification/Py_Prelude.thy ===== *)
theory Py_Prelude
  imports Complex_Main "HOL-Library.AList" "HOL-Library.Sublist"
begin

section \<open>Prelude: what the Python code takes from the language\<close>

text \<open>
  The vocabulary the component theories share.

  A Python string is the list of its Unicode code points (\<open>pystr\<close>, an \<open>int list\<close>);
  \<open>lit ''abc''\<close> is the string of an ASCII literal, and the few non-ASCII characters of the
  source's messages are written as code points (\<open>em_dash\<close>, \<open>arrow\<close>). A dictionary is an
  association list in insertion order, as Python's are (\<open>AList.update\<close>, \<open>AList.delete\<close>,
  \<open>map_of\<close>). An exception is a value \<open>Exn kind text\<close>, and what may raise returns
  \<open>exn + 'a\<close>. A wall-clock time is an integer number of microseconds, a duration or a
  reading of the monotonic clock a rational number of seconds (rounding of binary floats is not
  modelled). \<open>os.environ\<close> is an argument \<open>env\<close>.

  Limits: \<open>lower\<close> and \<open>upper\<close> are exact on Latin-1 and on every code point whose
  image has an ASCII character in it; other letters are left as they are. All comparisons of
  the program are against ASCII texts, so no comparison depends on the difference.
\<close>

subsection \<open>Named collections\<close>

named_theorems py_simps \<open>evaluation of the string operations on literals\<close>
named_theorems step_defs \<open>definitions a proof about one step of a component unfolds\<close>
named_theorems keep_inv \<open>an operation keeps an invariant of its component\<close>

subsection \<open>Types\<close>

type_synonym pystr = "int list"
type_synonym time = int
type_synonym secs = rat
type_synonym environ = "pystr \<Rightarrow> pystr option"
type_synonym 'v dict = "(pystr \<times> 'v) list"

datatype exn_kind =
    ValueError | KeyError | TypeError | OverflowError | ConnectionError | FileNotFoundError
  | OSError | SSLError | NotImplementedError | UnicodeError | IntegrityError | OtherError

datatype exn = Exn (exn_kind: exn_kind) (exn_text: pystr)

type_synonym 'a res = "exn + 'a"

definition bindE :: "'a res \<Rightarrow> ('a \<Rightarrow> 'b res) \<Rightarrow> 'b res" where
  "bindE m f = (case m of Inl e \<Rightarrow> Inl e | Inr x \<Rightarrow> f x)"

lemma bindE_simps [simp]: "bindE (Inl e) f = Inl e" "bindE (Inr x) f = f x"
  by (simp_all add: bindE_def)

lemma bindE_Inr_iff: "bindE m f = Inr y \<longleftrightarrow> (\<exists>x. m = Inr x \<and> f x = Inr y)"
  by (cases m) simp_all

subsection \<open>Strings\<close>

definition lit :: "string \<Rightarrow> pystr" where
  "lit s = map of_char s"

definition em_dash :: pystr where "em_dash = [8212]"
definition arrow :: pystr where "arrow = [8594]"

lemma lit_Nil [simp]: "lit [] = []"
  and lit_Cons [py_simps]: "lit (c # cs) = of_char c # lit cs"
  by (simp_all add: lit_def)

lemma length_lit [simp]: "length (lit s) = length s"
  by (simp add: lit_def)

lemma lit_eq_Nil [simp]: "lit s = [] \<longleftrightarrow> s = []" "[] = lit s \<longleftrightarrow> s = []"
  by (simp_all add: lit_def)

lemma lit_inject [simp]: "lit s = lit t \<longleftrightarrow> s = t"
proof -
  have "inj (of_char :: char \<Rightarrow> int)" by (auto simp: inj_def)
  then show ?thesis by (simp add: lit_def inj_map_eq_map)
qed

text \<open>\<open>str.isspace\<close> of one character, the set \<open>str.strip\<close> removes.\<close>

definition is_space :: "int \<Rightarrow> bool" where
  "is_space c \<longleftrightarrow> 9 \<le> c \<and> c \<le> 13 \<or> 28 \<le> c \<and> c \<le> 32 \<or> c = 133 \<or> c = 160 \<or> c = 5760
     \<or> 8192 \<le> c \<and> c \<le> 8202 \<or> c = 8232 \<or> c = 8233 \<or> c = 8239 \<or> c = 8287 \<or> c = 12288"

definition lstrip :: "pystr \<Rightarrow> pystr" where
  "lstrip s = dropWhile is_space s"

definition rstrip_where :: "(int \<Rightarrow> bool) \<Rightarrow> pystr \<Rightarrow> pystr" where
  "rstrip_where p s = rev (dropWhile p (rev s))"

definition strip :: "pystr \<Rightarrow> pystr" where
  "strip s = rstrip_where is_space (lstrip s)"

lemma dropWhile_hd: "xs \<noteq> [] \<Longrightarrow> \<not> P (hd xs) \<Longrightarrow> dropWhile P xs = xs"
  by (cases xs) simp_all

lemma strip_id: "s = [] \<or> \<not> is_space (hd s) \<and> \<not> is_space (last s) \<Longrightarrow> strip s = s"
  by (cases "s = []")
    (simp_all add: strip_def lstrip_def rstrip_where_def dropWhile_hd hd_rev)

lemma strip_newline: "s = [] \<or> \<not> is_space (hd s) \<and> \<not> is_space (last s) \<Longrightarrow> strip (s @ [10]) = s"
  by (cases "s = []")
    (simp_all add: strip_def lstrip_def rstrip_where_def dropWhile_hd hd_rev is_space_def)

definition lower_cp :: "int \<Rightarrow> pystr" where
  "lower_cp c =
     (if 65 \<le> c \<and> c \<le> 90 \<or> 192 \<le> c \<and> c \<le> 222 \<and> c \<noteq> 215 then [c + 32]
      else if c = 304 then [105, 775] else if c = 8490 then [107] else [c])"

definition lower :: "pystr \<Rightarrow> pystr" where
  "lower s = concat (map lower_cp s)"

definition upper_cp :: "int \<Rightarrow> pystr" where
  "upper_cp c =
     (if 97 \<le> c \<and> c \<le> 122 \<or> 224 \<le> c \<and> c \<le> 254 \<and> c \<noteq> 247 then [c - 32]
      else if c = 181 then [924] else if c = 255 then [376]
      else if c = 223 then lit ''SS'' else if c = 305 then lit ''I'' else if c = 383 then lit ''S''
      else if c = 329 then [700, 78] else if c = 496 then [74, 780] else if c = 7830 then [72, 817]
      else if c = 7831 then [84, 776] else if c = 7832 then [87, 778] else if c = 7833 then [89, 778]
      else if c = 7834 then [65, 702] else if c = 64256 then lit ''FF''
      else if c = 64257 then lit ''FI'' else if c = 64258 then lit ''FL''
      else if c = 64259 then lit ''FFI'' else if c = 64260 then lit ''FFL''
      else if c = 64261 \<or> c = 64262 then lit ''ST'' else [c])"

definition upper :: "pystr \<Rightarrow> pystr" where
  "upper s = concat (map upper_cp s)"

definition startswith :: "pystr \<Rightarrow> pystr \<Rightarrow> bool" where
  "startswith s p \<longleftrightarrow> take (length p) s = p"

definition endswith :: "pystr \<Rightarrow> pystr \<Rightarrow> bool" where
  "endswith s p \<longleftrightarrow> startswith (rev s) (rev p)"

fun contains :: "pystr \<Rightarrow> pystr \<Rightarrow> bool" where
  "contains w [] = (w = [])"
| "contains w (c # cs) = (startswith (c # cs) w \<or> contains w cs)"

text \<open>\<open>s.partition(sep)\<close> and \<open>s.split(sep)\<close> for a separator of one character.\<close>

definition partition_at :: "int \<Rightarrow> pystr \<Rightarrow> pystr \<times> bool \<times> pystr" where
  "partition_at c s = (takeWhile (\<lambda>x. x \<noteq> c) s, c \<in> set s, tl (dropWhile (\<lambda>x. x \<noteq> c) s))"

fun split_at :: "int \<Rightarrow> pystr \<Rightarrow> pystr list" where
  "split_at c [] = [[]]"
| "split_at c (x # xs) =
     (if x = c then [] # split_at c xs
      else (case split_at c xs of [] \<Rightarrow> [[x]] | w # ws \<Rightarrow> (x # w) # ws))"

fun join_with :: "pystr \<Rightarrow> pystr list \<Rightarrow> pystr" where
  "join_with sep [] = []"
| "join_with sep [w] = w"
| "join_with sep (w # ws) = w @ sep @ join_with sep ws"

text \<open>The truth value of an optional string: \<open>None\<close> and the empty string are false.\<close>

definition truthy :: "pystr option \<Rightarrow> bool" where
  "truthy v \<longleftrightarrow> v \<noteq> None \<and> v \<noteq> Some []"

definition or_empty :: "pystr option \<Rightarrow> pystr" where
  "or_empty v = (case v of None \<Rightarrow> [] | Some s \<Rightarrow> s)"

lemma truthy_simps [simp]: "\<not> truthy None" "truthy (Some s) \<longleftrightarrow> s \<noteq> []"
  by (simp_all add: truthy_def)

lemma or_empty_simps [simp]: "or_empty None = []" "or_empty (Some s) = s"
  by (simp_all add: or_empty_def)

lemma startswith_prefix: "startswith s p \<longleftrightarrow> prefix p s"
  by (auto simp: startswith_def prefix_def) (metis append_take_drop_id)

lemma startswith_append [simp]: "startswith (p @ s) p"
  by (simp add: startswith_def)

lemma startswith_Nil [simp]: "startswith s []"
  by (simp add: startswith_def)

lemma contains_sublist: "contains w s \<longleftrightarrow> sublist w s"
  by (induction w s rule: contains.induct) (auto simp: startswith_prefix sublist_Cons_right)

lemma contains_iff: "contains w s \<longleftrightarrow> (\<exists>a b. s = a @ w @ b)"
  by (simp add: contains_sublist sublist_def)

lemma lower_Nil [simp]: "lower [] = []"
  and lower_Cons: "lower (c # cs) = lower_cp c @ lower cs"
  and lower_append: "lower (s @ t) = lower s @ lower t"
  by (simp_all add: lower_def)

lemma split_at_neq_Nil [simp]: "split_at c s \<noteq> []"
  by (induction c s rule: split_at.induct) (auto split: list.splits)

text \<open>Splitting and joining again is the identity, so no character of the text is lost.\<close>

lemma join_split_at: "join_with [c] (split_at c s) = s"
proof (induction c s rule: split_at.induct)
  case (2 c x xs)
  then show ?case
    by (cases "split_at c xs" rule: remdups_adj.cases) auto
qed simp

lemma partition_at_append: "c \<notin> set a \<Longrightarrow> partition_at c (a @ c # b) = (a, True, b)"
  by (auto simp: partition_at_def takeWhile_append dropWhile_append)

lemma split_unique:
  fixes a b x y :: pystr
  assumes "a @ c # x = b @ c # y" "c \<notin> set a" "c \<notin> set b"
  shows "a = b \<and> x = y"
  using partition_at_append [OF assms(2), of x] partition_at_append [OF assms(3), of y]
  unfolding assms(1) by simp

lemma partition_at_absent:
  assumes "c \<notin> set s"
  shows "partition_at c s = (s, False, [])"
proof -
  from assms have all: "\<forall>x\<in>set s. x \<noteq> c" by auto
  then have t: "takeWhile (\<lambda>x. x \<noteq> c) s = s" by (simp add: takeWhile_eq_all_conv)
  from all have d: "dropWhile (\<lambda>x. x \<noteq> c) s = []" by (simp add: dropWhile_eq_Nil_conv)
  from assms show ?thesis by (simp only: partition_at_def t d) simp
qed

lemma partition_at_SomeD:
  "partition_at c s = (a, True, b) \<Longrightarrow> s = a @ c # b \<and> c \<notin> set a"
proof -
  assume "partition_at c s = (a, True, b)"
  then have c: "c \<in> set s" and a: "a = takeWhile (\<lambda>x. x \<noteq> c) s"
    and b: "b = tl (dropWhile (\<lambda>x. x \<noteq> c) s)"
    by (auto simp: partition_at_def)
  obtain d ds where d: "dropWhile (\<lambda>x. x \<noteq> c) s = d # ds"
    using c by (cases "dropWhile (\<lambda>x. x \<noteq> c) s") auto
  then have "d = c" by (metis (full_types) dropWhile_eq_Cons_conv)
  with a b d show ?thesis
    by (metis (mono_tags, lifting) list.sel(3) set_takeWhileD takeWhile_dropWhile_id)
qed

lemma split_at_append: "c \<notin> set w \<Longrightarrow> split_at c (w @ c # rest) = w # split_at c rest"
  by (induction w) auto

lemma split_at_single: "c \<notin> set w \<Longrightarrow> split_at c w = [w]"
  by (induction w) auto

lemma split_at_join:
  "ws \<noteq> [] \<Longrightarrow> list_all (\<lambda>w. c \<notin> set w) ws \<Longrightarrow> split_at c (join_with [c] ws) = ws"
proof (induction ws)
  case (Cons w ws)
  then show ?case by (cases ws) (simp_all add: split_at_append split_at_single)
qed simp

subsection \<open>Numbers as text, text as numbers\<close>

fun digits :: "nat \<Rightarrow> pystr" where
  "digits n = (if n < 10 then [48 + int n] else digits (n div 10) @ [48 + int (n mod 10)])"

declare digits.simps [simp del]

definition str_int :: "int \<Rightarrow> pystr" where
  "str_int i = (if i < 0 then 45 # digits (nat (- i)) else digits (nat i))"

definition is_digit :: "int \<Rightarrow> bool" where
  "is_digit c \<longleftrightarrow> 48 \<le> c \<and> c \<le> 57"

definition digits_value :: "pystr \<Rightarrow> int" where
  "digits_value s = foldl (\<lambda>v c. 10 * v + (c - 48)) 0 s"

lemma digits_are_digits: "c \<in> set (digits n) \<Longrightarrow> is_digit c"
proof (induction n rule: digits.induct)
  case (1 n)
  then show ?case
    by (auto simp: digits.simps [of n] is_digit_def split: if_splits)
qed

lemma digits_not_Nil [simp]: "digits n \<noteq> []"
  by (simp add: digits.simps [of n])

lemma digits_value_digits [simp]: "digits_value (digits n) = int n"
proof (induction n rule: digits.induct)
  case (1 n)
  show ?case
  proof (cases "n < 10")
    case True
    then show ?thesis by (simp add: digits.simps [of n] digits_value_def)
  next
    case False
    have "digits_value (digits n) = 10 * digits_value (digits (n div 10)) + int (n mod 10)"
      using False by (simp add: digits.simps [of n] digits_value_def)
    also have "\<dots> = 10 * int (n div 10) + int (n mod 10)"
      using 1 False by simp
    also have "\<dots> = int n"
      by (metis mult_div_mod_eq of_nat_add of_nat_mult of_nat_numeral)
    finally show ?thesis .
  qed
qed

text \<open>
  \<open>int(text)\<close>: surrounding space, a sign, and ASCII digits with single underscores between
  them. (Python also takes the decimal digits of other scripts, which are not modelled.)
\<close>

definition digit_groups :: "pystr \<Rightarrow> pystr option" where
  "digit_groups s =
     (let ws = split_at 95 s
      in if list_all (\<lambda>w. w \<noteq> [] \<and> list_all is_digit w) ws then Some (concat ws) else None)"

definition py_int :: "pystr \<Rightarrow> int res" where
  "py_int s =
     (let t = strip s;
          neg = startswith t (lit ''-'');
          body = (if neg \<or> startswith t (lit ''+'') then tl t else t)
      in case digit_groups body of
           None \<Rightarrow> Inl (Exn ValueError (lit ''invalid literal for int() with base 10''))
         | Some ds \<Rightarrow> Inr (if neg then - digits_value ds else digits_value ds))"

text \<open>Rounding a float to an integer, ties to even: \<open>f''{x:.0f}''\<close> and \<open>timedelta\<close>.\<close>

definition round_half_even :: "rat \<Rightarrow> int" where
  "round_half_even x =
     (let f = \<lfloor>x\<rfloor>; d = x - of_int f
      in if d < 1 / 2 \<or> d = 1 / 2 \<and> even f then f else f + 1)"

definition fmt0 :: "rat \<Rightarrow> pystr" where
  "fmt0 x = str_int (round_half_even x)"

lemma round_half_even_of_int [simp]: "round_half_even (of_int k) = k"
  by (simp add: round_half_even_def)

lemma round_half_even_close: "\<bar>of_int (round_half_even x) - x\<bar> \<le> 1 / 2"
proof -
  have "of_int \<lfloor>x\<rfloor> \<le> x" and "x < of_int \<lfloor>x\<rfloor> + 1"
    by linarith+
  then show ?thesis
    by (auto simp: round_half_even_def Let_def abs_if) linarith
qed

lemma find_append_first: "\<not> list_ex P pre \<Longrightarrow> P c \<Longrightarrow> find P (pre @ c # post) = Some c"
  by (induction pre) auto

lemma find_SomeD: "find P xs = Some c \<Longrightarrow> \<exists>pre post. xs = pre @ c # post \<and> \<not> list_ex P pre \<and> P c"
proof (induction xs)
  case (Cons x xs)
  show ?case
  proof (cases "P x")
    case True
    with Cons.prems have "x # xs = [] @ c # xs \<and> \<not> list_ex P [] \<and> P c" by simp
    then show ?thesis by blast
  next
    case False
    with Cons obtain pre post where "xs = pre @ c # post" "\<not> list_ex P pre" "P c" by auto
    with False have "x # xs = (x # pre) @ c # post \<and> \<not> list_ex P (x # pre) \<and> P c" by simp
    then show ?thesis by blast
  qed
qed simp

lemma find_split:
  "find P xs = Some c \<longleftrightarrow> (\<exists>pre post. xs = pre @ c # post \<and> \<not> list_ex P pre \<and> P c)"
  using find_SomeD [of P xs c] find_append_first [of P _ c] by blast

subsection \<open>Dictionaries\<close>

lemma map_of_update [simp]: "map_of (AList.update k v d) = (map_of d)(k \<mapsto> v)"
  by (simp add: update_conv')

lemma map_of_delete [simp]: "map_of (AList.delete k d) = (map_of d)(k := None)"
  by (simp add: delete_conv')

end
