(* ===== verification/Py_Codecs.thy ===== *)
theory Py_Codecs
  imports Py_Prelude "HOL-Library.Word"
begin

section \<open>Byte strings, UTF-8 and Base64\<close>

text \<open>
  What the program uses of \<open>bytes\<close>, \<open>str.encode\<close>, \<open>bytes.decode\<close> and the module
  \<open>base64\<close>. A byte string is a list of 8-bit words. The decoders are those of CPython:
  UTF-8 rejects overlong forms, surrogates and truncated sequences one maximal subpart at a
  time (what \<open>errors=''replace''\<close> turns into U+FFFD); Base64 skips characters outside the
  alphabet and stops at the padding, as \<open>binascii.a2b_base64\<close> does when it is not strict.
\<close>

type_synonym bytes = "8 word list"

definition of_bytes :: "bytes \<Rightarrow> int list" where
  "of_bytes bs = map uint bs"

definition to_bytes :: "int list \<Rightarrow> bytes" where
  "to_bytes xs = map word_of_int xs"

lemma to_bytes_of_bytes [simp]: "to_bytes (of_bytes bs) = bs"
  by (simp add: to_bytes_def of_bytes_def comp_def)

lemma uint_byte_less: "uint (w :: 8 word) < 256"
  using unsigned_less [of w, where ?'a = int] by simp

lemma of_bytes_range: "x \<in> set (of_bytes bs) \<Longrightarrow> 0 \<le> x \<and> x < 256"
  by (auto simp: of_bytes_def uint_byte_less)

lemma of_bytes_to_bytes: "\<forall>x\<in>set xs. 0 \<le> x \<and> x < 256 \<Longrightarrow> of_bytes (to_bytes xs) = xs"
  by (induction xs) (auto simp: to_bytes_def of_bytes_def uint_word_of_int)

lemma of_bytes_append [simp]: "of_bytes (a @ b) = of_bytes a @ of_bytes b"
  by (simp add: of_bytes_def)

lemma length_to_bytes [simp]: "length (to_bytes xs) = length xs"
  by (simp add: to_bytes_def)

subsection \<open>UTF-8\<close>

text \<open>A Unicode scalar value: what UTF-8 can encode.\<close>

definition is_scalar :: "int \<Rightarrow> bool" where
  "is_scalar c \<longleftrightarrow> 0 \<le> c \<and> c < 1114112 \<and> \<not> (55296 \<le> c \<and> c < 57344)"

definition utf8_cp :: "int \<Rightarrow> int list" where
  "utf8_cp c =
     (if c < 128 then [c]
      else if c < 2048 then [192 + c div 64, 128 + c mod 64]
      else if c < 65536 then [224 + c div 4096, 128 + c div 64 mod 64, 128 + c mod 64]
      else [240 + c div 262144, 128 + c div 4096 mod 64, 128 + c div 64 mod 64, 128 + c mod 64])"

definition utf8_encode :: "pystr \<Rightarrow> bytes res" where
  "utf8_encode s =
     (if list_all is_scalar s then Inr (to_bytes (concat (map utf8_cp s)))
      else Inl (Exn UnicodeError (lit ''surrogates not allowed'')))"

definition is_cont :: "int \<Rightarrow> bool" where
  "is_cont b \<longleftrightarrow> 128 \<le> b \<and> b < 192"

text \<open>The second byte allowed after a first byte of three- and four-byte sequences.\<close>

definition second_ok :: "int \<Rightarrow> int \<Rightarrow> bool" where
  "second_ok b0 b1 \<longleftrightarrow> is_cont b1
     \<and> (b0 = 224 \<longrightarrow> 160 \<le> b1) \<and> (b0 = 237 \<longrightarrow> b1 < 160)
     \<and> (b0 = 240 \<longrightarrow> 144 \<le> b1) \<and> (b0 = 244 \<longrightarrow> b1 < 144)"

text \<open>\<open>Some c\<close> is a decoded character, \<open>None\<close> a maximal subpart that is not UTF-8.\<close>

fun utf8_scan :: "int list \<Rightarrow> int option list" where
  "utf8_scan [] = []"
| "utf8_scan (b0 # r0) =
     (if b0 < 128 then Some b0 # utf8_scan r0
      else if 194 \<le> b0 \<and> b0 < 224 then
        (case r0 of [] \<Rightarrow> [None] | b1 # r1 \<Rightarrow>
           if is_cont b1 then Some ((b0 - 192) * 64 + (b1 - 128)) # utf8_scan r1
           else None # utf8_scan r0)
      else if 224 \<le> b0 \<and> b0 < 240 then
        (case r0 of [] \<Rightarrow> [None] | b1 # r1 \<Rightarrow>
           if second_ok b0 b1 then
             (case r1 of [] \<Rightarrow> [None] | b2 # r2 \<Rightarrow>
                if is_cont b2
                then Some ((b0 - 224) * 4096 + (b1 - 128) * 64 + (b2 - 128)) # utf8_scan r2
                else None # utf8_scan r1)
           else None # utf8_scan r0)
      else if 240 \<le> b0 \<and> b0 < 245 then
        (case r0 of [] \<Rightarrow> [None] | b1 # r1 \<Rightarrow>
           if second_ok b0 b1 then
             (case r1 of [] \<Rightarrow> [None] | b2 # r2 \<Rightarrow>
                if is_cont b2 then
                  (case r2 of [] \<Rightarrow> [None] | b3 # r3 \<Rightarrow>
                     if is_cont b3
                     then Some ((b0 - 240) * 262144 + (b1 - 128) * 4096 + (b2 - 128) * 64
                                + (b3 - 128)) # utf8_scan r3
                     else None # utf8_scan r2)
                else None # utf8_scan r1)
           else None # utf8_scan r0)
      else None # utf8_scan r0)"

definition utf8_decode :: "bytes \<Rightarrow> pystr res" where
  "utf8_decode bs =
     (let cs = utf8_scan (of_bytes bs)
      in if None \<in> set cs then Inl (Exn UnicodeError (lit ''invalid utf-8''))
         else Inr (map the cs))"

definition utf8_decode_replace :: "bytes \<Rightarrow> pystr" where
  "utf8_decode_replace bs =
     map (\<lambda>c. case c of None \<Rightarrow> 65533 | Some x \<Rightarrow> x) (utf8_scan (of_bytes bs))"

definition ascii_encode :: "pystr \<Rightarrow> bytes res" where
  "ascii_encode s =
     (if list_all (\<lambda>c. c < 128) s then Inr (to_bytes s)
      else Inl (Exn UnicodeError (lit ''ordinal not in range(128)'')))"

lemma utf8_scan_two:
  "194 \<le> b0 \<Longrightarrow> b0 < 224 \<Longrightarrow> is_cont b1 \<Longrightarrow>
   utf8_scan (b0 # b1 # r) = Some ((b0 - 192) * 64 + (b1 - 128)) # utf8_scan r"
  by simp

lemma utf8_scan_three:
  "224 \<le> b0 \<Longrightarrow> b0 < 240 \<Longrightarrow> second_ok b0 b1 \<Longrightarrow> is_cont b2 \<Longrightarrow>
   utf8_scan (b0 # b1 # b2 # r) =
     Some ((b0 - 224) * 4096 + (b1 - 128) * 64 + (b2 - 128)) # utf8_scan r"
  by simp

lemma utf8_scan_four:
  "240 \<le> b0 \<Longrightarrow> b0 < 245 \<Longrightarrow> second_ok b0 b1 \<Longrightarrow> is_cont b2 \<Longrightarrow> is_cont b3 \<Longrightarrow>
   utf8_scan (b0 # b1 # b2 # b3 # r) =
     Some ((b0 - 240) * 262144 + (b1 - 128) * 4096 + (b2 - 128) * 64 + (b3 - 128)) # utf8_scan r"
  by simp

lemma is_cont_mod [simp]: "is_cont (128 + c mod 64)"
  by (simp add: is_cont_def)

lemma sextets:
  fixes c :: int
  shows "c div 64 mod 64 = c div 64 - 64 * (c div 4096)"
    and "c div 4096 mod 64 = c div 4096 - 64 * (c div 262144)"
    and "c mod 64 = c - 64 * (c div 64)"
  by (simp_all add: minus_mult_div_eq_mod [symmetric] zdiv_zmult2_eq [symmetric])

lemma utf8_scan_cp:
  assumes "is_scalar c"
  shows "utf8_scan (utf8_cp c @ r) = Some c # utf8_scan r"
proof -
  have c: "0 \<le> c" "c < 1114112" and ns: "\<not> (55296 \<le> c \<and> c < 57344)"
    using assms by (auto simp: is_scalar_def)
  consider (one) "c < 128" | (two) "128 \<le> c" "c < 2048" | (three) "2048 \<le> c" "c < 65536"
    | (four) "65536 \<le> c" by linarith
  then show ?thesis
  proof cases
    case one
    then show ?thesis by (simp add: utf8_cp_def)
  next
    case two
    then have "194 \<le> 192 + c div 64" "192 + c div 64 < 224" by linarith+
    from utf8_scan_two [OF this is_cont_mod [of c], of r] two sextets(3) [of c]
    show ?thesis by (simp add: utf8_cp_def del: utf8_scan.simps)
  next
    case three
    then have b: "224 \<le> 224 + c div 4096" "224 + c div 4096 < 240" by linarith+
    have "second_ok (224 + c div 4096) (128 + c div 64 mod 64)"
      unfolding second_ok_def using three ns sextets(1) [of c] by (intro conjI is_cont_mod) linarith+
    from utf8_scan_three [OF b this is_cont_mod [of c], of r] three sextets [of c]
    show ?thesis by (simp add: utf8_cp_def del: utf8_scan.simps)
  next
    case four
    then have b: "240 \<le> 240 + c div 262144" "240 + c div 262144 < 245" using c by linarith+
    have "second_ok (240 + c div 262144) (128 + c div 4096 mod 64)"
      unfolding second_ok_def using four c sextets(2) [of c]
      by (intro conjI is_cont_mod) linarith+
    from utf8_scan_four [OF b this is_cont_mod [of "c div 64"] is_cont_mod [of c], of r] four
      sextets [of c]
    show ?thesis by (simp add: utf8_cp_def del: utf8_scan.simps)
  qed
qed

lemma utf8_cp_range: "is_scalar c \<Longrightarrow> x \<in> set (utf8_cp c) \<Longrightarrow> 0 \<le> x \<and> x < 256"
  by (auto simp: utf8_cp_def is_scalar_def split: if_splits)

lemma utf8_scan_encoded: "list_all is_scalar s \<Longrightarrow> utf8_scan (concat (map utf8_cp s)) = map Some s"
  by (induction s) (auto simp: utf8_scan_cp simp del: utf8_scan.simps(2))

lemma utf8_roundtrip: "utf8_encode s = Inr bs \<Longrightarrow> utf8_decode bs = Inr s"
proof -
  assume "utf8_encode s = Inr bs"
  then have s: "list_all is_scalar s" and bs: "bs = to_bytes (concat (map utf8_cp s))"
    by (auto simp: utf8_encode_def split: if_splits)
  have "of_bytes bs = concat (map utf8_cp s)"
    using s utf8_cp_range unfolding bs by (intro of_bytes_to_bytes) (auto simp: list_all_iff)
  with s show ?thesis
    by (auto simp: utf8_decode_def utf8_scan_encoded comp_def)
qed

lemma utf8_encode_Inr_iff: "(\<exists>bs. utf8_encode s = Inr bs) \<longleftrightarrow> list_all is_scalar s"
  by (simp add: utf8_encode_def)

lemma ascii_scalar: "list_all (\<lambda>c. 0 \<le> c \<and> c < 128) s \<Longrightarrow> list_all is_scalar s"
  by (auto simp: list_all_iff is_scalar_def)

subsection \<open>Base64\<close>

definition b64_char :: "int \<Rightarrow> int" where
  "b64_char v =
     (if v < 26 then 65 + v else if v < 52 then 71 + v else if v < 62 then v - 4
      else if v = 62 then 43 else 47)"

definition b64_value :: "int \<Rightarrow> int option" where
  "b64_value c =
     (if 65 \<le> c \<and> c \<le> 90 then Some (c - 65) else if 97 \<le> c \<and> c \<le> 122 then Some (c - 71)
      else if 48 \<le> c \<and> c \<le> 57 then Some (c + 4) else if c = 43 then Some 62
      else if c = 47 then Some 63 else None)"

text \<open>The URL-safe alphabet writes \<open>-\<close> for \<open>+\<close> and \<open>_\<close> for \<open>/\<close>.\<close>

definition to_urlsafe :: "int \<Rightarrow> int" where
  "to_urlsafe c = (if c = 43 then 45 else if c = 47 then 95 else c)"

definition from_urlsafe :: "int \<Rightarrow> int" where
  "from_urlsafe c = (if c = 45 then 43 else if c = 95 then 47 else c)"

fun b64_text :: "int list \<Rightarrow> pystr" where
  "b64_text [] = []"
| "b64_text [a] = [b64_char (a div 4), b64_char (a mod 4 * 16), 61, 61]"
| "b64_text [a, b] =
     [b64_char (a div 4), b64_char (a mod 4 * 16 + b div 16), b64_char (b mod 16 * 4), 61]"
| "b64_text (a # b # c # r) =
     b64_char (a div 4) # b64_char (a mod 4 * 16 + b div 16)
       # b64_char (b mod 16 * 4 + c div 64) # b64_char (c mod 64) # b64_text r"

text \<open>
  The state of the decoder: position in the quadruple, bits left over from the last
  character, padding characters seen since.
\<close>

fun a2b :: "pystr \<Rightarrow> int \<Rightarrow> int \<Rightarrow> int \<Rightarrow> int list res" where
  "a2b [] quad left pads =
     (if quad = 0 then Inr []
      else Inl (Exn ValueError (if quad = 1 then lit ''Invalid base64-encoded string''
                                else lit ''Incorrect padding'')))"
| "a2b (c # cs) quad left pads =
     (if c = 61 then
        (if 2 \<le> quad \<and> 4 \<le> quad + (pads + 1) then Inr []
         else a2b cs quad left (if 2 \<le> quad then pads + 1 else pads))
      else case b64_value c of
          None \<Rightarrow> a2b cs quad left pads
        | Some v \<Rightarrow>
            if quad = 0 then a2b cs 1 v 0
            else if quad = 1 then
              bindE (a2b cs 2 (v mod 16) 0) (\<lambda>r. Inr ((left * 4 + v div 16) # r))
            else if quad = 2 then
              bindE (a2b cs 3 (v mod 4) 0) (\<lambda>r. Inr ((left * 16 + v div 4) # r))
            else bindE (a2b cs 0 0 0) (\<lambda>r. Inr ((left * 64 + v) # r)))"

definition b64encode :: "bytes \<Rightarrow> pystr" where
  "b64encode bs = b64_text (of_bytes bs)"

definition b64decode :: "pystr \<Rightarrow> bytes res" where
  "b64decode s = bindE (a2b s 0 0 0) (\<lambda>xs. Inr (to_bytes xs))"

definition urlsafe_b64encode :: "bytes \<Rightarrow> pystr" where
  "urlsafe_b64encode bs = map to_urlsafe (b64encode bs)"

definition urlsafe_b64decode :: "pystr \<Rightarrow> bytes res" where
  "urlsafe_b64decode s = b64decode (map from_urlsafe s)"

lemma b64_char_value [simp]: "0 \<le> v \<Longrightarrow> v < 64 \<Longrightarrow> b64_value (b64_char v) = Some v"
  and b64_char_neq_pad [simp]: "0 \<le> v \<Longrightarrow> v < 64 \<Longrightarrow> b64_char v \<noteq> 61"
  by (auto simp: b64_value_def b64_char_def)

lemma urlsafe_inverse: "0 \<le> v \<Longrightarrow> v < 64 \<Longrightarrow> from_urlsafe (to_urlsafe (b64_char v)) = b64_char v"
  by (auto simp: from_urlsafe_def to_urlsafe_def b64_char_def)

lemma pack_unpack:
  fixes x q k :: int
  assumes "0 \<le> q" "q < k"
  shows "(x * k + q) div k = x" and "(x * k + q) mod k = q"
  using assms by (auto simp: div_pos_pos_trivial mod_pos_pos_trivial)

lemma high_parts:
  fixes b :: int
  assumes "0 \<le> b" "b < 256"
  shows "0 \<le> b div 4" "b div 4 < 64" "0 \<le> b div 16" "b div 16 < 16" "0 \<le> b div 64" "b div 64 < 4"
  using assms by linarith+

lemma sextet_parts:
  fixes a b :: int
  assumes "0 \<le> a" "a < 256" "0 \<le> b" "b < 256"
  shows "0 \<le> a div 4" "a div 4 < 64" "0 \<le> a mod 4 * 16 + b div 16" "a mod 4 * 16 + b div 16 < 64"
    "0 \<le> a mod 16 * 4 + b div 64" "a mod 16 * 4 + b div 64 < 64"
    "(a mod 4 * 16 + b div 16) div 16 = a mod 4" "(a mod 4 * 16 + b div 16) mod 16 = b div 16"
    "(a mod 16 * 4 + b div 64) div 4 = a mod 16" "(a mod 16 * 4 + b div 64) mod 4 = b div 64"
proof -
  note h = high_parts [OF assms(1,2)] high_parts [OF assms(3,4)]
  have m: "0 \<le> a mod 4" "a mod 4 < 4" "0 \<le> a mod 16" "a mod 16 < 16" by simp_all
  show "0 \<le> a div 4" "a div 4 < 64" by (fact h)+
  show "0 \<le> a mod 4 * 16 + b div 16" "a mod 4 * 16 + b div 16 < 64"
    "0 \<le> a mod 16 * 4 + b div 64" "a mod 16 * 4 + b div 64 < 64"
    using h m by linarith+
  show "(a mod 4 * 16 + b div 16) div 16 = a mod 4" "(a mod 4 * 16 + b div 16) mod 16 = b div 16"
    "(a mod 16 * 4 + b div 64) div 4 = a mod 16" "(a mod 16 * 4 + b div 64) mod 4 = b div 64"
    using h by (simp_all only: pack_unpack)
qed

lemma last_parts:
  fixes a :: int
  shows "0 \<le> a mod 4 * 16" "a mod 4 * 16 < 64" "0 \<le> a mod 16 * 4" "a mod 16 * 4 < 64"
    "a mod 4 * 16 div 16 = a mod 4" "a mod 16 * 4 div 4 = a mod 16"
    "a div 4 * 4 + a mod 4 = a" "a div 16 * 16 + a mod 16 = a" "a div 64 * 64 + a mod 64 = a"
proof -
  have "0 \<le> a mod 4" "a mod 4 < 4" "0 \<le> a mod 16" "a mod 16 < 16" by simp_all
  then show "0 \<le> a mod 4 * 16" "a mod 4 * 16 < 64" "0 \<le> a mod 16 * 4" "a mod 16 * 4 < 64"
    by linarith+
qed simp_all

text \<open>One character of the alphabet, at each position of the quadruple.\<close>

lemma a2b_char:
  assumes "0 \<le> v" "v < 64"
  shows "a2b (b64_char v # cs) 0 left pads = a2b cs 1 v 0"
    and "a2b (b64_char v # cs) 1 left pads =
      bindE (a2b cs 2 (v mod 16) 0) (\<lambda>r. Inr ((left * 4 + v div 16) # r))"
    and "a2b (b64_char v # cs) 2 left pads =
      bindE (a2b cs 3 (v mod 4) 0) (\<lambda>r. Inr ((left * 16 + v div 4) # r))"
    and "a2b (b64_char v # cs) 3 left pads = bindE (a2b cs 0 0 0) (\<lambda>r. Inr ((left * 64 + v) # r))"
  using assms by simp_all

lemma a2b_quad:
  assumes "0 \<le> v0" "v0 < 64" "0 \<le> v1" "v1 < 64" "0 \<le> v2" "v2 < 64" "0 \<le> v3" "v3 < 64"
  shows "a2b (b64_char v0 # b64_char v1 # b64_char v2 # b64_char v3 # cs) 0 left pads =
    bindE (a2b cs 0 0 0) (\<lambda>r. Inr ((v0 * 4 + v1 div 16) # (v1 mod 16 * 16 + v2 div 4)
      # (v2 mod 4 * 64 + v3) # r))"
  by (cases "a2b cs 0 0 0") (simp_all add: a2b_char assms del: a2b.simps)

lemma a2b_triple:
  assumes "0 \<le> v0" "v0 < 64" "0 \<le> v1" "v1 < 64" "0 \<le> v2" "v2 < 64"
  shows "a2b [b64_char v0, b64_char v1, b64_char v2, 61] 0 left pads =
    Inr [v0 * 4 + v1 div 16, v1 mod 16 * 16 + v2 div 4]"
proof -
  have "a2b [61] 3 (v2 mod 4) 0 = Inr []" by simp
  then show ?thesis by (simp add: a2b_char assms del: a2b.simps)
qed

lemma a2b_double:
  assumes "0 \<le> v0" "v0 < 64" "0 \<le> v1" "v1 < 64"
  shows "a2b [b64_char v0, b64_char v1, 61, 61] 0 left pads = Inr [v0 * 4 + v1 div 16]"
proof -
  have "a2b [61, 61] 2 (v1 mod 16) 0 = Inr []" by simp
  then show ?thesis by (simp add: a2b_char assms del: a2b.simps)
qed

lemma a2b_b64_text:
  "\<forall>x\<in>set xs. 0 \<le> x \<and> x < 256 \<Longrightarrow> a2b (b64_text xs) 0 left pads = Inr xs"
proof (induction xs arbitrary: left pads rule: b64_text.induct)
  case 1
  show ?case by simp
next
  case (2 a)
  then have a: "0 \<le> a" "a < 256" by auto
  from a2b_double [OF sextet_parts(1,2) [OF a a] last_parts(1,2) [of a]] show ?case
    by (simp only: b64_text.simps last_parts [of a])
next
  case (3 a b)
  then have a: "0 \<le> a" "a < 256" and b: "0 \<le> b" "b < 256" by auto
  from a2b_triple [OF sextet_parts(1-4) [OF a b] last_parts(3,4) [of b]] show ?case
    by (simp only: b64_text.simps sextet_parts(7,8) [OF a b] last_parts(6-8) [of a]
        last_parts(6-8) [of b])
next
  case (4 a b c r)
  then have a: "0 \<le> a" "a < 256" and b: "0 \<le> b" "b < 256" and c: "0 \<le> c" "c < 256"
    and IH: "a2b (b64_text r) 0 0 0 = Inr r" by auto
  have c64: "0 \<le> c mod 64" "c mod 64 < 64" by simp_all
  from a2b_quad [OF sextet_parts(1-4) [OF a b] sextet_parts(5,6) [OF b c] c64] show ?case
    by (simp only: b64_text.simps sextet_parts(7,8) [OF a b] sextet_parts(9,10) [OF b c]
        last_parts(7) [of a] last_parts(8) [of b] last_parts(9) [of c] IH bindE_simps)
qed

lemma b64_roundtrip [simp]: "b64decode (b64encode bs) = Inr bs"
proof -
  have "\<forall>x\<in>set (of_bytes bs). 0 \<le> x \<and> x < 256" using of_bytes_range by blast
  then show ?thesis by (simp add: b64decode_def b64encode_def a2b_b64_text)
qed

lemma b64_text_chars:
  "\<forall>x\<in>set xs. 0 \<le> x \<and> x < 256 \<Longrightarrow> c \<in> set (b64_text xs) \<Longrightarrow>
   c = 61 \<or> (\<exists>v. 0 \<le> v \<and> v < 64 \<and> c = b64_char v)"
proof (induction xs rule: b64_text.induct)
  case 1
  then show ?case by simp
next
  case (2 a)
  then have a: "0 \<le> a" "a < 256" by auto
  from 2(2) last_parts [of a] sextet_parts(1,2) [OF a a] show ?case
    unfolding b64_text.simps by (metis empty_iff empty_set set_ConsD)
next
  case (3 a b)
  then have a: "0 \<le> a" "a < 256" and b: "0 \<le> b" "b < 256" by auto
  from 3(2) last_parts(1-4) [of b] sextet_parts(1-4) [OF a b] show ?case
    unfolding b64_text.simps by (metis empty_iff empty_set set_ConsD)
next
  case (4 a b c' r)
  then have a: "0 \<le> a" "a < 256" and b: "0 \<le> b" "b < 256" and c: "0 \<le> c'" "c' < 256"
    and IH: "c \<in> set (b64_text r) \<Longrightarrow> c = 61 \<or> (\<exists>v. 0 \<le> v \<and> v < 64 \<and> c = b64_char v)"
    by auto
  have c64: "0 \<le> c' mod 64" "c' mod 64 < 64" by simp_all
  from 4(3) IH sextet_parts(1-6) [OF a b] sextet_parts(5,6) [OF b c] c64 show ?case
    unfolding b64_text.simps by (metis set_ConsD)
qed

lemma b64encode_chars:
  "c \<in> set (b64encode bs) \<Longrightarrow> c = 61 \<or> (\<exists>v. 0 \<le> v \<and> v < 64 \<and> c = b64_char v)"
  unfolding b64encode_def using b64_text_chars of_bytes_range by blast

lemma urlsafe_back: "map from_urlsafe (urlsafe_b64encode bs) = b64encode bs"
proof -
  have "\<forall>c\<in>set (b64encode bs). from_urlsafe (to_urlsafe c) = c"
  proof
    fix c assume "c \<in> set (b64encode bs)"
    from b64encode_chars [OF this] show "from_urlsafe (to_urlsafe c) = c"
      by (auto simp: urlsafe_inverse) (simp add: from_urlsafe_def to_urlsafe_def)
  qed
  then show ?thesis by (simp add: urlsafe_b64encode_def comp_def map_idI)
qed

lemma urlsafe_roundtrip [simp]: "urlsafe_b64decode (urlsafe_b64encode bs) = Inr bs"
  by (simp add: urlsafe_b64decode_def urlsafe_back)

text \<open>URL-safe Base64 holds ASCII only and never the dot that separates token parts.\<close>

lemma urlsafe_chars:
  assumes "c \<in> set (urlsafe_b64encode bs)"
  shows "0 \<le> c \<and> c < 128 \<and> c \<noteq> 46"
proof -
  from assms obtain d where "d \<in> set (b64encode bs)" and c: "c = to_urlsafe d"
    by (auto simp: urlsafe_b64encode_def)
  from b64encode_chars [OF this(1)] show ?thesis
    unfolding c by (auto simp: to_urlsafe_def b64_char_def split: if_splits)
qed

lemma b64_text_eq_Nil [simp]: "b64_text xs = [] \<longleftrightarrow> xs = []"
  by (cases xs rule: b64_text.cases) auto

lemma urlsafe_eq_Nil [simp]: "urlsafe_b64encode bs = [] \<longleftrightarrow> bs = []"
  by (simp add: urlsafe_b64encode_def b64encode_def of_bytes_def)

lemma ascii_encode_urlsafe [simp]:
  "ascii_encode (urlsafe_b64encode bs) = Inr (to_bytes (urlsafe_b64encode bs))"
  using urlsafe_chars by (force simp: ascii_encode_def list_all_iff)

text \<open>What the decoder gives is made of scalar characters.\<close>

lemma scalar_three:
  assumes "224 \<le> b0" "b0 < 240" "second_ok b0 b1" "is_cont b2"
  shows "is_scalar ((b0 - 224) * 4096 + (b1 - 128) * 64 + (b2 - 128))"
proof -
  from assms have b: "128 \<le> b1" "b1 < 192" "128 \<le> b2" "b2 < 192" "b0 = 237 \<Longrightarrow> b1 < 160"
    by (auto simp: second_ok_def is_cont_def)
  consider "b0 < 237" | "b0 = 237" | "238 \<le> b0" by linarith
  then show ?thesis
  proof cases
    case 1 with assms b show ?thesis by (simp add: is_scalar_def)
  next
    case 2 with assms b show ?thesis by (simp add: is_scalar_def)
  next
    case 3 with assms b show ?thesis by (simp add: is_scalar_def)
  qed
qed

lemma scalar_four:
  assumes "240 \<le> b0" "b0 < 245" "second_ok b0 b1" "is_cont b2" "is_cont b3"
  shows "is_scalar ((b0 - 240) * 262144 + (b1 - 128) * 4096 + (b2 - 128) * 64 + (b3 - 128))"
proof -
  from assms have "128 \<le> b1" "b1 < 192" "128 \<le> b2" "b2 < 192" "128 \<le> b3" "b3 < 192"
    "b0 = 240 \<Longrightarrow> 144 \<le> b1" "b0 = 244 \<Longrightarrow> b1 < 144"
    by (auto simp: second_ok_def is_cont_def)
  with assms(1,2) show ?thesis by (cases "b0 = 240"; cases "b0 = 244") (simp_all add: is_scalar_def)
qed

lemma utf8_scan_step:
  assumes "0 \<le> b0"
  shows "\<exists>x r. utf8_scan (b0 # r0) = x # utf8_scan r \<and> suffix r r0 \<and> pred_option is_scalar x"
proof -
  have bad: ?thesis if "utf8_scan (b0 # r0) = None # utf8_scan r" "suffix r r0" for r
    using that by force
  have good: ?thesis if "utf8_scan (b0 # r0) = Some c # utf8_scan r" "suffix r r0" "is_scalar c" for r c
    using that by force
  consider "b0 < 128" | "194 \<le> b0" "b0 < 224" | "224 \<le> b0" "b0 < 240" | "240 \<le> b0" "b0 < 245"
    | "128 \<le> b0" "b0 < 194 \<or> 245 \<le> b0" by linarith
  then show ?thesis
  proof cases
    case 1
    then show ?thesis using assms by (intro good [of b0 r0]) (simp_all add: is_scalar_def)
  next
    case 2
    show ?thesis
    proof (cases r0)
      case (Cons b1 r1)
      show ?thesis
      proof (cases "is_cont b1")
        case True
        with 2 Cons show ?thesis
          by (intro good [of "(b0 - 192) * 64 + (b1 - 128)" r1])
            (simp_all add: is_scalar_def is_cont_def suffix_ConsI)
      qed (use 2 Cons in \<open>intro bad [of r0]; simp\<close>)
    qed (use 2 in \<open>intro bad [of "[]"]; simp\<close>)
  next
    case 3
    show ?thesis
    proof (cases r0)
      case (Cons b1 r1)
      show ?thesis
      proof (cases "second_ok b0 b1")
        case True
        show ?thesis
        proof (cases r1)
          case (Cons b2 r2)
          show ?thesis
          proof (cases "is_cont b2")
            case cont: True
            show ?thesis
              using 3 True cont \<open>r0 = b1 # r1\<close> Cons scalar_three [OF 3 True cont]
              by (intro good [of "(b0 - 224) * 4096 + (b1 - 128) * 64 + (b2 - 128)" r2])
                (simp_all add: suffix_ConsI)
          qed (use 3 True \<open>r0 = b1 # r1\<close> Cons in \<open>intro bad [of r1]; simp add: suffix_ConsI\<close>)
        qed (use 3 True \<open>r0 = b1 # r1\<close> in \<open>intro bad [of "[]"]; simp\<close>)
      qed (use 3 Cons in \<open>intro bad [of r0]; simp\<close>)
    qed (use 3 in \<open>intro bad [of "[]"]; simp\<close>)
  next
    case 4
    show ?thesis
    proof (cases r0)
      case r0: (Cons b1 r1)
      show ?thesis
      proof (cases "second_ok b0 b1")
        case ok: True
        show ?thesis
        proof (cases r1)
          case r1: (Cons b2 r2)
          show ?thesis
          proof (cases "is_cont b2")
            case c2: True
            show ?thesis
            proof (cases r2)
              case r2: (Cons b3 r3)
              show ?thesis
              proof (cases "is_cont b3")
                case c3: True
                show ?thesis
                  using 4 ok c2 c3 r0 r1 r2 scalar_four [OF 4 ok c2 c3]
                  by (intro good [of "(b0 - 240) * 262144 + (b1 - 128) * 4096 + (b2 - 128) * 64
                      + (b3 - 128)" r3]) (simp_all add: suffix_ConsI)
              qed (use 4 ok c2 r0 r1 r2 in \<open>intro bad [of r2]; simp add: suffix_ConsI\<close>)
            qed (use 4 ok c2 r0 r1 in \<open>intro bad [of "[]"]; simp\<close>)
          qed (use 4 ok r0 r1 in \<open>intro bad [of r1]; simp add: suffix_ConsI\<close>)
        qed (use 4 ok r0 in \<open>intro bad [of "[]"]; simp\<close>)
      qed (use 4 r0 in \<open>intro bad [of r0]; simp\<close>)
    qed (use 4 in \<open>intro bad [of "[]"]; simp\<close>)
  next
    case 5
    then show ?thesis by (intro bad [of r0]) auto
  qed
qed

lemma utf8_scan_scalar:
  "\<forall>x\<in>set xs. 0 \<le> x \<Longrightarrow> Some c \<in> set (utf8_scan xs) \<Longrightarrow> is_scalar c"
proof (induction xs rule: length_induct)
  case (1 xs)
  show ?case
  proof (cases xs)
    case (Cons b0 r0)
    then obtain x r where step: "utf8_scan xs = x # utf8_scan r" "suffix r r0" "pred_option is_scalar x"
      using utf8_scan_step [of b0 r0] 1(2) by auto
    then have "length r < length xs" "\<forall>x\<in>set r. 0 \<le> x"
      using Cons 1(2) suffix_length_le [of r r0] set_mono_suffix [of r r0] by auto
    with 1(1,3) step show ?thesis by auto
  qed (use 1 in simp)
qed

lemma utf8_decode_scalar: "utf8_decode bs = Inr s \<Longrightarrow> list_all is_scalar s"
proof -
  assume "utf8_decode bs = Inr s"
  then have none: "None \<notin> set (utf8_scan (of_bytes bs))" and s: "s = map the (utf8_scan (of_bytes bs))"
    by (auto simp: utf8_decode_def Let_def split: if_splits)
  show ?thesis
    unfolding list_all_iff s
  proof
    fix c assume "c \<in> set (map the (utf8_scan (of_bytes bs)))"
    then obtain y where "y \<in> set (utf8_scan (of_bytes bs))" "c = the y" by auto
    with none have "Some c \<in> set (utf8_scan (of_bytes bs))" by (cases y) auto
    then show "is_scalar c" by (rule utf8_scan_scalar [rotated]) (auto dest: of_bytes_range)
  qed
qed

end
