(* ===== verification/Json_Text.thy ===== *)
theory Json_Text
  imports Py_Codecs "HOL-Library.List_Lexorder"
begin

section \<open>JSON texts (the module json)\<close>

text \<open>
  What the program uses of \<open>json.dumps\<close> and \<open>json.loads\<close>: null, booleans, integers,
  strings, arrays and objects. \<open>dumps\<close> takes the two separators; strings are written with
  \<open>ensure_ascii\<close>, so the text is ASCII. \<open>loads\<close> is the recursive scanner of the module,
  \<open>None\<close> being its JSONDecodeError; it spends one unit of fuel per value and gets the
  length of the text as fuel, which \<open>loads_dumps\<close> shows to be enough. Numbers with a
  fraction or an exponent, which the program never writes, are not read.
\<close>

datatype json =
    JNull | JBool bool | JInt int | JStr pystr | JList "json list" | JObj "(pystr \<times> json) list"

text \<open>The truth value of a document, as of the Python value it stands for.\<close>

definition truthy_json :: "json \<Rightarrow> bool" where
  "truthy_json j = (case j of JNull \<Rightarrow> False | JBool b \<Rightarrow> b | JInt i \<Rightarrow> i \<noteq> 0 | JStr s \<Rightarrow> s \<noteq> []
     | JList xs \<Rightarrow> xs \<noteq> [] | JObj kvs \<Rightarrow> kvs \<noteq> [])"

subsection \<open>Writing\<close>

definition hex_digit :: "int \<Rightarrow> int" where
  "hex_digit d = (if d < 10 then 48 + d else 87 + d)"

definition hex4 :: "int \<Rightarrow> pystr" where
  "hex4 c = [hex_digit (c div 4096), hex_digit (c div 256 mod 16), hex_digit (c div 16 mod 16),
             hex_digit (c mod 16)]"

definition u_escape :: "int \<Rightarrow> pystr" where
  "u_escape c = 92 # 117 # hex4 c"

definition esc_char :: "int \<Rightarrow> pystr" where
  "esc_char c =
     (if c = 34 then [92, 34] else if c = 92 then [92, 92] else if c = 10 then [92, 110]
      else if c = 13 then [92, 114] else if c = 9 then [92, 116] else if c = 12 then [92, 102]
      else if c = 8 then [92, 98] else if 32 \<le> c \<and> c < 127 then [c]
      else if c < 65536 then u_escape c
      else u_escape (55296 + (c - 65536) div 1024) @ u_escape (56320 + (c - 65536) mod 1024))"

definition dump_str :: "pystr \<Rightarrow> pystr" where
  "dump_str s = 34 # concat (map esc_char s) @ [34]"

fun dumps :: "pystr \<Rightarrow> pystr \<Rightarrow> json \<Rightarrow> pystr" where
  "dumps isep ksep JNull = lit ''null''"
| "dumps isep ksep (JBool b) = (if b then lit ''true'' else lit ''false'')"
| "dumps isep ksep (JInt i) = str_int i"
| "dumps isep ksep (JStr s) = dump_str s"
| "dumps isep ksep (JList xs) = 91 # join_with isep (map (dumps isep ksep) xs) @ [93]"
| "dumps isep ksep (JObj kvs) =
     123 # join_with isep (map (\<lambda>(k, v). dump_str k @ ksep @ dumps isep ksep v) kvs) @ [125]"

text \<open>\<open>json.dumps(x)\<close> and \<open>json.dumps(x, separators=('','', '':''))\<close>.\<close>

abbreviation dumps_default :: "json \<Rightarrow> pystr" where
  "dumps_default \<equiv> dumps [44, 32] [58, 32]"

abbreviation dumps_compact :: "json \<Rightarrow> pystr" where
  "dumps_compact \<equiv> dumps [44] [58]"

text \<open>\<open>sort_keys=True\<close>: the keys of every object in the order of their code points.\<close>

primrec sort_keys :: "json \<Rightarrow> json" where
  "sort_keys JNull = JNull"
| "sort_keys (JBool b) = JBool b"
| "sort_keys (JInt i) = JInt i"
| "sort_keys (JStr s) = JStr s"
| "sort_keys (JList xs) = JList (map sort_keys xs)"
| "sort_keys (JObj kvs) = JObj (sort_key fst (map (map_prod id sort_keys) kvs))"

subsection \<open>Reading\<close>

definition is_ws :: "int \<Rightarrow> bool" where
  "is_ws c \<longleftrightarrow> c = 32 \<or> c = 9 \<or> c = 10 \<or> c = 13"

definition skip_ws :: "pystr \<Rightarrow> pystr" where
  "skip_ws s = dropWhile is_ws s"

definition expect :: "int \<Rightarrow> pystr \<Rightarrow> pystr option" where
  "expect c s = (case s of [] \<Rightarrow> None | x # r \<Rightarrow> if x = c then Some r else None)"

definition expect_word :: "pystr \<Rightarrow> pystr \<Rightarrow> pystr option" where
  "expect_word w s = (if startswith s w then Some (drop (length w) s) else None)"

definition hex_value :: "int \<Rightarrow> int option" where
  "hex_value c =
     (if 48 \<le> c \<and> c \<le> 57 then Some (c - 48) else if 97 \<le> c \<and> c \<le> 102 then Some (c - 87)
      else if 65 \<le> c \<and> c \<le> 70 then Some (c - 55) else None)"

fun read_hex4 :: "pystr \<Rightarrow> (int \<times> pystr) option" where
  "read_hex4 (a # b # c # d # r) =
     (case (hex_value a, hex_value b, hex_value c, hex_value d) of
        (Some w, Some x, Some y, Some z) \<Rightarrow> Some (w * 4096 + x * 256 + y * 16 + z, r)
      | _ \<Rightarrow> None)"
| "read_hex4 s = None"

text \<open>The second half of a surrogate pair, if it follows.\<close>

definition low_half :: "pystr \<Rightarrow> (int \<times> pystr) option" where
  "low_half s =
     (case expect_word [92, 117] s of None \<Rightarrow> None
      | Some r \<Rightarrow> (case read_hex4 r of None \<Rightarrow> None
         | Some (x, r') \<Rightarrow> if 56320 \<le> x \<and> x < 57344 then Some (x, r') else None))"

definition simple_escape :: "int \<Rightarrow> int option" where
  "simple_escape c =
     (if c = 34 \<or> c = 92 \<or> c = 47 then Some c else if c = 110 then Some 10
      else if c = 114 then Some 13 else if c = 116 then Some 9 else if c = 102 then Some 12
      else if c = 98 then Some 8 else None)"

text \<open>One character of a string literal: \<open>None\<close> is an error, the closing quote is not read here.\<close>

definition read_char :: "pystr \<Rightarrow> (int \<times> pystr) option" where
  "read_char s =
     (case s of [] \<Rightarrow> None
      | c # r \<Rightarrow>
          if c < 32 then None
          else if c \<noteq> 92 then Some (c, r)
          else (case r of [] \<Rightarrow> None
            | e # r1 \<Rightarrow>
                if e \<noteq> 117 then map_option (\<lambda>x. (x, r1)) (simple_escape e)
                else (case read_hex4 r1 of None \<Rightarrow> None
                  | Some (x, r2) \<Rightarrow>
                      if 55296 \<le> x \<and> x < 56320 then
                        (case low_half r2 of None \<Rightarrow> Some (x, r2)
                         | Some (y, r3) \<Rightarrow> Some (65536 + (x - 55296) * 1024 + (y - 56320), r3))
                      else Some (x, r2))))"

fun read_str :: "nat \<Rightarrow> pystr \<Rightarrow> (pystr \<times> pystr) option" where
  "read_str 0 s = None"
| "read_str (Suc n) s =
     (case expect 34 s of Some r \<Rightarrow> Some ([], r)
      | None \<Rightarrow> (case read_char s of None \<Rightarrow> None
         | Some (c, r) \<Rightarrow> map_option (\<lambda>(cs, r'). (c # cs, r')) (read_str n r)))"

text \<open>Of a run of digits, those of one number: a leading zero stands alone.\<close>

definition number_len :: "pystr \<Rightarrow> nat" where
  "number_len ds = (if startswith ds [48] then 1 else length ds)"

definition read_int :: "pystr \<Rightarrow> (json \<times> pystr) option" where
  "read_int s =
     (let neg = startswith s [45];
          t = (if neg then tl s else s);
          ds = takeWhile is_digit t;
          used = number_len ds
      in if ds = [] then None
         else Some (JInt ((if neg then -1 else 1) * digits_value (take used ds)), drop used t))"

fun read_value :: "nat \<Rightarrow> pystr \<Rightarrow> (json \<times> pystr) option"
  and read_items :: "nat \<Rightarrow> json list \<Rightarrow> pystr \<Rightarrow> (json \<times> pystr) option"
  and read_members :: "nat \<Rightarrow> (pystr \<times> json) list \<Rightarrow> pystr \<Rightarrow> (json \<times> pystr) option"
where
  "read_value 0 s = None"
| "read_value (Suc n) s =
     (case expect 34 s of Some r \<Rightarrow> map_option (\<lambda>(t, r'). (JStr t, r')) (read_str (Suc (length r)) r)
      | None \<Rightarrow> (case expect 123 s of Some r \<Rightarrow>
           (case expect 125 (skip_ws r) of Some r' \<Rightarrow> Some (JObj [], r')
            | None \<Rightarrow> read_members n [] (skip_ws r))
      | None \<Rightarrow> (case expect 91 s of Some r \<Rightarrow>
           (case expect 93 (skip_ws r) of Some r' \<Rightarrow> Some (JList [], r')
            | None \<Rightarrow> read_items n [] (skip_ws r))
      | None \<Rightarrow> (case expect_word (lit ''null'') s of Some r \<Rightarrow> Some (JNull, r)
      | None \<Rightarrow> (case expect_word (lit ''true'') s of Some r \<Rightarrow> Some (JBool True, r)
      | None \<Rightarrow> (case expect_word (lit ''false'') s of Some r \<Rightarrow> Some (JBool False, r)
      | None \<Rightarrow> read_int s))))))"
| "read_items 0 acc s = None"
| "read_items (Suc n) acc s =
     (case read_value n s of None \<Rightarrow> None
      | Some (v, r) \<Rightarrow>
          (case expect 93 (skip_ws r) of Some r' \<Rightarrow> Some (JList (acc @ [v]), r')
           | None \<Rightarrow> (case expect 44 (skip_ws r) of None \<Rightarrow> None
              | Some r' \<Rightarrow> read_items n (acc @ [v]) (skip_ws r'))))"
| "read_members 0 acc s = None"
| "read_members (Suc n) acc s =
     (case expect 34 s of None \<Rightarrow> None
      | Some q \<Rightarrow> (case read_str (Suc (length q)) q of None \<Rightarrow> None
      | Some (k, r1) \<Rightarrow> (case expect 58 (skip_ws r1) of None \<Rightarrow> None
      | Some r2 \<Rightarrow> (case read_value n (skip_ws r2) of None \<Rightarrow> None
      | Some (v, r3) \<Rightarrow>
          (case expect 125 (skip_ws r3) of Some r' \<Rightarrow> Some (JObj (AList.update k v acc), r')
           | None \<Rightarrow> (case expect 44 (skip_ws r3) of None \<Rightarrow> None
              | Some r' \<Rightarrow> read_members n (AList.update k v acc) (skip_ws r')))))))"

definition loads :: "pystr \<Rightarrow> json option" where
  "loads s =
     (let t = skip_ws s
      in case read_value (Suc (length t)) t of None \<Rightarrow> None
         | Some (j, r) \<Rightarrow> if skip_ws r = [] then Some j else None)"

subsection \<open>Reading back what was written\<close>

lemma skip_ws_Nil [simp]: "skip_ws [] = []"
  by (simp add: skip_ws_def)

lemma skip_ws_append: "list_all is_ws w \<Longrightarrow> skip_ws (w @ s) = skip_ws s"
  by (simp add: skip_ws_def list_all_iff dropWhile_append2)

lemma skip_ws_Cons [simp]: "\<not> is_ws c \<Longrightarrow> skip_ws (c # s) = c # s"
  by (simp add: skip_ws_def)

lemma expect_simps [simp]: "expect c [] = None" "expect c (c # s) = Some s"
    "c \<noteq> d \<Longrightarrow> expect c (d # s) = None"
  by (simp_all add: expect_def)

lemma hex_value_digit [simp]: "0 \<le> d \<Longrightarrow> d < 16 \<Longrightarrow> hex_value (hex_digit d) = Some d"
  by (auto simp: hex_value_def hex_digit_def)

lemma hex4_value:
  fixes c :: int
  assumes "0 \<le> c"
  shows "c div 4096 * 4096 + c div 256 mod 16 * 256 + c div 16 mod 16 * 16 + c mod 16 = c"
proof -
  have "c div 256 mod 16 = c div 256 - 16 * (c div 4096)"
    and "c div 16 mod 16 = c div 16 - 16 * (c div 256)" and "c mod 16 = c - 16 * (c div 16)"
    by (simp_all add: minus_mult_div_eq_mod [symmetric] zdiv_zmult2_eq [symmetric])
  then show ?thesis by linarith
qed

lemma read_hex4_hex4:
  assumes "0 \<le> c" "c < 65536"
  shows "read_hex4 (hex4 c @ r) = Some (c, r)"
proof -
  have "0 \<le> c div 4096" "c div 4096 < 16" using assms by linarith+
  then have "hex_value (hex_digit (c div 4096)) = Some (c div 4096)"
    "hex_value (hex_digit (c div 256 mod 16)) = Some (c div 256 mod 16)"
    "hex_value (hex_digit (c div 16 mod 16)) = Some (c div 16 mod 16)"
    "hex_value (hex_digit (c mod 16)) = Some (c mod 16)"
    by simp_all
  then show ?thesis
    by (simp only: hex4_def append_Cons append_Nil read_hex4.simps option.case prod.case
        hex4_value [OF assms(1)])
qed

lemma read_char_u_escape:
  assumes "0 \<le> c" "c < 65536" "\<not> (55296 \<le> c \<and> c < 56320)"
  shows "read_char (u_escape c @ r) = Some (c, r)"
  using assms by (auto simp: read_char_def u_escape_def read_hex4_hex4)

lemma read_char_surrogates:
  assumes "65536 \<le> c" "c < 1114112"
  shows "read_char (u_escape (55296 + (c - 65536) div 1024)
      @ u_escape (56320 + (c - 65536) mod 1024) @ r) = Some (c, r)"
proof -
  let ?h = "55296 + (c - 65536) div 1024" and ?l = "56320 + (c - 65536) mod 1024"
  have h: "55296 \<le> ?h" "?h < 56320" using assms by linarith+
  have l: "56320 \<le> ?l" "?l < 57344" by simp_all
  have low: "low_half (u_escape ?l @ r) = Some (?l, r)"
    using l read_hex4_hex4 [of ?l r]
    by (simp add: low_half_def expect_word_def u_escape_def startswith_def)
  have "read_char (u_escape ?h @ u_escape ?l @ r) =
      Some (65536 + (?h - 55296) * 1024 + (?l - 56320), r)"
    using h read_hex4_hex4 [of ?h "u_escape ?l @ r"] low
    by (simp add: read_char_def u_escape_def)
  moreover have "(?h - 55296) * 1024 + (?l - 56320) = c - 65536"
    by simp
  ultimately show ?thesis by simp
qed

lemma read_char_esc:
  assumes "is_scalar c"
  shows "read_char (esc_char c @ r) = Some (c, r)"
proof -
  have c: "0 \<le> c" "c < 1114112" "\<not> (55296 \<le> c \<and> c < 57344)"
    using assms by (auto simp: is_scalar_def)
  consider (short) "c \<in> {34, 92, 10, 13, 9, 12, 8}"
    | (plain) "c \<notin> {34, 92, 10, 13, 9, 12, 8}" "32 \<le> c" "c < 127"
    | (bmp) "c \<notin> {34, 92, 10, 13, 9, 12, 8}" "\<not> (32 \<le> c \<and> c < 127)" "c < 65536"
    | (astral) "65536 \<le> c" by fastforce
  then show ?thesis
  proof cases
    case short
    then show ?thesis by (auto simp: esc_char_def read_char_def simple_escape_def)
  next
    case plain
    then show ?thesis by (auto simp: esc_char_def read_char_def)
  next
    case bmp
    then show ?thesis using c read_char_u_escape [of c r] by (auto simp: esc_char_def)
  next
    case astral
    then show ?thesis using c read_char_surrogates [of c r] by (simp add: esc_char_def)
  qed
qed

lemma esc_char_hd: "\<exists>d ds. esc_char c = d # ds \<and> d \<noteq> 34"
  by (auto simp: esc_char_def u_escape_def)

lemma expect_quote_esc [simp]: "expect 34 (esc_char c @ r) = None"
  using esc_char_hd [of c] by auto

lemma read_str_dump:
  "list_all is_scalar s \<Longrightarrow> length s < n \<Longrightarrow>
   read_str n (concat (map esc_char s) @ 34 # r) = Some (s, r)"
proof (induction s arbitrary: n)
  case Nil
  then show ?case by (cases n) auto
next
  case (Cons c s)
  then show ?case by (cases n) (auto simp: read_char_esc)
qed

lemma length_concat_esc: "length s \<le> length (concat (map esc_char s))"
proof (induction s)
  case (Cons c s)
  have "0 < length (esc_char c)" using esc_char_hd [of c] by auto
  with Cons show ?case by (simp; linarith)
qed simp

lemma read_str_fuel:
  assumes "list_all is_scalar s"
  shows "read_str (Suc (length (concat (map esc_char s) @ 34 # r)))
      (concat (map esc_char s) @ 34 # r) = Some (s, r)"
  using assms length_concat_esc [of s] by (intro read_str_dump) auto

lemma hd_digits: "hd (digits n) = 48 \<longleftrightarrow> n = 0"
proof (induction n rule: digits.induct)
  case (1 n)
  then show ?case by (cases "n < 10") (simp_all add: digits.simps [of n])
qed

lemma digits_0: "digits 0 = [48]"
  by (simp add: digits.simps)

lemma startswith_single: "startswith s [c] \<longleftrightarrow> s \<noteq> [] \<and> hd s = c"
  by (cases s) (auto simp: startswith_def)

definition no_digit :: "pystr \<Rightarrow> bool" where
  "no_digit s \<longleftrightarrow> (case s of [] \<Rightarrow> True | c # _ \<Rightarrow> \<not> is_digit c)"

lemma takeWhile_digits: "no_digit r \<Longrightarrow> takeWhile is_digit (digits n @ r) = digits n"
  using digits_are_digits [of _ n]
  by (cases r) (auto simp: no_digit_def takeWhile_append)

lemma number_len_digits [simp]: "number_len (digits n) = length (digits n)"
  by (cases "n = 0") (simp_all add: number_len_def startswith_single hd_digits digits_0)

lemma read_int_str_int:
  assumes "no_digit r"
  shows "read_int (str_int i @ r) = Some (JInt i, r)"
proof (cases "i < 0")
  case True
  then show ?thesis
    by (simp add: read_int_def str_int_def startswith_single [of "_ # _"]
        takeWhile_digits [OF assms] Let_def)
next
  case False
  have "hd (digits (nat i)) \<noteq> 45"
    using digits_are_digits [of "hd (digits (nat i))" "nat i"] by (auto simp: is_digit_def)
  then have "\<not> startswith (digits (nat i) @ r) [45]"
    by (simp add: startswith_single)
  with False show ?thesis
    by (simp add: read_int_def str_int_def takeWhile_digits [OF assms] Let_def)
qed

text \<open>Documents Python can hold: scalar strings, distinct keys.\<close>

fun wf_json :: "json \<Rightarrow> bool" where
  "wf_json (JStr s) = list_all is_scalar s"
| "wf_json (JList xs) = list_all wf_json xs"
| "wf_json (JObj kvs) =
     (distinct (map fst kvs) \<and> list_all (\<lambda>(k, v). list_all is_scalar k \<and> wf_json v) kvs)"
| "wf_json _ = True"

fun jsize :: "json \<Rightarrow> nat" where
  "jsize (JList xs) = 1 + sum_list (map (\<lambda>x. 1 + jsize x) xs)"
| "jsize (JObj kvs) = 1 + sum_list (map (\<lambda>(k, v). 1 + jsize v) kvs)"
| "jsize _ = 1"


text \<open>The separators of the program: a comma and a colon, each followed by white space only.\<close>

definition separators :: "pystr \<Rightarrow> pystr \<Rightarrow> bool" where
  "separators isep ksep \<longleftrightarrow>
     (\<exists>w. isep = 44 # w \<and> list_all is_ws w) \<and> (\<exists>w. ksep = 58 # w \<and> list_all is_ws w)"

lemma not_ws [simp]: "\<not> is_ws 34" "\<not> is_ws 91" "\<not> is_ws 93" "\<not> is_ws 123" "\<not> is_ws 125"
    "\<not> is_ws 44" "\<not> is_ws 58"
  by (simp_all add: is_ws_def)

lemma no_digit_simps [simp]: "no_digit []" "no_digit (c # s) \<longleftrightarrow> \<not> is_digit c"
  by (simp_all add: no_digit_def)

lemma not_digit [simp]: "\<not> is_digit 44" "\<not> is_digit 93" "\<not> is_digit 125"
  by (simp_all add: is_digit_def)

lemma jsize_pos: "1 \<le> jsize j"
  by (cases j) auto

text \<open>The first character of a value: no white space and no closing bracket.\<close>

lemma dumps_hd:
  obtains c cs where "dumps isep ksep j = c # cs" "\<not> is_ws c" "c \<noteq> 93" "c \<noteq> 125"
proof (cases j)
  case (JInt i)
  have "\<exists>c cs. str_int i = c # cs \<and> (is_digit c \<or> c = 45)"
  proof (cases "i < 0")
    case False
    then show ?thesis
      using digits_are_digits [of "hd (digits (nat i))" "nat i"]
      by (cases "digits (nat i)") (auto simp: str_int_def)
  qed (simp add: str_int_def)
  with JInt that show thesis by (auto simp: is_digit_def is_ws_def)
next
  case (JBool b)
  with that show thesis by (cases b) (auto simp: is_ws_def lit_def)
qed (use that in \<open>auto simp: dump_str_def is_ws_def lit_def\<close>)

lemma skip_ws_dumps [simp]: "skip_ws (dumps isep ksep j @ r) = dumps isep ksep j @ r"
  by (rule dumps_hd [of isep ksep j]) auto

lemma expect_close_dumps [simp]:
  "expect 93 (dumps isep ksep j @ r) = None" "expect 125 (dumps isep ksep j @ r) = None"
  by (rule dumps_hd [of isep ksep j], simp)+

lemma read_value_JStr:
  assumes "list_all is_scalar s"
  shows "read_value (Suc n) (dump_str s @ r) = Some (JStr s, r)"
  using read_str_fuel [OF assms, of r] by (simp add: dump_str_def)

lemma read_value_JInt:
  assumes "no_digit r"
  shows "read_value (Suc n) (str_int i @ r) = Some (JInt i, r)"
proof -
  have "\<exists>c cs. str_int i = c # cs \<and> (is_digit c \<or> c = 45)"
    using digits_are_digits [of "hd (digits (nat i))" "nat i"]
    by (cases "digits (nat i)") (auto simp: str_int_def)
  then obtain c cs where c: "str_int i = c # cs" "is_digit c \<or> c = 45" by blast
  then have "expect 34 (str_int i @ r) = None" "expect 123 (str_int i @ r) = None"
    "expect 91 (str_int i @ r) = None" "expect_word (lit ''null'') (str_int i @ r) = None"
    "expect_word (lit ''true'') (str_int i @ r) = None"
    "expect_word (lit ''false'') (str_int i @ r) = None"
    by (auto simp: is_digit_def expect_word_def startswith_def lit_Cons)
  then show ?thesis by (simp add: read_int_str_int [OF assms])
qed

text \<open>What the round trip says of one value, in front of any further text.\<close>

definition reads_back :: "pystr \<Rightarrow> pystr \<Rightarrow> json \<Rightarrow> bool" where
  "reads_back isep ksep j \<longleftrightarrow>
     (\<forall>n r. jsize j \<le> n \<longrightarrow> no_digit r \<longrightarrow> read_value n (dumps isep ksep j @ r) = Some (j, r))"

lemma read_items_dumps:
  assumes "separators isep ksep" and "\<forall>x\<in>set xs. reads_back isep ksep x" and "xs \<noteq> []"
    and "sum_list (map (\<lambda>x. 1 + jsize x) xs) \<le> n"
  shows "read_items n acc (join_with isep (map (dumps isep ksep) xs) @ 93 # r) =
    Some (JList (acc @ xs), r)"
  using assms(2-)
proof (induction xs arbitrary: n acc)
  case (Cons x xs)
  then obtain m where n: "n = Suc m" by (cases n) auto
  have x: "reads_back isep ksep x" and m: "jsize x \<le> m" using Cons.prems n by auto
  show ?case
  proof (cases xs)
    case Nil
    with x m n show ?thesis by (simp add: reads_back_def)
  next
    case (Cons y ys)
    obtain w where w: "isep = 44 # w" "list_all is_ws w" using assms(1) by (auto simp: separators_def)
    have IH: "read_items m (acc @ [x]) (join_with isep (map (dumps isep ksep) xs) @ 93 # r) =
        Some (JList (acc @ x # xs), r)"
      using Cons.IH [of m "acc @ [x]"] Cons.prems n \<open>xs = y # ys\<close> by auto
    have start: "skip_ws (w @ join_with isep (map (dumps isep ksep) xs) @ 93 # r) =
        join_with isep (map (dumps isep ksep) xs) @ 93 # r"
      unfolding skip_ws_append [OF w(2)] using \<open>xs = y # ys\<close> by (cases ys) simp_all
    from x m have "read_value m (dumps isep ksep x @ 44 # w
        @ join_with isep (map (dumps isep ksep) xs) @ 93 # r) =
        Some (x, 44 # w @ join_with isep (map (dumps isep ksep) xs) @ 93 # r)"
      by (simp add: reads_back_def)
    with start IH show ?thesis using n w \<open>xs = y # ys\<close> by simp
  qed
qed simp

lemma update_fresh: "k \<notin> fst ` set d \<Longrightarrow> AList.update k v d = d @ [(k, v)]"
  by (induction d) auto

lemma read_members_dumps:
  assumes "separators isep ksep" and "\<forall>(k, v)\<in>set kvs. list_all is_scalar k \<and> reads_back isep ksep v"
    and "kvs \<noteq> []" and "distinct (map fst (acc @ kvs))"
    and "sum_list (map (\<lambda>(k, v). 1 + jsize v) kvs) \<le> n"
  shows "read_members n acc
      (join_with isep (map (\<lambda>(k, v). dump_str k @ ksep @ dumps isep ksep v) kvs) @ 125 # r) =
    Some (JObj (acc @ kvs), r)"
  using assms(2-)
proof (induction kvs arbitrary: n acc)
  case (Cons kv kvs)
  obtain k v where kv: "kv = (k, v)" by (cases kv)
  then obtain m where n: "n = Suc m" using Cons.prems by (cases n) auto
  have v: "reads_back isep ksep v" and k: "list_all is_scalar k" and m: "jsize v \<le> m"
    using Cons.prems n kv by auto
  have acc: "AList.update k v acc = acc @ [(k, v)]"
    using Cons.prems(3) kv by (intro update_fresh) auto
  let ?txt = "\<lambda>kvs. join_with isep (map (\<lambda>(k, v). dump_str k @ ksep @ dumps isep ksep v) kvs)"
  obtain w where w: "ksep = 58 # w" "list_all is_ws w" using assms(1) by (auto simp: separators_def)
  have key: "read_str (Suc (length q)) q = Some (k, t)"
    if "q = concat (map esc_char k) @ 34 # t" for q t
    using read_str_fuel [OF k] that by simp
  have val: "read_value m (skip_ws (w @ dumps isep ksep v @ t)) = Some (v, t)"
    if "no_digit t" for t
    using v m that by (simp add: skip_ws_append [OF w(2)] reads_back_def)
  show ?case
  proof (cases kvs)
    case Nil
    then show ?thesis
      by (simp add: n kv w dump_str_def key [OF refl] val [unfolded w(1)] acc
          del: length_append read_str.simps)
  next
    case (Cons y ys)
    obtain u where u: "isep = 44 # u" "list_all is_ws u" using assms(1) by (auto simp: separators_def)
    have IH: "read_members m (acc @ [(k, v)]) (?txt kvs @ 125 # r) = Some (JObj (acc @ (k, v) # kvs), r)"
      using Cons.IH [of "acc @ [(k, v)]" m] Cons.prems n kv \<open>kvs = y # ys\<close> by auto
    have start: "skip_ws (u @ ?txt kvs @ 125 # r) = ?txt kvs @ 125 # r"
      unfolding skip_ws_append [OF u(2)]
      using \<open>kvs = y # ys\<close> by (cases ys; cases y) (simp_all add: dump_str_def)
    define D T where "D = dumps isep ksep v" and "T = ?txt kvs @ 125 # r"
    have split: "?txt (kv # kvs) @ 125 # r = 34 # concat (map esc_char k) @ 34 # 58 # w @ D @ 44 # u @ T"
      using \<open>kvs = y # ys\<close> kv by (simp add: D_def T_def dump_str_def w(1) u(1))
    show ?thesis
      unfolding split
      by (simp add: n kv key [OF refl] val [folded D_def] acc start [folded T_def] IH [folded T_def]
          del: length_append read_str.simps)
  qed
qed simp

theorem read_value_dumps:
  assumes "wf_json j" "separators isep ksep"
  shows "reads_back isep ksep j"
  using assms(1)
proof (induction j)
  case (JList xs)
  show ?case
    unfolding reads_back_def
  proof (intro allI impI)
    fix n r assume n: "jsize (JList xs) \<le> n" and "no_digit r"
    then obtain m where m: "n = Suc m" by (cases n) auto
    show "read_value n (dumps isep ksep (JList xs) @ r) = Some (JList xs, r)"
    proof (cases xs)
      case (Cons y ys)
      have "read_items m [] (join_with isep (map (dumps isep ksep) xs) @ 93 # r) =
          Some (JList ([] @ xs), r)"
        using JList n m Cons by (intro read_items_dumps [OF assms(2)]) (auto simp: list_all_iff)
      moreover have "\<exists>t. join_with isep (map (dumps isep ksep) xs) @ 93 # r = dumps isep ksep y @ t"
        using Cons by (cases ys) auto
      ultimately show ?thesis using m by auto
    qed (simp add: m)
  qed
next
  case (JObj kvs)
  then have members: "\<forall>(k, v)\<in>set kvs. list_all is_scalar k \<and> reads_back isep ksep v"
    by (fastforce simp: list_all_iff split_def)
  show ?case
    unfolding reads_back_def
  proof (intro allI impI)
    fix n r assume n: "jsize (JObj kvs) \<le> n" and "no_digit r"
    then obtain m where m: "n = Suc m" by (cases n) auto
    show "read_value n (dumps isep ksep (JObj kvs) @ r) = Some (JObj kvs, r)"
    proof (cases kvs)
      case (Cons y ys)
      have "read_members m [] (join_with isep
          (map (\<lambda>(k, v). dump_str k @ ksep @ dumps isep ksep v) kvs) @ 125 # r) =
          Some (JObj ([] @ kvs), r)"
        using members n m Cons JObj.prems
        by (intro read_members_dumps [OF assms(2)]) auto
      moreover have "\<exists>t. join_with isep (map (\<lambda>(k, v). dump_str k @ ksep @ dumps isep ksep v) kvs)
          @ 125 # r = 34 # t"
        using Cons by (cases ys; cases y) (auto simp: dump_str_def)
      ultimately show ?thesis using m by auto
    qed (simp add: m)
  qed
next
  case (JBool b)
  show ?case
    by (cases b; auto simp: reads_back_def lit_Cons expect_word_def startswith_def Suc_le_eq
        gr0_conv_Suc)
next
  case JNull
  show ?case
    by (auto simp: reads_back_def lit_Cons expect_word_def startswith_def Suc_le_eq gr0_conv_Suc)
next
  case (JInt i)
  show ?case
    by (auto simp: reads_back_def Suc_le_eq gr0_conv_Suc read_value_JInt simp del: read_value.simps)
next
  case (JStr s)
  then show ?case
    by (auto simp: reads_back_def Suc_le_eq gr0_conv_Suc read_value_JStr simp del: read_value.simps)
qed

lemma length_join_with:
  "sum_list (map length ss) \<le> length (join_with isep ss)"
  by (induction isep ss rule: join_with.induct) auto

lemma length_join_with_sep:
  "isep \<noteq> [] \<Longrightarrow> ss \<noteq> [] \<Longrightarrow> sum_list (map (\<lambda>s. 1 + length s) ss) \<le> 1 + length (join_with isep ss)"
proof (induction isep ss rule: join_with.induct)
  case (3 isep s t ss)
  then have "1 \<le> length isep" by (cases isep) auto
  with 3 show ?case by simp
qed auto

lemma jsize_le_length:
  assumes "separators isep ksep"
  shows "jsize j \<le> length (dumps isep ksep j)"
proof (induction j)
  case (JInt i)
  obtain c cs where "dumps isep ksep (JInt i) = c # cs" by (rule dumps_hd)
  then show ?case by simp
next
  case (JList xs)
  have "isep \<noteq> []" using assms by (auto simp: separators_def)
  then have "xs \<noteq> [] \<longrightarrow> sum_list (map (\<lambda>x. 1 + length (dumps isep ksep x)) xs)
      \<le> 1 + length (join_with isep (map (dumps isep ksep) xs))"
    using length_join_with_sep [of isep "map (dumps isep ksep) xs"] by (simp add: comp_def)
  moreover have "sum_list (map (\<lambda>x. 1 + jsize x) xs)
      \<le> sum_list (map (\<lambda>x. 1 + length (dumps isep ksep x)) xs)"
    using JList by (intro sum_list_mono) simp
  ultimately show ?case by (cases xs) auto
next
  case (JObj kvs)
  let ?m = "\<lambda>(k, v). dump_str k @ ksep @ dumps isep ksep v"
  have "isep \<noteq> []" using assms by (auto simp: separators_def)
  then have "kvs \<noteq> [] \<longrightarrow> sum_list (map (\<lambda>kv. 1 + length (?m kv)) kvs)
      \<le> 1 + length (join_with isep (map ?m kvs))"
    using length_join_with_sep [of isep "map ?m kvs"] by (simp add: comp_def)
  moreover have "sum_list (map (\<lambda>(k, v). 1 + jsize v) kvs) \<le> sum_list (map (\<lambda>kv. 1 + length (?m kv)) kvs)"
    using JObj by (intro sum_list_mono) (fastforce simp: split_def)
  ultimately show ?case by (cases kvs) auto
qed (auto simp: lit_def dump_str_def)

theorem loads_dumps:
  assumes "wf_json j" "separators isep ksep"
  shows "loads (dumps isep ksep j) = Some j"
proof -
  have "read_value (Suc (length (dumps isep ksep j))) (dumps isep ksep j @ []) = Some (j, [])"
    using read_value_dumps [OF assms] jsize_le_length [OF assms(2), of j]
    unfolding reads_back_def by (metis le_SucI no_digit_simps(1))
  then show ?thesis
    using skip_ws_dumps [of isep ksep j "[]"] by (simp add: loads_def Let_def del: read_value.simps)
qed

lemma separators_simps [simp]: "separators [44] [58]" "separators [44, 32] [58, 32]"
  by (simp_all add: separators_def is_ws_def)

end
