(* ===== verification/Gateway_Config.thy ===== *)
theory Gateway_Config
  imports Json_Text "HOL-Library.Monad_Syntax"
begin

section \<open>Configuration models (schemas/enums.py, schemas/config.py)\<close>

text \<open>
  The pydantic models as records, \<open>model_dump(mode=''json'')\<close> as functions to JSON documents
  and \<open>model_validate\<close> as functions from them, \<open>None\<close> being a ValidationError. What pydantic
  itself decides is the record \<open>pydantic\<close>: the parsers of \<open>HttpUrl\<close> and \<open>EmailStr\<close>, which
  normalise their text, and the lax conversions to \<open>int\<close> and \<open>bool\<close>. \<open>pydantic_law\<close> is what
  its documentation says of them. A \<open>str\<close> field takes a string without lone surrogates.
\<close>

datatype backend_type = EWS | GRAPH | GMAIL
datatype auth_type = BASIC | NTLM | OAUTH2

primrec backend_value :: "backend_type \<Rightarrow> pystr" where
  "backend_value EWS = lit ''ews''"
| "backend_value GRAPH = lit ''graph''"
| "backend_value GMAIL = lit ''gmail''"

primrec auth_value :: "auth_type \<Rightarrow> pystr" where
  "auth_value BASIC = lit ''basic''"
| "auth_value NTLM = lit ''ntlm''"
| "auth_value OAUTH2 = lit ''oauth2''"

record ews_config =
  server_url :: pystr
  ews_auth :: auth_type
  ews_domain :: "pystr option"
  ews_username :: "pystr option"
  ews_password :: "pystr option"
  trust_self_signed :: bool
  ca_file :: "pystr option"
  tls_mode :: pystr
  primary_smtp :: "pystr option"

record graph_config =
  tenant_id :: pystr
  client_id :: pystr
  client_secret :: pystr
  graph_scopes :: "pystr list"

record smtp_config =
  bind_address :: pystr
  smtp_port :: int
  max_message_size_mb :: int
  allowed_ips :: "pystr list"

record gateway_config =
  backend :: backend_type
  smtp :: smtp_config
  ews :: "ews_config option"
  ews_failover :: "ews_config option"
  graph :: "graph_config option"
  default_sender :: "pystr option"

record pydantic =
  parse_url :: "pystr \<Rightarrow> pystr option"
  parse_email :: "pystr \<Rightarrow> pystr option"
  as_int :: "json \<Rightarrow> int option"
  as_bool :: "json \<Rightarrow> bool option"

definition pydantic_law :: "pydantic \<Rightarrow> bool" where
  "pydantic_law P \<longleftrightarrow>
     (\<forall>s t. parse_url P s = Some t \<longrightarrow> parse_url P t = Some t \<and> list_all is_scalar t)
     \<and> (\<forall>s t. parse_email P s = Some t \<longrightarrow>
          parse_email P t = Some t \<and> list_all is_scalar t \<and> strip t \<noteq> [])
     \<and> (\<forall>i. as_int P (JInt i) = Some i) \<and> (\<forall>b. as_bool P (JBool b) = Some b)"

subsection \<open>Dumping\<close>

definition json_opt :: "pystr option \<Rightarrow> json" where
  "json_opt x = (case x of None \<Rightarrow> JNull | Some s \<Rightarrow> JStr s)"

definition dump_ews :: "ews_config \<Rightarrow> json" where
  "dump_ews c = JObj
     [(lit ''server_url'', JStr (server_url c)),
      (lit ''auth_type'', JStr (auth_value (ews_auth c))),
      (lit ''domain'', json_opt (ews_domain c)),
      (lit ''username'', json_opt (ews_username c)),
      (lit ''password'', json_opt (ews_password c)),
      (lit ''trust_self_signed'', JBool (trust_self_signed c)),
      (lit ''ca_file'', json_opt (ca_file c)),
      (lit ''tls_mode'', JStr (tls_mode c)),
      (lit ''primary_smtp'', json_opt (primary_smtp c))]"

definition dump_graph :: "graph_config \<Rightarrow> json" where
  "dump_graph c = JObj
     [(lit ''tenant_id'', JStr (tenant_id c)),
      (lit ''client_id'', JStr (client_id c)),
      (lit ''client_secret'', JStr (client_secret c)),
      (lit ''scopes'', JList (map JStr (graph_scopes c)))]"

definition dump_smtp :: "smtp_config \<Rightarrow> json" where
  "dump_smtp c = JObj
     [(lit ''bind_address'', JStr (bind_address c)),
      (lit ''port'', JInt (smtp_port c)),
      (lit ''max_message_size_mb'', JInt (max_message_size_mb c)),
      (lit ''allowed_ips'', JList (map JStr (allowed_ips c)))]"

definition dump_block :: "('c \<Rightarrow> json) \<Rightarrow> 'c option \<Rightarrow> json" where
  "dump_block d x = (case x of None \<Rightarrow> JNull | Some c \<Rightarrow> d c)"

definition model_dump :: "gateway_config \<Rightarrow> json" where
  "model_dump c = JObj
     [(lit ''backend'', JStr (backend_value (backend c))),
      (lit ''smtp'', dump_smtp (smtp c)),
      (lit ''ews'', dump_block dump_ews (ews c)),
      (lit ''ews_failover'', dump_block dump_ews (ews_failover c)),
      (lit ''graph'', dump_block dump_graph (graph c)),
      (lit ''default_sender'', json_opt (default_sender c))]"

subsection \<open>Validating\<close>

definition as_str :: "json \<Rightarrow> pystr option" where
  "as_str j = (case j of JStr s \<Rightarrow> if list_all is_scalar s then Some s else None | _ \<Rightarrow> None)"

definition as_str_list :: "json \<Rightarrow> pystr list option" where
  "as_str_list j = (case j of JList xs \<Rightarrow> those (map as_str xs) | _ \<Rightarrow> None)"

definition empty_str_to_none :: "json \<Rightarrow> json" where
  "empty_str_to_none v =
     (case v of JStr s \<Rightarrow> if strip s = [] then JNull else v | _ \<Rightarrow> v)"

definition as_opt :: "(json \<Rightarrow> 'a option) \<Rightarrow> json \<Rightarrow> 'a option option" where
  "as_opt p v = (if v = JNull then Some None else map_option Some (p v))"

definition as_url :: "pydantic \<Rightarrow> json \<Rightarrow> pystr option" where
  "as_url P v = Option.bind (as_str v) (parse_url P)"

definition as_email :: "pydantic \<Rightarrow> json \<Rightarrow> pystr option" where
  "as_email P v = Option.bind (as_str v) (parse_email P)"

definition as_auth :: "json \<Rightarrow> auth_type option" where
  "as_auth v = find (\<lambda>a. v = JStr (auth_value a)) [BASIC, NTLM, OAUTH2]"

definition as_backend :: "json \<Rightarrow> backend_type option" where
  "as_backend v = find (\<lambda>b. v = JStr (backend_value b)) [EWS, GRAPH, GMAIL]"

definition as_int_in :: "pydantic \<Rightarrow> int \<Rightarrow> int \<Rightarrow> json \<Rightarrow> int option" where
  "as_int_in P lo hi v =
     Option.bind (as_int P v) (\<lambda>i. if lo \<le> i \<and> i \<le> hi then Some i else None)"

text \<open>A field with a default, and one without.\<close>

definition field_or :: "'a \<Rightarrow> (json \<Rightarrow> 'a option) \<Rightarrow> json dict \<Rightarrow> pystr \<Rightarrow> 'a option" where
  "field_or dflt p kvs name = (case map_of kvs name of None \<Rightarrow> Some dflt | Some v \<Rightarrow> p v)"

definition field_req :: "(json \<Rightarrow> 'a option) \<Rightarrow> json dict \<Rightarrow> pystr \<Rightarrow> 'a option" where
  "field_req p kvs name = Option.bind (map_of kvs name) p"

abbreviation blank_field :: "json dict \<Rightarrow> pystr \<Rightarrow> pystr option option" where
  "blank_field \<equiv> field_or None (\<lambda>v. as_opt as_str (empty_str_to_none v))"

fun obj_of :: "json \<Rightarrow> json dict option" where
  "obj_of (JObj kvs) = Some kvs"
| "obj_of _ = None"

definition validate_ews :: "pydantic \<Rightarrow> json \<Rightarrow> ews_config option" where
  "validate_ews P j = do {
     kvs \<leftarrow> obj_of j;
     url \<leftarrow> field_req (as_url P) kvs (lit ''server_url'');
     auth \<leftarrow> field_or NTLM as_auth kvs (lit ''auth_type'');
     dom \<leftarrow> blank_field kvs (lit ''domain'');
     user \<leftarrow> blank_field kvs (lit ''username'');
     pass \<leftarrow> blank_field kvs (lit ''password'');
     trust \<leftarrow> field_or False (as_bool P) kvs (lit ''trust_self_signed'');
     ca \<leftarrow> blank_field kvs (lit ''ca_file'');
     mode \<leftarrow> field_or (lit ''auto'') as_str kvs (lit ''tls_mode'');
     prim \<leftarrow> blank_field kvs (lit ''primary_smtp'');
     Some \<lparr>server_url = url, ews_auth = auth, ews_domain = dom, ews_username = user,
       ews_password = pass, trust_self_signed = trust, ca_file = ca, tls_mode = mode,
       primary_smtp = prim\<rparr> }"

definition validate_graph :: "json \<Rightarrow> graph_config option" where
  "validate_graph j = do {
     kvs \<leftarrow> obj_of j;
     t \<leftarrow> field_req as_str kvs (lit ''tenant_id'');
     c \<leftarrow> field_req as_str kvs (lit ''client_id'');
     s \<leftarrow> field_req as_str kvs (lit ''client_secret'');
     sc \<leftarrow> field_or [lit ''https://graph.microsoft.com/.default''] as_str_list kvs (lit ''scopes'');
     Some \<lparr>tenant_id = t, client_id = c, client_secret = s, graph_scopes = sc\<rparr> }"

definition default_smtp :: smtp_config where
  "default_smtp = \<lparr>bind_address = lit ''127.0.0.1'', smtp_port = 1025, max_message_size_mb = 25,
     allowed_ips = [lit ''127.0.0.1'']\<rparr>"

definition validate_smtp :: "pydantic \<Rightarrow> json \<Rightarrow> smtp_config option" where
  "validate_smtp P j = do {
     kvs \<leftarrow> obj_of j;
     b \<leftarrow> field_or (bind_address default_smtp) as_str kvs (lit ''bind_address'');
     p \<leftarrow> field_or (smtp_port default_smtp) (as_int_in P 1 65535) kvs (lit ''port'');
     m \<leftarrow> field_or (max_message_size_mb default_smtp) (as_int_in P 1 100) kvs
       (lit ''max_message_size_mb'');
     a \<leftarrow> field_or (allowed_ips default_smtp) as_str_list kvs (lit ''allowed_ips'');
     Some \<lparr>bind_address = b, smtp_port = p, max_message_size_mb = m, allowed_ips = a\<rparr> }"

definition model_validate :: "pydantic \<Rightarrow> json \<Rightarrow> gateway_config option" where
  "model_validate P j = do {
     kvs \<leftarrow> obj_of j;
     b \<leftarrow> field_or EWS as_backend kvs (lit ''backend'');
     s \<leftarrow> field_or default_smtp (validate_smtp P) kvs (lit ''smtp'');
     e \<leftarrow> field_or None (as_opt (validate_ews P)) kvs (lit ''ews'');
     f \<leftarrow> field_or None (as_opt (validate_ews P)) kvs (lit ''ews_failover'');
     g \<leftarrow> field_or None (as_opt validate_graph) kvs (lit ''graph'');
     d \<leftarrow> field_or None (\<lambda>v. as_opt (as_email P) (empty_str_to_none v)) kvs (lit ''default_sender'');
     Some \<lparr>backend = b, smtp = s, ews = e, ews_failover = f, graph = g, default_sender = d\<rparr> }"

subsection \<open>Valid configurations\<close>

definition opt_ok :: "pystr option \<Rightarrow> bool" where
  "opt_ok x \<longleftrightarrow> (case x of None \<Rightarrow> True | Some s \<Rightarrow> list_all is_scalar s \<and> strip s \<noteq> [])"

definition valid_ews :: "pydantic \<Rightarrow> ews_config \<Rightarrow> bool" where
  "valid_ews P c \<longleftrightarrow> parse_url P (server_url c) = Some (server_url c)
     \<and> list_all is_scalar (server_url c) \<and> list_all is_scalar (tls_mode c)
     \<and> opt_ok (ews_domain c) \<and> opt_ok (ews_username c) \<and> opt_ok (ews_password c)
     \<and> opt_ok (ca_file c) \<and> opt_ok (primary_smtp c)"

definition valid_graph :: "graph_config \<Rightarrow> bool" where
  "valid_graph c \<longleftrightarrow> list_all is_scalar (tenant_id c) \<and> list_all is_scalar (client_id c)
     \<and> list_all is_scalar (client_secret c) \<and> list_all (list_all is_scalar) (graph_scopes c)"

definition valid_smtp :: "smtp_config \<Rightarrow> bool" where
  "valid_smtp c \<longleftrightarrow> list_all is_scalar (bind_address c) \<and> 1 \<le> smtp_port c \<and> smtp_port c \<le> 65535
     \<and> 1 \<le> max_message_size_mb c \<and> max_message_size_mb c \<le> 100
     \<and> list_all (list_all is_scalar) (allowed_ips c)"

definition valid_config :: "pydantic \<Rightarrow> gateway_config \<Rightarrow> bool" where
  "valid_config P c \<longleftrightarrow> valid_smtp (smtp c) \<and> pred_option (valid_ews P) (ews c)
     \<and> pred_option (valid_ews P) (ews_failover c) \<and> pred_option valid_graph (graph c)
     \<and> (case default_sender c of None \<Rightarrow> True
        | Some s \<Rightarrow> parse_email P s = Some s \<and> list_all is_scalar s \<and> strip s \<noteq> [])"

lemma those_as_str: "list_all (list_all is_scalar) ss \<Longrightarrow> those (map as_str (map JStr ss)) = Some ss"
  by (induction ss) (auto simp: as_str_def)

lemma those_as_str_scalar: "those (map as_str js) = Some ss \<Longrightarrow> list_all (list_all is_scalar) ss"
  by (induction js arbitrary: ss) (auto simp: as_str_def split: option.splits json.splits if_splits)

lemma as_auth_value [simp]: "as_auth (JStr (auth_value a)) = Some a"
  by (cases a) (simp_all add: as_auth_def)

lemma as_backend_value [simp]: "as_backend (JStr (backend_value b)) = Some b"
  by (cases b) (simp_all add: as_backend_def)

lemma as_str_JStr [simp]: "list_all is_scalar s \<Longrightarrow> as_str (JStr s) = Some s"
  by (simp add: as_str_def)

lemma as_str_SomeD: "as_str v = Some s \<Longrightarrow> v = JStr s \<and> list_all is_scalar s"
  by (auto simp: as_str_def split: json.splits if_splits)

lemma blank_json_opt: "opt_ok x \<Longrightarrow> as_opt as_str (empty_str_to_none (json_opt x)) = Some x"
  by (cases x) (auto simp: opt_ok_def json_opt_def empty_str_to_none_def as_opt_def)

lemma blank_opt_ok: "as_opt as_str (empty_str_to_none v) = Some x \<Longrightarrow> opt_ok x"
  by (cases v) (auto simp: opt_ok_def as_opt_def empty_str_to_none_def as_str_def split: if_splits)

lemma validate_dump_ews:
  assumes "pydantic_law P" "valid_ews P c"
  shows "validate_ews P (dump_ews c) = Some c"
  using assms
  by (simp add: validate_ews_def dump_ews_def field_req_def field_or_def valid_ews_def as_url_def
      blank_json_opt pydantic_law_def)

lemma validate_dump_graph: "valid_graph c \<Longrightarrow> validate_graph (dump_graph c) = Some c"
  by (simp add: validate_graph_def dump_graph_def field_req_def field_or_def valid_graph_def
      as_str_list_def those_as_str del: map_map)

lemma validate_dump_smtp:
  "pydantic_law P \<Longrightarrow> valid_smtp c \<Longrightarrow> validate_smtp P (dump_smtp c) = Some c"
  by (simp add: validate_smtp_def dump_smtp_def field_or_def valid_smtp_def as_int_in_def
      as_str_list_def those_as_str pydantic_law_def del: map_map)

lemma as_opt_dump_block:
  assumes "\<And>c. ok c \<Longrightarrow> p (d c) = Some c" and "\<And>c. d c \<noteq> JNull" and "pred_option ok x"
  shows "as_opt p (dump_block d x) = Some x"
  using assms by (cases x) (auto simp: as_opt_def dump_block_def)

lemma validate_dump:
  assumes "pydantic_law P" "valid_config P c"
  shows "model_validate P (model_dump c) = Some c"
proof -
  have e: "as_opt (validate_ews P) (dump_block dump_ews x) = Some x"
    if "pred_option (valid_ews P) x" for x
    using validate_dump_ews [OF assms(1)] that
    by (intro as_opt_dump_block [where ok = "valid_ews P"]) (auto simp: dump_ews_def)
  have g: "as_opt validate_graph (dump_block dump_graph x) = Some x"
    if "pred_option valid_graph x" for x
    using validate_dump_graph that
    by (intro as_opt_dump_block [where ok = valid_graph]) (auto simp: dump_graph_def)
  have d: "as_opt (as_email P) (empty_str_to_none (json_opt (default_sender c)))
      = Some (default_sender c)"
    using assms(2) by (cases "default_sender c")
      (auto simp: valid_config_def json_opt_def empty_str_to_none_def as_opt_def as_email_def)
  from assms show ?thesis
    by (simp add: model_validate_def model_dump_def field_or_def valid_config_def
        validate_dump_smtp e g d)
qed

text \<open>Whatever validation accepts is valid: the blank texts are gone and the bounds hold.\<close>

lemma field_reqD: "field_req p kvs name = Some x \<Longrightarrow> \<exists>v. p v = Some x"
  by (auto simp: field_req_def bind_eq_Some_conv)

lemma field_or_sat:
  "field_or dflt p kvs name = Some x \<Longrightarrow> Q dflt \<Longrightarrow> (\<And>v y. p v = Some y \<Longrightarrow> Q y) \<Longrightarrow> Q x"
  by (cases "map_of kvs name") (auto simp: field_or_def)

lemma blank_field_ok: "blank_field kvs name = Some x \<Longrightarrow> opt_ok x"
  by (erule field_or_sat) (auto simp: opt_ok_def dest: blank_opt_ok [unfolded opt_ok_def])

lemma str_field_ok:
  "field_or dflt as_str kvs name = Some x \<Longrightarrow> list_all is_scalar dflt \<Longrightarrow> list_all is_scalar x"
  by (erule field_or_sat) (auto dest: as_str_SomeD)

lemma str_list_field_ok:
  "field_or dflt as_str_list kvs name = Some x \<Longrightarrow> list_all (list_all is_scalar) dflt
    \<Longrightarrow> list_all (list_all is_scalar) x"
  by (erule field_or_sat) (auto simp: as_str_list_def split: json.splits dest: those_as_str_scalar)

lemma int_field_ok:
  "field_or dflt (as_int_in P lo hi) kvs name = Some x \<Longrightarrow> lo \<le> dflt \<and> dflt \<le> hi
    \<Longrightarrow> lo \<le> x \<and> x \<le> hi"
  by (erule field_or_sat) (auto simp: as_int_in_def bind_eq_Some_conv split: if_splits)

lemma scalar_lit [simp]: "list_all is_scalar (lit ''auto'')" "list_all is_scalar (lit ''127.0.0.1'')"
    "list_all is_scalar (lit ''https://graph.microsoft.com/.default'')"
  by (simp_all add: lit_def is_scalar_def)

lemma validate_ews_valid:
  assumes "pydantic_law P" "validate_ews P j = Some c"
  shows "valid_ews P c"
proof -
  from assms(2) obtain kvs where url: "field_req (as_url P) kvs (lit ''server_url'') = Some (server_url c)"
    and blank: "blank_field kvs (lit ''domain'') = Some (ews_domain c)"
      "blank_field kvs (lit ''username'') = Some (ews_username c)"
      "blank_field kvs (lit ''password'') = Some (ews_password c)"
      "blank_field kvs (lit ''ca_file'') = Some (ca_file c)"
      "blank_field kvs (lit ''primary_smtp'') = Some (primary_smtp c)"
    and mode: "field_or (lit ''auto'') as_str kvs (lit ''tls_mode'') = Some (tls_mode c)"
    by (auto simp: validate_ews_def bind_eq_Some_conv default_smtp_def)
  from field_reqD [OF url] assms(1) have "parse_url P (server_url c) = Some (server_url c)
      \<and> list_all is_scalar (server_url c)"
    by (auto simp: as_url_def bind_eq_Some_conv pydantic_law_def)
  with blank [THEN blank_field_ok] str_field_ok [OF mode] show ?thesis
    by (simp add: valid_ews_def)
qed

lemma validate_graph_valid:
  assumes "validate_graph j = Some c"
  shows "valid_graph c"
proof -
  from assms obtain kvs where f: "field_req as_str kvs (lit ''tenant_id'') = Some (tenant_id c)"
    "field_req as_str kvs (lit ''client_id'') = Some (client_id c)"
    "field_req as_str kvs (lit ''client_secret'') = Some (client_secret c)"
    and "field_or [lit ''https://graph.microsoft.com/.default''] as_str_list kvs (lit ''scopes'')
      = Some (graph_scopes c)"
    by (auto simp: validate_graph_def bind_eq_Some_conv default_smtp_def)
  with f [THEN field_reqD] show ?thesis
    by (auto simp: valid_graph_def dest: as_str_SomeD str_list_field_ok)
qed

lemma default_smtp_valid: "valid_smtp default_smtp"
  by (simp add: valid_smtp_def default_smtp_def)

lemma validate_smtp_valid:
  assumes "validate_smtp P j = Some c"
  shows "valid_smtp c"
proof -
  from assms obtain kvs where
    "field_or (lit ''127.0.0.1'') as_str kvs (lit ''bind_address'') = Some (bind_address c)"
    "field_or 1025 (as_int_in P 1 65535) kvs (lit ''port'') = Some (smtp_port c)"
    "field_or 25 (as_int_in P 1 100) kvs (lit ''max_message_size_mb'') = Some (max_message_size_mb c)"
    "field_or [lit ''127.0.0.1''] as_str_list kvs (lit ''allowed_ips'') = Some (allowed_ips c)"
    by (auto simp: validate_smtp_def bind_eq_Some_conv default_smtp_def)
  then show ?thesis
    using int_field_ok [of 1025 P 1 65535] int_field_ok [of 25 P 1 100]
    by (auto simp: valid_smtp_def dest: str_field_ok str_list_field_ok)
qed

lemma as_opt_sat: "as_opt p v = Some x \<Longrightarrow> (\<And>v y. p v = Some y \<Longrightarrow> ok y) \<Longrightarrow> pred_option ok x"
  by (cases x) (auto simp: as_opt_def split: if_splits)

lemma validate_valid:
  assumes "pydantic_law P" "model_validate P j = Some c"
  shows "valid_config P c"
proof -
  from assms(2) obtain kvs where
    s: "field_or default_smtp (validate_smtp P) kvs (lit ''smtp'') = Some (smtp c)" and
    e: "field_or None (as_opt (validate_ews P)) kvs (lit ''ews'') = Some (ews c)" and
    f: "field_or None (as_opt (validate_ews P)) kvs (lit ''ews_failover'') = Some (ews_failover c)" and
    g: "field_or None (as_opt validate_graph) kvs (lit ''graph'') = Some (graph c)" and
    d: "field_or None (\<lambda>v. as_opt (as_email P) (empty_str_to_none v)) kvs (lit ''default_sender'')
      = Some (default_sender c)"
    by (auto simp: model_validate_def bind_eq_Some_conv default_smtp_def)
  have ews_ok: "pred_option (valid_ews P) y" if "as_opt (validate_ews P) v = Some y" for v y
    using that validate_ews_valid [OF assms(1)] by (rule as_opt_sat)
  have sender: "case y of None \<Rightarrow> True
      | Some s \<Rightarrow> parse_email P s = Some s \<and> list_all is_scalar s \<and> strip s \<noteq> []"
    if "as_opt (as_email P) w = Some y" for w y
    using that assms(1)
    by (auto simp: as_opt_def as_email_def pydantic_law_def bind_eq_Some_conv split: if_splits option.split)
  have "valid_smtp (smtp c)"
    using s default_smtp_valid validate_smtp_valid by (rule field_or_sat)
  moreover have "pred_option (valid_ews P) (ews c)" using e by (rule field_or_sat) (auto intro: ews_ok)
  moreover have "pred_option (valid_ews P) (ews_failover c)"
    using f by (rule field_or_sat) (auto intro: ews_ok)
  moreover have "pred_option valid_graph (graph c)"
    using g by (rule field_or_sat) (auto intro: as_opt_sat dest: validate_graph_valid)
  moreover have "case default_sender c of None \<Rightarrow> True
      | Some s \<Rightarrow> parse_email P s = Some s \<and> list_all is_scalar s \<and> strip s \<noteq> []"
    using d by (rule field_or_sat) (use sender in auto)
  ultimately show ?thesis by (simp add: valid_config_def)
qed

text \<open>Parsers under which the witnesses evaluate: every text of scalars is taken as it is.\<close>

definition toy_pydantic :: pydantic where
  "toy_pydantic = \<lparr>parse_url = (\<lambda>s. if list_all is_scalar s then Some s else None),
     parse_email = (\<lambda>s. if list_all is_scalar s \<and> strip s \<noteq> [] then Some s else None),
     as_int = (\<lambda>j. case j of JInt i \<Rightarrow> Some i | _ \<Rightarrow> None),
     as_bool = (\<lambda>j. case j of JBool b \<Rightarrow> Some b | _ \<Rightarrow> None)\<rparr>"

lemma toy_pydantic_law [simp]: "pydantic_law toy_pydantic"
  by (simp add: pydantic_law_def toy_pydantic_def)

text \<open>A dumped configuration is a document \<open>json.dumps\<close> and \<open>json.loads\<close> carry over.\<close>

lemma wf_json_opt: "opt_ok x \<Longrightarrow> wf_json (json_opt x)"
  by (cases x) (simp_all add: json_opt_def opt_ok_def)

lemma wf_json_strs: "list_all (list_all is_scalar) ss \<Longrightarrow> wf_json (JList (map JStr ss))"
  by (simp add: list_all_iff)

end
