(* ===== verification/Secret_Box.thy ===== *)
theory Secret_Box
  imports Py_Codecs
begin

section \<open>Secrets at rest (crypto/secrets.py)\<close>

text \<open>
  \<open>SecretBox\<close> encrypts the passwords the database holds. The primitives of the libraries
  \<open>cryptography\<close> and \<open>hashlib\<close> are the fields of a record \<open>crypto\<close>: AES-256-GCM under a
  key and a nonce (\<open>None\<close> is its InvalidTag), SHA-256, HMAC-SHA256 and scrypt (the
  costs n, r, p and the length of the digest last), which other theories use too.
  \<open>aead_law\<close> is the documented law of the AEAD, decryption undoes encryption;
  \<open>digest_law\<close> that a SHA-256 digest has 32 bytes.
\<close>

record crypto =
  sha256 :: "bytes \<Rightarrow> bytes"
  aes_encrypt :: "bytes \<Rightarrow> bytes \<Rightarrow> bytes \<Rightarrow> bytes"
  aes_decrypt :: "bytes \<Rightarrow> bytes \<Rightarrow> bytes \<Rightarrow> bytes option"
  hmac_sha256 :: "bytes \<Rightarrow> bytes \<Rightarrow> bytes"
  scrypt :: "bytes \<Rightarrow> bytes \<Rightarrow> int \<times> int \<times> int \<Rightarrow> nat \<Rightarrow> bytes res"

definition aead_law :: "crypto \<Rightarrow> bool" where
  "aead_law C \<longleftrightarrow>
     (\<forall>key nonce text. aes_decrypt C key nonce (aes_encrypt C key nonce text) = Some text)"

definition digest_law :: "crypto \<Rightarrow> bool" where
  "digest_law C \<longleftrightarrow> (\<forall>data. length (sha256 C data) = 32)"

record secret_box =
  box_key :: bytes

definition new_box :: "bytes \<Rightarrow> secret_box res" where
  "new_box key =
     (if length key \<noteq> 32 then Inl (Exn ValueError (lit ''secret key must be 32 bytes''))
      else Inr \<lparr>box_key = key\<rparr>)"

definition derive_key :: "crypto \<Rightarrow> secret_box \<Rightarrow> pystr \<Rightarrow> bytes res" where
  "derive_key C box purpose =
     bindE (utf8_encode purpose) (\<lambda>raw. Inr (sha256 C (box_key box @ raw)))"

definition from_passphrase :: "crypto \<Rightarrow> pystr \<Rightarrow> secret_box res" where
  "from_passphrase C passphrase =
     bindE (utf8_encode passphrase) (\<lambda>raw. new_box (sha256 C raw))"

text \<open>\<open>nonce\<close> is the result of \<open>secrets.token_bytes(12)\<close>.\<close>

definition encrypt :: "crypto \<Rightarrow> bytes \<Rightarrow> secret_box \<Rightarrow> pystr \<Rightarrow> pystr res" where
  "encrypt C nonce box plaintext =
     (if plaintext = [] then Inr []
      else bindE (utf8_encode plaintext) (\<lambda>raw.
        Inr (urlsafe_b64encode (nonce @ aes_encrypt C (box_key box) nonce raw))))"

definition decrypt :: "crypto \<Rightarrow> secret_box \<Rightarrow> pystr \<Rightarrow> pystr res" where
  "decrypt C box token =
     (if token = [] then Inr []
      else bindE (ascii_encode token) (\<lambda>_.
        bindE (urlsafe_b64decode token) (\<lambda>raw.
          case aes_decrypt C (box_key box) (take 12 raw) (drop 12 raw) of
            None \<Rightarrow> Inl (Exn OtherError [])
          | Some text \<Rightarrow> utf8_decode text)))"

text \<open>
  \<open>resolve_secret_box\<close>: the key of the environment, else the text of the key file (\<open>None\<close>
  when there is no file), else a fresh phrase from \<open>os.urandom(32)\<close>, which the second
  component says is written to the file.
\<close>

definition resolve_secret_box ::
    "crypto \<Rightarrow> pystr option \<Rightarrow> pystr option \<Rightarrow> bytes \<Rightarrow> secret_box res \<times> pystr option" where
  "resolve_secret_box C env_key file_text urandom =
     (if strip (or_empty env_key) \<noteq> [] then (from_passphrase C (strip (or_empty env_key)), None)
      else case file_text of
          Some text \<Rightarrow> (from_passphrase C (strip text), None)
        | None \<Rightarrow> (let phrase = urlsafe_b64encode urandom
                   in (from_passphrase C phrase, Some (phrase @ [10]))))"

lemma encrypt_Nil [simp]: "encrypt C nonce box [] = Inr []"
  and decrypt_Nil [simp]: "decrypt C box [] = Inr []"
  by (simp_all add: encrypt_def decrypt_def)

lemma decrypt_encrypt:
  assumes "aead_law C" and "length nonce = 12" and "encrypt C nonce box plaintext = Inr token"
  shows "decrypt C box token = Inr plaintext"
proof (cases "plaintext = []")
  case True
  with assms(3) show ?thesis by simp
next
  case False
  with assms(3) obtain raw where raw: "utf8_encode plaintext = Inr raw"
    and token: "token = urlsafe_b64encode (nonce @ aes_encrypt C (box_key box) nonce raw)"
    by (auto simp: encrypt_def bindE_Inr_iff)
  have "nonce \<noteq> []" using assms(2) by auto
  then show ?thesis
    using assms(1,2) utf8_roundtrip [OF raw] by (simp add: decrypt_def token aead_law_def)
qed

lemma encrypt_Inr: "list_all is_scalar plaintext \<Longrightarrow> \<exists>token. encrypt C nonce box plaintext = Inr token"
  using utf8_encode_Inr_iff [of plaintext] by (auto simp: encrypt_def)

lemma encrypt_eq_Nil_iff:
  "encrypt C nonce box plaintext = Inr token \<Longrightarrow> length nonce = 12 \<Longrightarrow>
   token = [] \<longleftrightarrow> plaintext = []"
  by (auto simp: encrypt_def bindE_Inr_iff split: if_splits)

text \<open>A stand-in for the primitives at which the witnesses of this library evaluate.\<close>

definition toy_crypto :: crypto where
  "toy_crypto = \<lparr>sha256 = (\<lambda>d. take 32 (d @ replicate 32 0)),
     aes_encrypt = (\<lambda>key nonce text. rev text @ replicate 16 7),
     aes_decrypt = (\<lambda>key nonce c. if 16 \<le> length c then Some (rev (take (length c - 16) c)) else None),
     hmac_sha256 = (\<lambda>key d. take 32 (key @ d @ replicate 32 0)),
     scrypt = (\<lambda>password salt cost n. Inr (take n (password @ salt @ replicate n 0)))\<rparr>"

lemma toy_laws [simp]: "aead_law toy_crypto" "digest_law toy_crypto"
  by (simp_all add: aead_law_def digest_law_def toy_crypto_def min_def)

text \<open>
  A secret that was stored can be read back: whenever \<open>encrypt\<close> gives a token,
  \<open>decrypt\<close> under the same box gives the plaintext, and the token is empty exactly for an
  empty secret. \<open>encrypt\<close> only raises on a text that has no UTF-8 encoding (a lone surrogate).
\<close>

lemma secret_roundtrip:
  assumes "aead_law C" and "length nonce = 12"
  shows "case encrypt C nonce box plaintext of
       Inl e \<Rightarrow> exn_kind e = UnicodeError \<and> \<not> list_all is_scalar plaintext
     | Inr token \<Rightarrow> decrypt C box token = Inr plaintext \<and> (token = []) = (plaintext = [])"
proof (cases "encrypt C nonce box plaintext")
  case (Inl e)
  then have "utf8_encode plaintext = Inl e" by (auto simp: encrypt_def bindE_def split: if_splits sum.splits)
  with Inl show ?thesis by (auto simp: utf8_encode_def split: if_splits)
next
  case (Inr token)
  with decrypt_encrypt [OF assms Inr] encrypt_eq_Nil_iff [OF Inr assms(2)] show ?thesis by simp
qed

lemma secret_roundtrip_witness:
  "case encrypt toy_crypto (replicate 12 1) \<lparr>box_key = []\<rparr> (lit ''s3cret'') of
       Inl e \<Rightarrow> exn_kind e = UnicodeError \<and> \<not> list_all is_scalar (lit ''s3cret'')
     | Inr token \<Rightarrow> decrypt toy_crypto \<lparr>box_key = []\<rparr> token = Inr (lit ''s3cret'')
         \<and> (token = []) = (lit ''s3cret'' = [])"
  by (rule secret_roundtrip) simp_all

text \<open>Every key \<open>resolve_secret_box\<close> settles on is a usable one: it never raises.\<close>

lemma from_passphrase_total:
  "digest_law C \<Longrightarrow> list_all is_scalar s \<Longrightarrow> \<exists>box. from_passphrase C s = Inr box"
  using utf8_encode_Inr_iff [of s] by (auto simp: from_passphrase_def new_box_def digest_law_def)

lemma resolve_generates_and_reloads:
  assumes "strip (or_empty env_key) = []"
    and "resolve_secret_box C env_key None urandom = (box, Some text)"
  shows "resolve_secret_box C env_key (Some text) urandom' = (box, None)"
proof -
  have phrase: "strip (urlsafe_b64encode urandom @ [10]) = urlsafe_b64encode urandom"
  proof -
    have "list_all (\<lambda>c. \<not> is_space c) (urlsafe_b64encode urandom)"
      unfolding list_all_iff
    proof
      fix c assume "c \<in> set (urlsafe_b64encode urandom)"
      then obtain d where "d \<in> set (b64encode urandom)" and c: "c = to_urlsafe d"
        by (auto simp: urlsafe_b64encode_def)
      from b64encode_chars [OF this(1)] have "43 \<le> d \<and> d \<le> 122"
        by (auto simp: b64_char_def)
      then have "43 \<le> c \<and> c \<le> 122" unfolding c by (auto simp: to_urlsafe_def)
      then show "\<not> is_space c" by (auto simp: is_space_def)
    qed
    then have nonspace: "\<And>c. c \<in> set (urlsafe_b64encode urandom) \<Longrightarrow> \<not> is_space c"
      by (simp add: list_all_iff)
    show ?thesis
      using nonspace [OF hd_in_set] nonspace [OF last_in_set] by (intro strip_newline) auto
  qed
  from assms show ?thesis by (auto simp: resolve_secret_box_def Let_def phrase)
qed

end
