(* ===== verification/Work_Queue.thy ===== *)
theory Work_Queue
  imports Py_Prelude
begin

section \<open>The contract of the claim protocol\<close>

text \<open>
  The workers share one queue of rows and agree on who delivers a row by claiming it with a
  conditional update that counts the rows it changed. \<open>work_queue\<close> states what such an update
  promises; the message table interprets it, and the workers rest on its consequences: at most
  one of several claims of a row wins, and a claim that loses changes nothing.
\<close>

locale work_queue =
  fixes row_of :: "'t \<Rightarrow> 'k \<Rightarrow> 'r option"
    and waiting :: "'r \<Rightarrow> bool"
    and claim :: "'k \<Rightarrow> 't \<Rightarrow> nat \<times> 't"
    and taken :: "'r \<Rightarrow> 'r"
    and valid :: "'t \<Rightarrow> bool"
  assumes claim_count: "valid t \<Longrightarrow> fst (claim k t) =
      (case row_of t k of Some r \<Rightarrow> if waiting r then 1 else 0 | None \<Rightarrow> 0)"
    and claim_rows: "row_of (snd (claim k t)) j =
      (if j = k then map_option (\<lambda>r. if waiting r then taken r else r) (row_of t j) else row_of t j)"
    and valid_claim: "valid (snd (claim k t)) = valid t"
    and taken_busy: "\<not> waiting (taken r)"
begin

lemma claim_wins_iff: "valid t \<Longrightarrow> fst (claim k t) = 1 \<longleftrightarrow> (\<exists>r. row_of t k = Some r \<and> waiting r)"
  by (simp add: claim_count split: option.split)

lemma claim_won:
  assumes "valid t" "claim k t = (1, t')"
  obtains r where "row_of t k = Some r" "waiting r" "row_of t' k = Some (taken r)"
    "\<And>j. j \<noteq> k \<Longrightarrow> row_of t' j = row_of t j"
  using claim_wins_iff [OF assms(1), of k] claim_rows [of k t] assms(2) by auto

lemma claim_lost:
  assumes "valid t" "claim k t = (n, t')" "n \<noteq> 1"
  shows "row_of t' j = row_of t j"
  using claim_wins_iff [OF assms(1), of k] claim_rows [of k t j] assms(2,3)
  by (auto simp: map_option_case split: option.split)

lemma second_claim_loses: "valid t \<Longrightarrow> fst (claim k (snd (claim k t))) = 0"
  by (simp add: claim_count valid_claim claim_rows taken_busy split: option.split)

lemma one_winner: "valid t \<Longrightarrow> fst (claim k t) + fst (claim k (snd (claim k t))) \<le> 1"
  using second_claim_loses [of t k] by (simp add: claim_count split: option.split)

end

end
