(* ===== verification/Message_Store.thy ===== *)
theory Message_Store
  imports Gateway_Config Secret_Box Work_Queue
begin

section \<open>The message table (queue/repository.py, db/models.py, schemas/messages.py)\<close>

text \<open>
  \<open>MessageRow\<close> as a record and the table as the list of its rows in the order they were
  inserted; a row is found and updated by its primary key. Every function of the repository
  commits, so it is one step on the table, except \<open>claim_next\<close>, which selects in one
  transaction and updates in another: \<open>select_next\<close> and \<open>claim_row\<close> are its two halves.
  The clock, the random identifier and the nonce are arguments. \<open>ORDER BY created_at\<close>
  keeps the insertion order of rows of the same time.
\<close>

datatype message_status = QUEUED | PROCESSING | SENT | FAILED | RETRYING

primrec status_value :: "message_status \<Rightarrow> pystr" where
  "status_value QUEUED = lit ''queued''"
| "status_value PROCESSING = lit ''processing''"
| "status_value SENT = lit ''sent''"
| "status_value FAILED = lit ''failed''"
| "status_value RETRYING = lit ''retrying''"

record message_row =
  row_id :: pystr
  client_ip :: pystr
  raw_auth_user :: pystr
  sanitized_user :: pystr
  row_sender :: pystr
  row_recipients :: pystr
  row_subject :: pystr
  row_body :: pystr
  row_status :: message_status
  attempts :: int
  last_error :: "pystr option"
  mime_payload :: "pystr option"
  row_username :: "pystr option"
  row_password_enc :: "pystr option"
  next_retry_at :: "time option"
  created_at :: time
  updated_at :: time

type_synonym table = "message_row list"

definition new_message_id :: "pystr \<Rightarrow> pystr" where
  "new_message_id uuid_hex = lit ''msg_'' @ take 12 uuid_hex"

definition get_message :: "table \<Rightarrow> pystr \<Rightarrow> message_row option" where
  "get_message t i = find (\<lambda>r. row_id r = i) t"

definition update_row :: "pystr \<Rightarrow> (message_row \<Rightarrow> message_row) \<Rightarrow> table \<Rightarrow> table" where
  "update_row i f t = map (\<lambda>r. if row_id r = i then f r else r) t"

record new_message =
  nm_client_ip :: pystr
  nm_raw_user :: pystr
  nm_sanitized_user :: pystr
  nm_sender :: pystr
  nm_recipients :: "pystr list"
  nm_subject :: pystr
  nm_mime :: bytes
  nm_username :: pystr
  nm_password :: pystr

text \<open>
  The insertion raises when the password has no UTF-8 encoding, when the key is taken, or when
  a text column cannot be bound: a text with a lone surrogate has no encoding, and a Subject
  with bytes outside ASCII, which the parser decodes to surrogates, is a \<open>Header\<close> object.
\<close>

definition bindable :: "new_message \<Rightarrow> bool" where
  "bindable m \<longleftrightarrow> list_all (list_all is_scalar) [nm_client_ip m, nm_raw_user m,
     nm_sanitized_user m, nm_sender m, nm_subject m, nm_username m]"

definition insert_message ::
    "crypto \<Rightarrow> secret_box \<Rightarrow> bytes \<Rightarrow> pystr \<Rightarrow> time \<Rightarrow> new_message \<Rightarrow> table \<Rightarrow> (message_row \<times> table) res" where
  "insert_message C box nonce uuid_hex now m t =
     bindE (encrypt C nonce box (nm_password m)) (\<lambda>enc.
       let row = \<lparr>row_id = new_message_id uuid_hex, client_ip = nm_client_ip m,
             raw_auth_user = nm_raw_user m, sanitized_user = nm_sanitized_user m,
             row_sender = nm_sender m,
             row_recipients = dumps_default (JList (map JStr (nm_recipients m))),
             row_subject = nm_subject m, row_body = [], row_status = QUEUED, attempts = 0,
             last_error = None, mime_payload = Some (b64encode (nm_mime m)),
             row_username = Some (nm_username m), row_password_enc = Some enc,
             next_retry_at = Some now, created_at = now, updated_at = now\<rparr>
       in if \<not> bindable m
          then Inl (Exn OtherError (lit ''Error binding parameter''))
          else if get_message t (row_id row) \<noteq> None
          then Inl (Exn IntegrityError (lit ''UNIQUE constraint failed: messages.id''))
          else Inr (row, t @ [row]))"

subsection \<open>Queries\<close>

definition list_messages :: "message_status option \<Rightarrow> nat \<Rightarrow> table \<Rightarrow> message_row list" where
  "list_messages st limit t =
     take limit (sort_key (\<lambda>r. - created_at r)
       (filter (\<lambda>r. case st of None \<Rightarrow> True | Some s \<Rightarrow> row_status r = s) t))"

definition is_pending :: "message_row \<Rightarrow> bool" where
  "is_pending r \<longleftrightarrow> row_status r \<in> {QUEUED, RETRYING}"

definition is_due :: "time \<Rightarrow> message_row \<Rightarrow> bool" where
  "is_due now r \<longleftrightarrow> is_pending r \<and> (case next_retry_at r of None \<Rightarrow> True | Some x \<Rightarrow> x \<le> now)"

definition pending_messages :: "time \<Rightarrow> nat \<Rightarrow> table \<Rightarrow> message_row list" where
  "pending_messages now limit t = take limit (sort_key created_at (filter (is_due now) t))"

definition count_pending :: "table \<Rightarrow> int" where
  "count_pending t = int (length (filter is_pending t))"

subsection \<open>Claiming\<close>

definition select_next :: "time \<Rightarrow> table \<Rightarrow> message_row option" where
  "select_next now t = (case pending_messages now 1 t of [] \<Rightarrow> None | r # _ \<Rightarrow> Some r)"

text \<open>The conditional UPDATE; the number is its rowcount.\<close>

definition claim_row :: "pystr \<Rightarrow> time \<Rightarrow> table \<Rightarrow> nat \<times> table" where
  "claim_row i now t =
     (length (filter (\<lambda>r. row_id r = i \<and> is_pending r) t),
      map (\<lambda>r. if row_id r = i \<and> is_pending r
               then r\<lparr>row_status := PROCESSING, attempts := attempts r + 1, updated_at := now\<rparr>
               else r) t)"

definition claim_next :: "time \<Rightarrow> time \<Rightarrow> table \<Rightarrow> message_row option \<times> table" where
  "claim_next now now' t =
     (case select_next now t of
        None \<Rightarrow> (None, t)
      | Some r \<Rightarrow>
          (case claim_row (row_id r) now' t of (n, t') \<Rightarrow>
             if n \<noteq> 1 then (None, t') else (get_message t' (row_id r), t')))"

subsection \<open>Marking\<close>

definition mark_processing :: "pystr \<Rightarrow> time \<Rightarrow> table \<Rightarrow> table" where
  "mark_processing i now = update_row i (\<lambda>r.
     r\<lparr>row_status := PROCESSING, attempts := attempts r + 1, updated_at := now\<rparr>)"

definition mark_sent :: "pystr \<Rightarrow> time \<Rightarrow> table \<Rightarrow> table" where
  "mark_sent i now = update_row i (\<lambda>r.
     r\<lparr>row_status := SENT, last_error := None, next_retry_at := None, updated_at := now\<rparr>)"

text \<open>\<open>timedelta(seconds=delay)\<close> is a whole number of microseconds.\<close>

definition mark_retry :: "pystr \<Rightarrow> pystr \<Rightarrow> secs \<Rightarrow> time \<Rightarrow> table \<Rightarrow> table" where
  "mark_retry i err delay now = update_row i (\<lambda>r.
     r\<lparr>row_status := RETRYING, last_error := Some (take 2000 err),
       next_retry_at := Some (now + round_half_even (delay * 1000000)), updated_at := now\<rparr>)"

definition mark_failed :: "pystr \<Rightarrow> pystr \<Rightarrow> time \<Rightarrow> table \<Rightarrow> table" where
  "mark_failed i err now = update_row i (\<lambda>r.
     r\<lparr>row_status := FAILED, last_error := Some (take 2000 err), next_retry_at := None,
       updated_at := now\<rparr>)"

subsection \<open>Reading a row back\<close>

definition get_password :: "crypto \<Rightarrow> secret_box \<Rightarrow> message_row \<Rightarrow> pystr res" where
  "get_password C box r =
     (if \<not> truthy (row_password_enc r) then Inr [] else decrypt C box (or_empty (row_password_enc r)))"

definition get_mime_bytes :: "message_row \<Rightarrow> bytes res" where
  "get_mime_bytes r =
     (if \<not> truthy (mime_payload r) then Inr []
      else bindE (ascii_encode (or_empty (mime_payload r))) (\<lambda>_. b64decode (or_empty (mime_payload r))))"

text \<open>\<open>json.loads(row.recipients)\<close>: the column is only written as a list of strings.\<close>

definition json_string :: "json \<Rightarrow> pystr option" where
  "json_string j = (case j of JStr s \<Rightarrow> Some s | _ \<Rightarrow> None)"

definition json_strings :: "json \<Rightarrow> pystr list option" where
  "json_strings j = (case j of JList xs \<Rightarrow> those (map json_string xs) | _ \<Rightarrow> None)"

definition row_rcpts :: "message_row \<Rightarrow> pystr list res" where
  "row_rcpts r = (case loads (row_recipients r) of
     None \<Rightarrow> Inl (Exn ValueError (lit ''JSONDecodeError''))
   | Some j \<Rightarrow> (case json_strings j of
       None \<Rightarrow> Inl (Exn ValueError (lit ''not a list of strings'')) | Some xs \<Rightarrow> Inr xs))"

record message_record =
  rec_id :: pystr
  rec_client_ip :: pystr
  rec_raw_auth_user :: pystr
  rec_sanitized_user :: pystr
  rec_sender :: pystr
  rec_recipients :: "pystr list"
  rec_subject :: pystr
  rec_status :: message_status
  rec_attempts :: int
  rec_last_error :: "pystr option"
  rec_created_at :: time
  rec_updated_at :: time

text \<open>The model validates the sender and every recipient as e-mail addresses.\<close>

definition row_to_record :: "pydantic \<Rightarrow> message_row \<Rightarrow> message_record res" where
  "row_to_record P r =
     bindE (row_rcpts r) (\<lambda>rcpts.
       case (parse_email P (row_sender r), those (map (parse_email P) rcpts)) of
         (Some s, Some rs) \<Rightarrow>
           Inr \<lparr>rec_id = row_id r, rec_client_ip = client_ip r, rec_raw_auth_user = raw_auth_user r,
             rec_sanitized_user = sanitized_user r, rec_sender = s, rec_recipients = rs,
             rec_subject = row_subject r, rec_status = row_status r, rec_attempts = attempts r,
             rec_last_error = last_error r, rec_created_at = created_at r,
             rec_updated_at = updated_at r\<rparr>
       | _ \<Rightarrow> Inl (Exn ValueError (lit ''validation error for MessageRecord'')))"

lemmas mark_defs = mark_processing_def mark_sent_def mark_retry_def mark_failed_def

lemmas row_step_defs [step_defs] = mark_defs update_row_def claim_row_def

subsection \<open>Rows and keys\<close>

definition ids :: "table \<Rightarrow> pystr list" where
  "ids t = map row_id t"

definition distinct_ids :: "table \<Rightarrow> bool" where
  "distinct_ids t \<longleftrightarrow> distinct (ids t)"

lemma get_message_SomeD: "get_message t i = Some r \<Longrightarrow> r \<in> set t \<and> row_id r = i"
  by (auto simp: get_message_def find_split)

lemma get_message_None_iff: "get_message t i = None \<longleftrightarrow> i \<notin> set (ids t)"
  by (auto simp: get_message_def find_None_iff ids_def)

lemma get_message_Cons [simp]:
  "get_message (r # t) i = (if row_id r = i then Some r else get_message t i)"
  by (simp add: get_message_def)

lemma get_message_Nil [simp]: "get_message [] i = None"
  by (simp add: get_message_def)

lemma get_message_append:
  "get_message (t @ u) i = (case get_message t i of Some r \<Rightarrow> Some r | None \<Rightarrow> get_message u i)"
  by (induction t) auto

lemma get_message_member: "distinct_ids t \<Longrightarrow> r \<in> set t \<Longrightarrow> get_message t (row_id r) = Some r"
  by (induction t) (auto simp: distinct_ids_def ids_def)

text \<open>A change of rows that keeps their keys changes what is found by the change.\<close>

lemma get_message_map:
  "(\<And>r. row_id (f r) = row_id r) \<Longrightarrow> get_message (map f t) i = map_option f (get_message t i)"
  by (induction t) auto

lemma get_message_update:
  assumes "\<And>r. row_id (f r) = row_id r"
  shows "get_message (update_row j f t) i =
    (if i = j then map_option f (get_message t i) else get_message t i)"
proof -
  have "get_message (update_row j f t) i = map_option (\<lambda>r. if row_id r = j then f r else r) (get_message t i)"
    unfolding update_row_def using assms by (intro get_message_map) auto
  then show ?thesis by (cases "get_message t i") (auto dest: get_message_SomeD)
qed

lemma ids_update: "(\<And>r. row_id (f r) = row_id r) \<Longrightarrow> ids (update_row j f t) = ids t"
  by (auto simp: ids_def update_row_def)

lemma ids_marks [simp]:
  "ids (mark_processing i now t) = ids t" "ids (mark_sent i now t) = ids t"
  "ids (mark_retry i err d now t) = ids t" "ids (mark_failed i err now t) = ids t"
  by (simp_all add: mark_defs ids_update)

lemma ids_claim [simp]: "ids (snd (claim_row i now t)) = ids t"
  by (auto simp: claim_row_def ids_def)

lemma distinct_ids_same: "ids t' = ids t \<Longrightarrow> distinct_ids t' = distinct_ids t"
  by (simp add: distinct_ids_def)

lemma claimed_count:
  assumes "distinct_ids t"
  shows "fst (claim_row i now t) =
    (case get_message t i of Some r \<Rightarrow> if is_pending r then 1 else 0 | None \<Rightarrow> 0)"
proof -
  have none: "i \<notin> set (ids t) \<Longrightarrow> filter (\<lambda>r. row_id r = i \<and> is_pending r) t = []" for t
    by (auto simp: filter_empty_conv ids_def)
  have "length (filter (\<lambda>r. row_id r = i \<and> is_pending r) t) =
      (case get_message t i of Some r \<Rightarrow> if is_pending r then 1 else 0 | None \<Rightarrow> 0)"
    using assms
  proof (induction t)
    case (Cons r t)
    then have "distinct_ids t" by (simp add: distinct_ids_def ids_def)
    moreover have "row_id r \<notin> set (ids t)" using Cons.prems by (simp add: distinct_ids_def ids_def)
    ultimately show ?case using Cons.IH none [of t] by auto
  qed simp
  then show ?thesis by (simp add: claim_row_def)
qed

definition claimed :: "time \<Rightarrow> message_row \<Rightarrow> message_row" where
  "claimed now r = r\<lparr>row_status := PROCESSING, attempts := attempts r + 1, updated_at := now\<rparr>"

lemma get_message_claim:
  "get_message (snd (claim_row i now t)) j =
    (if j = i then map_option (\<lambda>r. if is_pending r then claimed now r else r) (get_message t j)
     else get_message t j)"
proof -
  have "get_message (snd (claim_row i now t)) j =
      map_option (\<lambda>r. if row_id r = i \<and> is_pending r then claimed now r else r) (get_message t j)"
    unfolding claim_row_def claimed_def snd_conv by (rule get_message_map) simp
  then show ?thesis by (cases "get_message t j") (auto dest: get_message_SomeD)
qed

interpretation messages: work_queue get_message is_pending "\<lambda>k. claim_row k now" "claimed now" distinct_ids
  for now
proof
  fix t k j r
  show "distinct_ids t \<Longrightarrow> fst (claim_row k now t) =
      (case get_message t k of Some r \<Rightarrow> if is_pending r then 1 else 0 | None \<Rightarrow> 0)"
    by (rule claimed_count)
  show "get_message (snd (claim_row k now t)) j =
      (if j = k then map_option (\<lambda>r. if is_pending r then claimed now r else r) (get_message t j)
       else get_message t j)"
    by (rule get_message_claim)
  show "distinct_ids (snd (claim_row k now t)) = distinct_ids t"
    by (rule distinct_ids_same [OF ids_claim])
  show "\<not> is_pending (claimed now r)"
    by (simp add: claimed_def is_pending_def)
qed

lemma select_next_due:
  assumes "select_next now t = Some r"
  shows "r \<in> set t \<and> is_due now r \<and> (\<forall>r'\<in>set t. is_due now r' \<longrightarrow> created_at r \<le> created_at r')"
proof -
  obtain rs where rs: "sort_key created_at (filter (is_due now) t) = r # rs"
    using assms by (cases "sort_key created_at (filter (is_due now) t)")
      (auto simp: select_next_def pending_messages_def)
  then have "set (r # rs) = set (filter (is_due now) t)" by (metis set_sort)
  moreover have "sorted (map created_at (r # rs))" using rs sorted_sort_key by metis
  ultimately show ?thesis by auto
qed

lemma select_next_None: "select_next now t = None \<longleftrightarrow> (\<forall>r\<in>set t. \<not> is_due now r)"
proof -
  have "sort_key created_at (filter (is_due now) t) = [] \<longleftrightarrow> filter (is_due now) t = []"
    by (metis length_0_conv length_sort)
  then show ?thesis
    by (cases "sort_key created_at (filter (is_due now) t)")
      (auto simp: select_next_def pending_messages_def filter_empty_conv)
qed

text \<open>One row takes a new value, every other is kept.\<close>

definition row_changed :: "table \<Rightarrow> message_row \<Rightarrow> table \<Rightarrow> bool" where
  "row_changed t r' t' \<longleftrightarrow> ids t' = ids t
     \<and> (\<forall>j. get_message t' j = (if j = row_id r' then Some r' else get_message t j))"

lemma row_changed_trans:
  "row_changed t a t1 \<Longrightarrow> row_changed t1 b t2 \<Longrightarrow> row_id a = row_id b \<Longrightarrow> row_changed t b t2"
  by (simp add: row_changed_def)

lemma row_changed_ids: "row_changed t r t' \<Longrightarrow> ids t' = ids t"
  by (simp add: row_changed_def)

lemma row_changed_get: "row_changed t r t' \<Longrightarrow>
    get_message t' j = (if j = row_id r then Some r else get_message t j)"
  by (simp add: row_changed_def)

lemma claim_next_effect:
  assumes "distinct_ids t" "claim_next now now' t = (x, t')"
  shows "case x of
      None \<Rightarrow> t' = t \<and> (\<forall>r\<in>set t. \<not> is_due now r)
    | Some row \<Rightarrow> \<exists>r. select_next now t = Some r \<and> get_message t (row_id r) = Some r \<and> is_pending r
        \<and> row = claimed now' r \<and> row_changed t row t'"
proof (cases "select_next now t")
  case None
  then have "x = None" "t' = t" using assms(2) by (simp_all add: claim_next_def)
  moreover have "\<forall>r\<in>set t. \<not> is_due now r" using None select_next_None by blast
  ultimately show ?thesis by simp
next
  case (Some r)
  then have r: "r \<in> set t" "is_pending r" using select_next_due [OF Some] by (simp_all add: is_due_def)
  then have get: "get_message t (row_id r) = Some r" using assms(1) get_message_member by blast
  obtain n t1 where cl: "claim_row (row_id r) now' t = (n, t1)" by fastforce
  with get r(2) messages.claim_wins_iff [OF assms(1), of "row_id r" now'] have n: "n = 1" by simp
  have "ids t1 = ids t" using ids_claim [of "row_id r" now' t] cl by simp
  moreover have "get_message t1 j = (if j = row_id r then Some (claimed now' r) else get_message t j)" for j
    using get_message_claim [of "row_id r" now' t j] cl get r(2) by simp
  ultimately have "row_changed t (claimed now' r) t1" by (simp add: row_changed_def claimed_def)
  moreover have "get_message t1 (row_id r) = Some (claimed now' r)"
    using get_message_claim [of "row_id r" now' t "row_id r"] cl get r(2) by simp
  then have "x = Some (claimed now' r)" "t' = t1"
    using assms(2) Some cl n by (simp_all add: claim_next_def)
  ultimately show ?thesis using Some get r(2) by simp
qed

lemma those_json_string: "those (map json_string (map JStr ss)) = Some ss"
  by (induction ss) (simp_all add: json_string_def)

lemma insert_message_InrD:
  assumes "insert_message C box nonce uuid now m t = Inr (row, t')"
  obtains enc where "encrypt C nonce box (nm_password m) = Inr enc" "t' = t @ [row]" "bindable m"
    "get_message t (row_id row) = None" "row_status row = QUEUED" "attempts row = 0"
    "row_password_enc row = Some enc" "mime_payload row = Some (b64encode (nm_mime m))"
    "row_recipients row = dumps_default (JList (map JStr (nm_recipients m)))"
    "row_sender row = nm_sender m" "row_username row = Some (nm_username m)"
    "row_id row = new_message_id uuid" "next_retry_at row = Some now" "created_at row = now"
  using assms by (auto simp: insert_message_def bindE_Inr_iff Let_def split: if_splits)

lemma b64_ascii: "\<exists>raw. ascii_encode (b64encode bs) = Inr raw"
proof -
  have "c < 128" if "c \<in> set (b64encode bs)" for c
    using b64encode_chars [OF that] by (auto simp: b64_char_def)
  then show ?thesis by (simp add: ascii_encode_def list_all_iff)
qed

lemma b64encode_Nil_iff: "b64encode bs = [] \<longleftrightarrow> bs = []"
  by (simp add: b64encode_def of_bytes_def b64_text_eq_Nil)

lemma get_mime_inserted:
  assumes "mime_payload row = Some (b64encode bs)"
  shows "get_mime_bytes row = Inr bs"
proof -
  obtain raw where "ascii_encode (b64encode bs) = Inr raw" using b64_ascii by blast
  then show ?thesis
    using assms b64_roundtrip [of bs] by (simp add: get_mime_bytes_def b64encode_Nil_iff)
qed

lemma row_rcpts_dumps:
  assumes "list_all (list_all is_scalar) xs" "row_recipients row = dumps_default (JList (map JStr xs))"
  shows "row_rcpts row = Inr xs"
proof -
  have "loads (dumps_default (JList (map JStr xs))) = Some (JList (map JStr xs))"
    using wf_json_strs [OF assms(1)] by (intro loads_dumps) simp_all
  then show ?thesis using assms(2) those_json_string [of xs]
    by (simp add: row_rcpts_def json_strings_def del: dumps.simps map_map)
qed

lemma inserted_row:
  assumes "aead_law C" "length nonce = 12" "list_all (list_all is_scalar) (nm_recipients m)"
    and "insert_message C box nonce uuid now m t = Inr (row, t')"
  shows "get_message t' (new_message_id uuid) = Some row \<and> row_status row = QUEUED \<and> attempts row = 0
    \<and> get_password C box row = Inr (nm_password m) \<and> get_mime_bytes row = Inr (nm_mime m)
    \<and> row_rcpts row = Inr (nm_recipients m)
    \<and> (\<forall>i. i = new_message_id uuid \<or> get_message t' i = get_message t i)"
  using assms(4)
proof (cases rule: insert_message_InrD)
  case (1 enc)
  have "get_password C box row = Inr (nm_password m)"
    using decrypt_encrypt [OF assms(1,2) 1(1)] encrypt_eq_Nil_iff [OF 1(1) assms(2)] 1
    by (auto simp: get_password_def)
  moreover have "get_mime_bytes row = Inr (nm_mime m)"
    using 1 by (intro get_mime_inserted)
  moreover have "row_rcpts row = Inr (nm_recipients m)"
    using 1 assms(3) by (intro row_rcpts_dumps)
  ultimately show ?thesis using 1 by (auto simp: get_message_append split: option.split)
qed

text \<open>
  C23. What is put into the queue can be taken out of it: the row of an accepted message is
  found under its identifier, queued, with no attempt made, and its password, its MIME bytes
  and its recipients are read back as they were given; every other row stays as it was.
\<close>

theorem queued_message_roundtrip:
  assumes "aead_law C" "length nonce = 12" "list_all (list_all is_scalar) (nm_recipients m)"
    and "insert_message C box nonce uuid now m t = Inr (row, t')"
  shows "get_message t' (new_message_id uuid) = Some row \<and> row_status row = QUEUED \<and> attempts row = 0
    \<and> get_password C box row = Inr (nm_password m) \<and> get_mime_bytes row = Inr (nm_mime m)
    \<and> row_rcpts row = Inr (nm_recipients m)
    \<and> (\<forall>i. i = new_message_id uuid \<or> get_message t' i = get_message t i)"
  by (rule inserted_row [OF assms])

text \<open>A message at which the statements about the queue are evaluated.\<close>

definition toy_message_in :: new_message where
  "toy_message_in = \<lparr>nm_client_ip = lit ''10.0.0.1'', nm_raw_user = [], nm_sanitized_user = lit ''u'',
     nm_sender = lit ''a@example.com'', nm_recipients = [lit ''b@example.com''], nm_subject = lit ''hi'',
     nm_mime = [65, 66], nm_username = lit ''u'', nm_password = lit ''pw''\<rparr>"

lemma insert_fresh:
  assumes "list_all is_scalar (nm_password m)" "bindable m" "get_message t (new_message_id uuid) = None"
  shows "\<exists>row. insert_message C box nonce uuid now m t = Inr (row, t @ [row])"
  using encrypt_Inr [OF assms(1), of C nonce box] assms(2,3) by (auto simp: insert_message_def Let_def)

lemma toy_message_scalar [simp]: "list_all is_scalar (nm_password toy_message_in)"
    "list_all (list_all is_scalar) (nm_recipients toy_message_in)" "bindable toy_message_in"
  by (simp_all add: toy_message_in_def lit_def is_scalar_def bindable_def)

lemma toy_message_fields [simp]: "nm_password toy_message_in = lit ''pw''"
    "nm_mime toy_message_in = [65, 66]"
  by (simp_all add: toy_message_in_def)

theorem queued_message_roundtrip_witness:
  "\<exists>row. insert_message toy_crypto \<lparr>box_key = []\<rparr> (replicate 12 1) (lit ''0123456789abcdef'') 5
       toy_message_in [] = Inr (row, [row])
     \<and> get_password toy_crypto \<lparr>box_key = []\<rparr> row = Inr (lit ''pw'') \<and> get_mime_bytes row = Inr [65, 66]"
proof -
  obtain row where ins: "insert_message toy_crypto \<lparr>box_key = []\<rparr> (replicate 12 1)
      (lit ''0123456789abcdef'') 5 toy_message_in [] = Inr (row, [row])"
    using insert_fresh [OF toy_message_scalar(1,3), of "[]"] by (metis append_Nil get_message_Nil)
  have "aead_law toy_crypto" "length (replicate 12 1 :: bytes) = 12"
    "list_all (list_all is_scalar) (nm_recipients toy_message_in)" by simp_all
  from queued_message_roundtrip [OF this ins] ins show ?thesis by (metis toy_message_fields)
qed

end
