(* ===== verification/Metrics.thy ===== *)
theory Metrics
  imports Py_Prelude
begin

section \<open>Metrics (observability/metrics.py)\<close>

text \<open>
  \<open>MetricsRegistry\<close> as a record, its methods as functions; each runs under the registry's
  lock. Counters are integers, latencies rationals (milliseconds); the clock is an argument.
  A sequence of calls is a list of \<open>metric_call\<close>, against which the counters are stated.
\<close>

record metrics =
  messages_sent :: int
  messages_failed :: int
  messages_retried :: int
  smtp_connections :: int
  smtp_deferred :: int
  auth_failures :: int
  queue_pending :: int
  in_flight :: int
  send_latency_ms_sum :: rat
  send_latency_ms_count :: int
  send_latency_ms_max :: rat
  backend_up :: int
  circuit_open :: int
  metrics_start :: secs

definition new_metrics :: "secs \<Rightarrow> metrics" where
  "new_metrics now = \<lparr>messages_sent = 0, messages_failed = 0, messages_retried = 0,
     smtp_connections = 0, smtp_deferred = 0, auth_failures = 0, queue_pending = 0, in_flight = 0,
     send_latency_ms_sum = 0, send_latency_ms_count = 0, send_latency_ms_max = 0, backend_up = 1,
     circuit_open = 0, metrics_start = now\<rparr>"

definition inc_sent :: "metrics \<Rightarrow> metrics" where
  "inc_sent m = m\<lparr>messages_sent := messages_sent m + 1\<rparr>"

definition inc_failed :: "metrics \<Rightarrow> metrics" where
  "inc_failed m = m\<lparr>messages_failed := messages_failed m + 1\<rparr>"

definition inc_retried :: "metrics \<Rightarrow> metrics" where
  "inc_retried m = m\<lparr>messages_retried := messages_retried m + 1\<rparr>"

definition inc_auth_failure :: "metrics \<Rightarrow> metrics" where
  "inc_auth_failure m = m\<lparr>auth_failures := auth_failures m + 1\<rparr>"

definition inc_smtp_deferred :: "metrics \<Rightarrow> metrics" where
  "inc_smtp_deferred m = m\<lparr>smtp_deferred := smtp_deferred m + 1\<rparr>"

definition set_in_flight :: "int \<Rightarrow> metrics \<Rightarrow> metrics" where
  "set_in_flight n m = m\<lparr>in_flight := max 0 n\<rparr>"

definition inc_in_flight :: "metrics \<Rightarrow> metrics" where
  "inc_in_flight m = m\<lparr>in_flight := in_flight m + 1\<rparr>"

definition dec_in_flight :: "metrics \<Rightarrow> metrics" where
  "dec_in_flight m = m\<lparr>in_flight := max 0 (in_flight m - 1)\<rparr>"

definition observe_send_latency_ms :: "rat \<Rightarrow> metrics \<Rightarrow> metrics" where
  "observe_send_latency_ms ms m =
     (let m1 = m\<lparr>send_latency_ms_sum := send_latency_ms_sum m + max 0 ms,
                 send_latency_ms_count := send_latency_ms_count m + 1\<rparr>
      in if send_latency_ms_max m1 < ms then m1\<lparr>send_latency_ms_max := ms\<rparr> else m1)"

definition set_queue_pending :: "int \<Rightarrow> metrics \<Rightarrow> metrics" where
  "set_queue_pending n m = m\<lparr>queue_pending := n\<rparr>"

definition set_backend_up :: "bool \<Rightarrow> metrics \<Rightarrow> metrics" where
  "set_backend_up ok m = m\<lparr>backend_up := (if ok then 1 else 0)\<rparr>"

definition set_circuit_open :: "bool \<Rightarrow> metrics \<Rightarrow> metrics" where
  "set_circuit_open op m = m\<lparr>circuit_open := (if op then 1 else 0)\<rparr>"

definition metrics_on_event :: "pystr \<Rightarrow> metrics \<Rightarrow> metrics" where
  "metrics_on_event kind m =
     (if kind = lit ''auth.fail'' then inc_auth_failure m
      else if kind = lit ''queue.sent'' then inc_sent m
      else if kind = lit ''queue.failed'' then inc_failed m
      else if kind = lit ''queue.retry'' then inc_retried m
      else m)"

lemmas metrics_defs [step_defs] =
  inc_sent_def inc_failed_def inc_retried_def inc_auth_failure_def inc_smtp_deferred_def
  set_in_flight_def inc_in_flight_def dec_in_flight_def observe_send_latency_ms_def
  set_queue_pending_def set_backend_up_def set_circuit_open_def metrics_on_event_def

subsection \<open>Export\<close>

definition latency_avg :: "metrics \<Rightarrow> rat" where
  "latency_avg m = (if send_latency_ms_count m \<noteq> 0
     then send_latency_ms_sum m / of_int (send_latency_ms_count m) else 0)"

definition snapshot :: "secs \<Rightarrow> metrics \<Rightarrow> rat dict" where
  "snapshot now m =
     [(lit ''messages_sent'', of_int (messages_sent m)),
      (lit ''messages_failed'', of_int (messages_failed m)),
      (lit ''messages_retried'', of_int (messages_retried m)),
      (lit ''auth_failures'', of_int (auth_failures m)),
      (lit ''smtp_deferred'', of_int (smtp_deferred m)),
      (lit ''queue_pending'', of_int (queue_pending m)),
      (lit ''in_flight'', of_int (in_flight m)),
      (lit ''send_latency_ms_avg'', latency_avg m),
      (lit ''send_latency_ms_max'', send_latency_ms_max m),
      (lit ''backend_up'', of_int (backend_up m)),
      (lit ''circuit_open'', of_int (circuit_open m)),
      (lit ''uptime_seconds'', now - metrics_start m)]"

text \<open>\<open>f''{x:.3f}''\<close>\<close>

definition pad3 :: "pystr \<Rightarrow> pystr" where
  "pad3 s = replicate (3 - length s) 48 @ s"

definition fmt3 :: "rat \<Rightarrow> pystr" where
  "fmt3 x =
     (let n = round_half_even (x * 1000); a = \<bar>n\<bar>
      in (if x < 0 then [45] else []) @ str_int (a div 1000) @ 46 # pad3 (str_int (a mod 1000)))"

definition metric_lines :: "string \<Rightarrow> string \<Rightarrow> string \<Rightarrow> pystr \<Rightarrow> pystr list" where
  "metric_lines name help kind value =
     [lit ''# HELP '' @ lit name @ lit '' '' @ lit help,
      lit ''# TYPE '' @ lit name @ lit '' '' @ lit kind,
      lit name @ lit '' '' @ value]"

definition prometheus_text :: "secs \<Rightarrow> metrics \<Rightarrow> pystr" where
  "prometheus_text now m =
     (let snap = (\<lambda>k. the (map_of (snapshot now m) (lit k)))
      in join_with [10] (concat
        [metric_lines ''msgate_messages_sent_total'' ''Messages delivered successfully'' ''counter''
           (fmt0 (snap ''messages_sent'')),
         metric_lines ''msgate_messages_failed_total'' ''Messages permanently failed'' ''counter''
           (fmt0 (snap ''messages_failed'')),
         metric_lines ''msgate_messages_retried_total'' ''Queue retry attempts'' ''counter''
           (fmt0 (snap ''messages_retried'')),
         metric_lines ''msgate_auth_failures_total'' ''SMTP authentication failures'' ''counter''
           (fmt0 (snap ''auth_failures'')),
         metric_lines ''msgate_smtp_deferred_total''
           ''SMTP 4xx deferrals (queue full / circuit)'' ''counter'' (fmt0 (snap ''smtp_deferred'')),
         metric_lines ''msgate_queue_pending'' ''Pending queue messages'' ''gauge''
           (fmt0 (snap ''queue_pending'')),
         metric_lines ''msgate_in_flight'' ''Messages currently being sent'' ''gauge''
           (fmt0 (snap ''in_flight'')),
         metric_lines ''msgate_send_latency_ms_avg'' ''Average EWS send latency'' ''gauge''
           (fmt3 (snap ''send_latency_ms_avg'')),
         metric_lines ''msgate_send_latency_ms_max'' ''Max EWS send latency'' ''gauge''
           (fmt3 (snap ''send_latency_ms_max'')),
         metric_lines ''msgate_backend_up'' ''Active mail backend health (1=ok)'' ''gauge''
           (fmt0 (snap ''backend_up'')),
         metric_lines ''msgate_circuit_open'' ''Outbound circuit breaker open (1=open)'' ''gauge''
           (fmt0 (snap ''circuit_open'')),
         metric_lines ''msgate_uptime_seconds'' ''Process uptime'' ''gauge''
           (fmt3 (snap ''uptime_seconds''))]) @ [10])"

subsection \<open>Calls\<close>

datatype metric_call =
    Event pystr | Deferred | Start_Send | End_Send | Latency rat | Pending int | Backend bool
  | Circuit bool

fun metric_step :: "metric_call \<Rightarrow> metrics \<Rightarrow> metrics" where
  "metric_step (Event kind) m = metrics_on_event kind m"
| "metric_step Deferred m = inc_smtp_deferred m"
| "metric_step Start_Send m = inc_in_flight m"
| "metric_step End_Send m = dec_in_flight m"
| "metric_step (Latency ms) m = observe_send_latency_ms ms m"
| "metric_step (Pending n) m = set_queue_pending n m"
| "metric_step (Backend ok) m = set_backend_up ok m"
| "metric_step (Circuit op) m = set_circuit_open op m"

definition run_metrics :: "metric_call list \<Rightarrow> metrics \<Rightarrow> metrics" where
  "run_metrics calls m = fold metric_step calls m"

text \<open>Sends that began and have not ended, in a trace where none ends before it began.\<close>

fun balanced :: "int \<Rightarrow> metric_call list \<Rightarrow> bool" where
  "balanced n [] = True"
| "balanced n (Start_Send # cs) = balanced (n + 1) cs"
| "balanced n (End_Send # cs) = (1 \<le> n \<and> balanced (n - 1) cs)"
| "balanced n (_ # cs) = balanced n cs"

definition calls_of :: "metric_call \<Rightarrow> metric_call list \<Rightarrow> int" where
  "calls_of c calls = int (length (filter (\<lambda>x. x = c) calls))"

lemma calls_of_simps [simp]:
  "calls_of c [] = 0"
  "calls_of c (x # xs) = (if x = c then 1 else 0) + calls_of c xs"
  by (simp_all add: calls_of_def)

lemma run_metrics_simps [simp]:
  "run_metrics [] m = m" "run_metrics (c # cs) m = run_metrics cs (metric_step c m)"
  by (simp_all add: run_metrics_def)

lemma counters_step:
  "messages_sent (metric_step c m) = messages_sent m + (if c = Event (lit ''queue.sent'') then 1 else 0)"
  "messages_failed (metric_step c m) = messages_failed m + (if c = Event (lit ''queue.failed'') then 1 else 0)"
  "messages_retried (metric_step c m) = messages_retried m + (if c = Event (lit ''queue.retry'') then 1 else 0)"
  "auth_failures (metric_step c m) = auth_failures m + (if c = Event (lit ''auth.fail'') then 1 else 0)"
  "smtp_deferred (metric_step c m) = smtp_deferred m + (if c = Deferred then 1 else 0)"
  by (cases c; auto simp: metrics_defs Let_def)+

lemma counters_run:
  "messages_sent (run_metrics calls m) = messages_sent m + calls_of (Event (lit ''queue.sent'')) calls
   \<and> messages_failed (run_metrics calls m) = messages_failed m + calls_of (Event (lit ''queue.failed'')) calls
   \<and> messages_retried (run_metrics calls m) = messages_retried m + calls_of (Event (lit ''queue.retry'')) calls
   \<and> auth_failures (run_metrics calls m) = auth_failures m + calls_of (Event (lit ''auth.fail'')) calls
   \<and> smtp_deferred (run_metrics calls m) = smtp_deferred m + calls_of Deferred calls"
  by (induction calls arbitrary: m) (simp_all add: counters_step)

lemma in_flight_run:
  "balanced (in_flight m) calls \<Longrightarrow>
   in_flight (run_metrics calls m) = in_flight m + calls_of Start_Send calls - calls_of End_Send calls"
proof (induction calls arbitrary: m)
  case (Cons c cs)
  then show ?case by (cases c) (auto simp: metrics_defs Let_def)
qed simp

text \<open>The invariant of the latency fields.\<close>

definition latency_ok :: "metrics \<Rightarrow> bool" where
  "latency_ok m \<longleftrightarrow> 0 \<le> send_latency_ms_count m \<and> 0 \<le> send_latency_ms_max m
     \<and> 0 \<le> send_latency_ms_sum m
     \<and> send_latency_ms_sum m \<le> of_int (send_latency_ms_count m) * send_latency_ms_max m"

lemma latency_ok_observe:
  assumes "latency_ok m"
  shows "latency_ok (observe_send_latency_ms ms m)"
proof -
  define c where "c = (of_int (send_latency_ms_count m) :: rat)"
  define M where "M = max (send_latency_ms_max m) ms"
  have c: "0 \<le> c" using assms by (simp add: c_def latency_ok_def)
  have "send_latency_ms_sum m \<le> c * send_latency_ms_max m"
    using assms by (simp add: c_def latency_ok_def)
  also have "\<dots> \<le> c * M" using c by (intro mult_left_mono) (simp_all add: M_def)
  finally have s: "send_latency_ms_sum m \<le> c * M" .
  have "max 0 ms \<le> M" using assms by (auto simp: M_def latency_ok_def)
  with s have "send_latency_ms_sum m + max 0 ms \<le> (c + 1) * M" unfolding distrib_right mult_1 by (rule add_mono)
  then show ?thesis
    using assms
    by (auto simp: observe_send_latency_ms_def Let_def latency_ok_def c_def M_def max_def split: if_splits)
qed

lemma latency_ok_step [keep_inv]: "latency_ok m \<Longrightarrow> latency_ok (metric_step c m)"
  by (cases c) (auto intro: latency_ok_observe, auto simp: latency_ok_def metrics_defs)

lemma latency_ok_run: "latency_ok m \<Longrightarrow> latency_ok (run_metrics calls m)"
  by (induction calls arbitrary: m) (auto intro: keep_inv)

lemma latency_avg_bounds: "latency_ok m \<Longrightarrow> 0 \<le> latency_avg m \<and> latency_avg m \<le> send_latency_ms_max m"
  by (auto simp: latency_ok_def latency_avg_def divide_le_eq mult.commute less_le)

text \<open>
  The exported metrics are what happened: after any calls on a fresh registry every
  counter is the number of its events, sends in flight are those that began less those that
  ended (where none ends that did not begin), and the average latency lies between zero and the
  maximum.
\<close>

lemma metrics_count_events:
  assumes "balanced 0 calls"
  shows "let snap = map_of (snapshot now (run_metrics calls (new_metrics start))) in
      snap (lit ''messages_sent'') = Some (of_int (calls_of (Event (lit ''queue.sent'')) calls))
    \<and> snap (lit ''messages_failed'') = Some (of_int (calls_of (Event (lit ''queue.failed'')) calls))
    \<and> snap (lit ''messages_retried'') = Some (of_int (calls_of (Event (lit ''queue.retry'')) calls))
    \<and> snap (lit ''auth_failures'') = Some (of_int (calls_of (Event (lit ''auth.fail'')) calls))
    \<and> snap (lit ''smtp_deferred'') = Some (of_int (calls_of Deferred calls))
    \<and> snap (lit ''in_flight'') = Some (of_int (calls_of Start_Send calls - calls_of End_Send calls))
    \<and> 0 \<le> the (snap (lit ''send_latency_ms_avg''))
    \<and> the (snap (lit ''send_latency_ms_avg'')) \<le> the (snap (lit ''send_latency_ms_max''))"
proof -
  let ?m = "run_metrics calls (new_metrics start)"
  have "latency_ok (new_metrics start)" by (simp add: latency_ok_def new_metrics_def)
  from latency_avg_bounds [OF latency_ok_run [OF this]]
  have "0 \<le> latency_avg ?m \<and> latency_avg ?m \<le> send_latency_ms_max ?m" .
  moreover have "in_flight ?m = calls_of Start_Send calls - calls_of End_Send calls"
    using in_flight_run [of "new_metrics start" calls] assms by (simp add: new_metrics_def)
  ultimately show ?thesis
    by (simp add: snapshot_def counters_run) (simp add: new_metrics_def)
qed

lemma metrics_count_events_witness:
  "map_of (snapshot 7 (run_metrics [Start_Send, Event (lit ''queue.sent''), End_Send, Start_Send]
      (new_metrics 2))) (lit ''in_flight'') = Some 1"
  using metrics_count_events [of "[Start_Send, Event (lit ''queue.sent''), End_Send, Start_Send]" 7 2]
  by (simp add: Let_def)

end
