(* ===== verification/Event_Hub.thy ===== *)
theory Event_Hub
  imports Metrics Json_Text
begin

section \<open>Live events and webhooks (events/hub.py, observability/webhooks.py)\<close>

text \<open>
  \<open>EventHub\<close> keeps the last 200 events, counts authentication failures, feeds the metrics
  and the webhooks, and puts every event on the queue of every subscriber, dropping a
  subscriber whose queue of 256 is full. A subscriber is a number; \<open>sub_got\<close>, what its reader
  has taken off the queue, is kept for the statements, as is \<open>hub_all\<close>, all events published.
  A publication is one atomic step, and so is a subscription. A webhook is the pair of address
  and body a thread is started with.
\<close>

record traffic_event =
  ev_kind :: pystr
  ev_message :: pystr
  ev_data :: "json dict"
  ev_ts :: pystr

definition event_json :: "traffic_event \<Rightarrow> pystr" where
  "event_json e = dumps_default (JObj
     [(lit ''kind'', JStr (ev_kind e)), (lit ''message'', JStr (ev_message e)),
      (lit ''data'', JObj (ev_data e)), (lit ''ts'', JStr (ev_ts e))])"

subsection \<open>Webhooks\<close>

type_synonym webhook_post = "pystr \<times> bytes"

definition webhook_urls_from_env :: "environ \<Rightarrow> pystr list" where
  "webhook_urls_from_env env =
     filter (\<lambda>u. u \<noteq> []) (map strip (split_at 44 (or_empty (env (lit ''MSGATE_WEBHOOK_URLS'')))))"

definition webhooks_enabled :: "pystr list \<Rightarrow> bool" where
  "webhooks_enabled urls \<longleftrightarrow> urls \<noteq> []"

text \<open>\<open>json.dumps\<close> gives ASCII, whose UTF-8 encoding has one byte per character.\<close>

definition webhook_notify :: "pystr list \<Rightarrow> pystr \<Rightarrow> pystr \<Rightarrow> json dict \<Rightarrow> webhook_post list" where
  "webhook_notify urls kind message data =
     (let body = to_bytes (dumps_default (JObj
            [(lit ''source'', JStr (lit ''msgate'')), (lit ''kind'', JStr kind),
             (lit ''message'', JStr message), (lit ''data'', JObj data)]))
      in map (\<lambda>url. (url, body)) urls)"

definition webhook_on_event :: "pystr list \<Rightarrow> pystr \<Rightarrow> pystr \<Rightarrow> json dict \<Rightarrow> webhook_post list" where
  "webhook_on_event urls kind message data =
     (if startswith kind (lit ''queue.'') \<or> kind \<in> {lit ''ews.health'', lit ''backend.health''}
      then webhook_notify urls kind message data else [])"

text \<open>
  The thread of a webhook: one POST, and a log line when it fails; another exception than
  \<open>URLError\<close>, as for an address without a scheme, ends the thread. What \<open>urlopen\<close> does is an argument.
\<close>

record http_request =
  rq_url :: pystr
  rq_data :: bytes
  rq_headers :: "pystr dict"
  rq_method :: pystr

datatype http_answer = Answered int | Url_Error pystr | Http_Raises exn

definition post_webhook :: "(http_request \<Rightarrow> http_answer) \<Rightarrow> webhook_post \<Rightarrow> pystr option res" where
  "post_webhook urlopen p =
     (case urlopen \<lparr>rq_url = fst p, rq_data = snd p,
          rq_headers = [(lit ''Content-Type'', lit ''application/json'')], rq_method = lit ''POST''\<rparr> of
        Answered status \<Rightarrow> Inr (if 400 \<le> status
          then Some (lit ''webhook '' @ fst p @ lit '' returned '' @ str_int status) else None)
      | Url_Error e \<Rightarrow> Inr (Some (lit ''webhook '' @ fst p @ lit '' failed: '' @ e))
      | Http_Raises e \<Rightarrow> Inl e)"

subsection \<open>The hub\<close>

record subscriber =
  sub_queue :: "pystr list"
  sub_got :: "pystr list"
  sub_from :: nat

record event_hub =
  hub_history :: "traffic_event list"
  hub_subs :: "(nat \<times> subscriber) list"
  auth_errors_24h :: int
  hub_metrics :: "metrics option"
  hub_webhooks :: "pystr list option"
  hub_posts :: "webhook_post list"
  hub_all :: "traffic_event list"

definition history_size :: nat where "history_size = 200"
definition queue_size :: nat where "queue_size = 256"

definition new_hub :: "metrics option \<Rightarrow> pystr list option \<Rightarrow> event_hub" where
  "new_hub ms hooks = \<lparr>hub_history = [], hub_subs = [], auth_errors_24h = 0, hub_metrics = ms,
     hub_webhooks = hooks, hub_posts = [], hub_all = []\<rparr>"

definition deque_append :: "nat \<Rightarrow> 'a \<Rightarrow> 'a list \<Rightarrow> 'a list" where
  "deque_append n x xs = (let ys = xs @ [x] in drop (length ys - n) ys)"

text \<open>\<open>put_nowait\<close> on every queue; a full queue makes its subscriber a dead one.\<close>

definition fan_out :: "pystr \<Rightarrow> (nat \<times> subscriber) list \<Rightarrow> (nat \<times> subscriber) list" where
  "fan_out payload subs =
     map (\<lambda>(i, s). (i, s\<lparr>sub_queue := sub_queue s @ [payload]\<rparr>))
       (filter (\<lambda>(i, s). length (sub_queue s) < queue_size) subs)"

definition publish_sync :: "pystr \<Rightarrow> pystr \<Rightarrow> json dict \<Rightarrow> pystr \<Rightarrow> event_hub \<Rightarrow> event_hub" where
  "publish_sync kind message data ts h =
     (let e = \<lparr>ev_kind = kind, ev_message = message, ev_data = data, ev_ts = ts\<rparr>
      in h\<lparr>hub_history := deque_append history_size e (hub_history h),
           auth_errors_24h := auth_errors_24h h + (if kind = lit ''auth.fail'' then 1 else 0),
           hub_metrics := map_option (metrics_on_event kind) (hub_metrics h),
           hub_posts := hub_posts h @ (case hub_webhooks h of None \<Rightarrow> []
              | Some urls \<Rightarrow> webhook_on_event urls kind message data),
           hub_subs := fan_out (event_json e) (hub_subs h),
           hub_all := hub_all h @ [e]\<rparr>)"

text \<open>A new queue gets the history, which fits in it; \<open>i\<close> is a number not used before.\<close>

definition subscribe :: "nat \<Rightarrow> event_hub \<Rightarrow> event_hub" where
  "subscribe i h = h\<lparr>hub_subs := hub_subs h @
     [(i, \<lparr>sub_queue = map event_json (hub_history h), sub_got = [],
           sub_from = length (hub_all h) - length (hub_history h)\<rparr>)]\<rparr>"

definition unsubscribe :: "nat \<Rightarrow> event_hub \<Rightarrow> event_hub" where
  "unsubscribe i h = h\<lparr>hub_subs := filter (\<lambda>(j, _). j \<noteq> i) (hub_subs h)\<rparr>"

text \<open>The WebSocket handler takes the next payload off its queue (\<open>q.get()\<close>).\<close>

fun take_one :: "subscriber \<Rightarrow> subscriber" where
  "take_one s = (case sub_queue s of [] \<Rightarrow> s
     | p # ps \<Rightarrow> s\<lparr>sub_queue := ps, sub_got := sub_got s @ [p]\<rparr>)"

definition receive :: "nat \<Rightarrow> event_hub \<Rightarrow> event_hub" where
  "receive i h = h\<lparr>hub_subs := map (\<lambda>(j, s). (j, if j = i then take_one s else s)) (hub_subs h)\<rparr>"

inductive hub_step :: "event_hub \<Rightarrow> event_hub \<Rightarrow> bool" where
  Publish: "hub_step h (publish_sync kind message data ts h)"
| Subscribe: "i \<notin> fst ` set (hub_subs h) \<Longrightarrow> hub_step h (subscribe i h)"
| Unsubscribe: "hub_step h (unsubscribe i h)"
| Receive: "hub_step h (receive i h)"

inductive_cases hub_stepE: "hub_step h h'"

inductive hub_reachable :: "event_hub \<Rightarrow> bool" where
  Fresh: "hub_reachable (new_hub ms hooks)"
| More: "hub_reachable h \<Longrightarrow> hub_step h h' \<Longrightarrow> hub_reachable h'"

subsection \<open>The invariant\<close>

definition count_kind :: "pystr \<Rightarrow> traffic_event list \<Rightarrow> int" where
  "count_kind kind es = int (length (filter (\<lambda>e. ev_kind e = kind) es))"

text \<open>What a subscriber got and what waits for it are the events from its first one on.\<close>

definition sub_ok :: "traffic_event list \<Rightarrow> subscriber \<Rightarrow> bool" where
  "sub_ok all s \<longleftrightarrow> sub_got s @ sub_queue s = map event_json (drop (sub_from s) all)
     \<and> length (sub_queue s) \<le> queue_size \<and> sub_from s \<le> length all"

definition hub_ok :: "event_hub \<Rightarrow> bool" where
  "hub_ok h \<longleftrightarrow> hub_history h = drop (length (hub_all h) - history_size) (hub_all h)
     \<and> auth_errors_24h h = count_kind (lit ''auth.fail'') (hub_all h)
     \<and> list_all (\<lambda>(i, s). sub_ok (hub_all h) s) (hub_subs h)"

lemma deque_append_drop:
  "deque_append n x (drop (length xs - n) xs) = drop (length (xs @ [x]) - n) (xs @ [x])"
proof (cases "length xs < n")
  case True
  then show ?thesis by (simp add: deque_append_def)
next
  case False
  then have "Suc (length xs) - n = Suc (length xs - n)" by simp
  moreover have "drop (Suc 0) (drop (length xs - n) xs) = drop (Suc (length xs - n)) xs" by simp
  ultimately show ?thesis
    using False by (cases n) (simp_all add: deque_append_def Let_def)
qed

lemma count_kind_snoc:
  "count_kind k (es @ [e]) = count_kind k es + (if ev_kind e = k then 1 else 0)"
  by (simp add: count_kind_def)

lemma fan_out_ok:
  assumes "list_all (\<lambda>(i, s). sub_ok all s) subs"
  shows "list_all (\<lambda>(i, s). sub_ok (all @ [e]) s) (fan_out (event_json e) subs)"
  using assms by (auto simp: list_all_iff fan_out_def sub_ok_def)

lemma hub_ok_publish [keep_inv]: "hub_ok h \<Longrightarrow> hub_ok (publish_sync kind message data ts h)"
  using fan_out_ok [of "hub_all h" "hub_subs h"]
  by (simp add: hub_ok_def publish_sync_def Let_def deque_append_drop count_kind_snoc del: length_append)

lemma hub_ok_subscribe [keep_inv]: "hub_ok h \<Longrightarrow> hub_ok (subscribe i h)"
  by (auto simp: hub_ok_def subscribe_def sub_ok_def history_size_def queue_size_def list_all_iff)

lemma hub_ok_unsubscribe [keep_inv]: "hub_ok h \<Longrightarrow> hub_ok (unsubscribe i h)"
  by (auto simp: hub_ok_def unsubscribe_def list_all_iff)

lemma take_one_ok: "sub_ok all s \<Longrightarrow> sub_ok all (take_one s)"
  by (auto simp: sub_ok_def split: list.split)

lemma hub_ok_receive [keep_inv]: "hub_ok h \<Longrightarrow> hub_ok (receive i h)"
  by (auto simp: hub_ok_def receive_def list_all_iff take_one_ok simp del: take_one.simps)

lemma hub_ok_reachable: "hub_reachable h \<Longrightarrow> hub_ok h"
proof (induction rule: hub_reachable.induct)
  case Fresh
  show ?case by (simp add: hub_ok_def new_hub_def count_kind_def)
next
  case (More h h')
  then show ?case by (auto elim!: hub_stepE intro: keep_inv)
qed

text \<open>
  In every reachable state of the hub the history is the last 200 events published, the
  counter \<open>auth_errors_24h\<close> is the number of all authentication failures ever published (no
  time window is applied), and every subscriber still registered has received, or has
  waiting in at most 256 places, all events since the start of the history it subscribed to,
  in order and without a gap.
\<close>

lemma hub_delivers_in_order:
  assumes "hub_reachable h"
  shows "hub_history h = drop (length (hub_all h) - 200) (hub_all h)
    \<and> auth_errors_24h h = count_kind (lit ''auth.fail'') (hub_all h)
    \<and> list_all (\<lambda>(i, s). sub_got s @ sub_queue s = map event_json (drop (sub_from s) (hub_all h))
         \<and> length (sub_queue s) \<le> 256) (hub_subs h)"
  using hub_ok_reachable [OF assms]
  by (auto simp: hub_ok_def history_size_def queue_size_def sub_ok_def list_all_iff)

lemma hub_delivers_in_order_witness:
  "let h = publish_sync (lit ''auth.fail'') (lit ''b'') [] [] (subscribe 1
     (publish_sync (lit ''smtp.data'') (lit ''a'') [] [] (new_hub None None)))
   in auth_errors_24h h = 1 \<and> length (hub_history h) = 2"
proof -
  let ?h1 = "publish_sync (lit ''smtp.data'') (lit ''a'') [] [] (new_hub None None)"
  let ?h = "publish_sync (lit ''auth.fail'') (lit ''b'') [] [] (subscribe 1 ?h1)"
  have "1 \<notin> fst ` set (hub_subs ?h1)" by (simp add: publish_sync_def new_hub_def fan_out_def Let_def)
  then have "hub_reachable ?h"
    by (intro More [OF More [OF More [OF Fresh Publish] Subscribe] Publish])
  from hub_delivers_in_order [OF this] show ?thesis
    by (simp add: Let_def) (simp add: publish_sync_def subscribe_def new_hub_def count_kind_def Let_def)
qed

text \<open>
  A slow reader costs only itself: publishing drops exactly the subscribers whose queue
  is full, and every other one gets the event appended and nothing else changed.
\<close>

lemma publish_drops_only_full:
  "hub_subs (publish_sync kind message data ts h) =
     map (\<lambda>(i, s). (i, s\<lparr>sub_queue := sub_queue s @
            [event_json \<lparr>ev_kind = kind, ev_message = message, ev_data = data, ev_ts = ts\<rparr>]\<rparr>))
       (filter (\<lambda>(i, s). length (sub_queue s) < 256) (hub_subs h))
   \<and> (hub_webhooks h = None \<or> (\<exists>urls. hub_webhooks h = Some urls \<and>
        length (hub_posts (publish_sync kind message data ts h)) = length (hub_posts h) +
          (if startswith kind (lit ''queue.'') \<or> kind \<in> {lit ''ews.health'', lit ''backend.health''}
           then length urls else 0)))"
  by (cases "hub_webhooks h")
    (simp_all add: publish_sync_def Let_def fan_out_def queue_size_def webhook_on_event_def
      webhook_notify_def)

end
