(* ===== verification/Queue_Backoff.thy ===== *)
theory Queue_Backoff
  imports Py_Prelude
begin

section \<open>Retry helpers of the queue (queue/backoff.py)\<close>

text \<open>
  Which delivery errors are worth a retry, and how long the queue waits before it. The
  regular expression \<open>\b(429|503|502|504|408)\b\<close> is a scan that carries whether the
  previous character was a word character; \<open>has_code_iff\<close> says what it recognises.
  Above Latin-1, the punctuation (U+2000 to U+206F) and the arrows, mathematical and
  technical signs (U+2190 to U+245F) are no word characters, the rest counts as letters.
\<close>

definition is_word :: "int \<Rightarrow> bool" where
  "is_word c \<longleftrightarrow> is_digit c \<or> 65 \<le> c \<and> c \<le> 90 \<or> c = 95 \<or> 97 \<le> c \<and> c \<le> 122
     \<or> c \<in> {170, 178, 179, 181, 185, 186, 188, 189, 190}
     \<or> 192 \<le> c \<and> c \<noteq> 215 \<and> c \<noteq> 247
        \<and> \<not> (8192 \<le> c \<and> c < 8304) \<and> \<not> (8592 \<le> c \<and> c < 9312)"

definition retriable_codes :: "pystr list" where
  "retriable_codes = map lit [''429'', ''503'', ''502'', ''504'', ''408'']"

definition retriable_words :: "pystr list" where
  "retriable_words = map lit
     [''timeout'', ''timed out'', ''connection'', ''temporarily unavailable'',
      ''service unavailable'', ''rate limit'', ''too many requests'', ''connection reset'',
      ''connection refused'', ''network'', ''unreachable'']"

text \<open>The end of the text, or a character that is no word character, ends a code.\<close>

definition word_end :: "pystr \<Rightarrow> bool" where
  "word_end s \<longleftrightarrow> (case s of [] \<Rightarrow> True | c # _ \<Rightarrow> \<not> is_word c)"

definition code_at :: "pystr \<Rightarrow> bool" where
  "code_at s \<longleftrightarrow> list_ex (\<lambda>code. startswith s code \<and> word_end (drop (length code) s)) retriable_codes"

fun has_code :: "bool \<Rightarrow> pystr \<Rightarrow> bool" where
  "has_code after_word [] = False"
| "has_code after_word (c # cs) =
     ((\<not> after_word \<and> code_at (c # cs)) \<or> has_code (is_word c) cs)"

definition is_retriable_error :: "exn \<Rightarrow> bool" where
  "is_retriable_error e =
     (let text = lower (exn_text e)
      in if has_code False text then True
         else list_ex (\<lambda>word. contains word text) retriable_words)"

text \<open>
  \<open>base * (2 ** (attempts - 1))\<close> multiplies a float by an int; from \<open>2 ** 1024\<close> on the
  int does not convert to a float and Python raises OverflowError.
\<close>

definition backoff_seconds :: "int \<Rightarrow> secs \<Rightarrow> secs \<Rightarrow> secs res" where
  "backoff_seconds attempts base maximum =
     (let n = nat ((if attempts < 1 then 1 else attempts) - 1)
      in if 1024 \<le> n then Inl (Exn OverflowError (lit ''int too large to convert to float''))
         else Inr (min (base * 2 ^ n) maximum))"

text \<open>The two default arguments, which every call of the program uses.\<close>

abbreviation default_backoff :: "int \<Rightarrow> secs res" where
  "default_backoff attempts \<equiv> backoff_seconds attempts 5 300"

subsection \<open>The scan and the regular expression\<close>

text \<open>The code stands at a word boundary: nothing, or no word character, before it.\<close>

definition word_start :: "bool \<Rightarrow> pystr \<Rightarrow> bool" where
  "word_start after_word pre \<longleftrightarrow> (if pre = [] then \<not> after_word else \<not> is_word (last pre))"

definition delimited_code :: "bool \<Rightarrow> pystr \<Rightarrow> bool" where
  "delimited_code after_word s \<longleftrightarrow>
     (\<exists>pre code post. s = pre @ code @ post \<and> code \<in> set retriable_codes
        \<and> word_start after_word pre \<and> word_end post)"

lemma code_at_iff:
  "code_at s \<longleftrightarrow> (\<exists>code post. s = code @ post \<and> code \<in> set retriable_codes \<and> word_end post)"
  by (fastforce simp: code_at_def list_ex_iff startswith_prefix prefix_def)

lemma retriable_code_neq_Nil: "code \<in> set retriable_codes \<Longrightarrow> code \<noteq> []"
  by (auto simp: retriable_codes_def)

lemma delimited_code_Nil [simp]: "\<not> delimited_code b []"
  by (auto simp: delimited_code_def dest: retriable_code_neq_Nil)

lemma delimited_code_Cons:
  "delimited_code b (c # cs) \<longleftrightarrow> (\<not> b \<and> code_at (c # cs)) \<or> delimited_code (is_word c) cs"
  (is "?lhs \<longleftrightarrow> ?here \<or> ?later")
proof
  assume ?lhs
  then obtain pre code post where s: "c # cs = pre @ code @ post"
    and code: "code \<in> set retriable_codes" and st: "word_start b pre" and en: "word_end post"
    by (auto simp: delimited_code_def)
  show "?here \<or> ?later"
  proof (cases pre)
    case Nil
    with s code st en show ?thesis by (auto simp: code_at_iff word_start_def)
  next
    case (Cons p ps)
    with s have "p = c" and "cs = ps @ code @ post" by auto
    moreover have "word_start (is_word c) ps"
      using st Cons \<open>p = c\<close> by (cases ps) (auto simp: word_start_def)
    ultimately show ?thesis using code en by (auto simp: delimited_code_def)
  qed
next
  assume "?here \<or> ?later"
  then show ?lhs
  proof
    assume ?here
    then obtain code post where "c # cs = [] @ code @ post" "code \<in> set retriable_codes"
      "word_end post" "word_start b []"
      by (auto simp: code_at_iff word_start_def)
    then show ?lhs unfolding delimited_code_def by blast
  next
    assume ?later
    then obtain pre code post where "cs = pre @ code @ post" "code \<in> set retriable_codes"
      "word_start (is_word c) pre" "word_end post"
      by (auto simp: delimited_code_def)
    moreover from this have "word_start b (c # pre)"
      by (auto simp: word_start_def)
    ultimately show ?lhs unfolding delimited_code_def by (metis append_Cons)
  qed
qed

lemma has_code_iff: "has_code b s \<longleftrightarrow> delimited_code b s"
  by (induction b s rule: has_code.induct) (simp_all add: delimited_code_Cons)

text \<open>
  An error is retried exactly when its text, in lower case, holds one of the HTTP status
  codes 429, 502, 503, 504, 408 as a word of its own, or one of the transient-error phrases
  anywhere.
\<close>

lemma is_retriable_error_iff:
  "is_retriable_error e \<longleftrightarrow>
     (\<exists>pre code post. lower (exn_text e) = pre @ code @ post \<and> code \<in> set retriable_codes
        \<and> word_start False pre \<and> word_end post)
     \<or> (\<exists>word \<in> set retriable_words. sublist word (lower (exn_text e)))"
proof -
  have "is_retriable_error e \<longleftrightarrow> delimited_code False (lower (exn_text e))
      \<or> (\<exists>word \<in> set retriable_words. sublist word (lower (exn_text e)))"
    by (simp add: is_retriable_error_def Let_def has_code_iff list_ex_iff contains_sublist)
  then show ?thesis unfolding delimited_code_def .
qed

subsection \<open>The schedule\<close>

lemma backoff_Inr:
  "1 \<le> n \<Longrightarrow> n \<le> 1024 \<Longrightarrow> default_backoff n = Inr (min (5 * 2 ^ nat (n - 1)) 300)"
  by (simp add: backoff_seconds_def Let_def)

lemma backoff_range:
  "default_backoff n = Inr d \<Longrightarrow> 5 \<le> d \<and> d \<le> 300"
proof -
  assume "default_backoff n = Inr d"
  then have d: "d = min (5 * 2 ^ nat ((if n < 1 then 1 else n) - 1)) 300"
    by (simp add: backoff_seconds_def Let_def split: if_splits)
  have "(1::rat) \<le> 2 ^ nat ((if n < 1 then 1 else n) - 1)" by simp
  with d show ?thesis by simp
qed

text \<open>
  The retry delay starts at 5 seconds, doubles with every further attempt until the cap
  of 300 seconds, and stays within 5 and 300, for every attempt number up to 1024; the call
  does not raise there.
\<close>

lemma backoff_doubles_to_cap:
  assumes "1 \<le> n" and "n < 1024"
  shows "\<exists>d. default_backoff n = Inr d \<and> default_backoff (n + 1) = Inr (min (2 * d) 300)
     \<and> 5 \<le> d \<and> d \<le> 300 \<and> default_backoff 1 = Inr 5"
proof -
  have "nat n = Suc (nat (n - 1))" using assms by simp
  then have "(2::rat) ^ nat n = 2 * 2 ^ nat (n - 1)" by simp
  then have "min (5 * 2 ^ nat n) 300 = min (2 * min (5 * 2 ^ nat (n - 1)) 300) (300::rat)"
    by (simp add: min_def)
  with assms have "default_backoff (n + 1) = Inr (min (2 * min (5 * 2 ^ nat (n - 1)) 300) 300)"
    by (simp add: backoff_Inr)
  moreover have "default_backoff 1 = Inr 5" by (simp add: backoff_Inr)
  moreover note backoff_Inr [of n] assms backoff_range [of n]
  ultimately show ?thesis by auto
qed

lemma backoff_doubles_to_cap_witness:
  "\<exists>d. default_backoff 6 = Inr d \<and> default_backoff 7 = Inr (min (2 * d) 300)
     \<and> 5 \<le> d \<and> d \<le> 300 \<and> default_backoff 1 = Inr 5"
  using backoff_doubles_to_cap [of 6] by simp

text \<open>The examples of tests/test\_queue\_backoff.py.\<close>

lemma retriable_503_example: "is_retriable_error (Exn OtherError (lit ''HTTP 503 Service Unavailable''))"
  by code_simp

lemma not_retriable_auth_example: "\<not> is_retriable_error (Exn OtherError (lit ''401 Unauthorized''))"
  by code_simp

lemma backoff_example: "map default_backoff [1, 2, 10] = [Inr 5, Inr 10, Inr 300]"
  by (simp add: backoff_Inr)

end
