(* ===== verification/Tls_Profiles.thy ===== *)
theory Tls_Profiles
  imports Py_Prelude "HOL-Library.Option_ord"
begin

section \<open>TLS profiles, contexts and probes (tls/profiles.py, tls/context.py, tls/probe.py)\<close>

text \<open>
  The three client profiles and the ladder of profiles per mode; the \<open>ssl.SSLContext\<close> a
  profile and the trust settings give, as a record of the attributes the code sets; the probe
  that tries one profile. What lies outside is the record \<open>network\<close>: whether a CA file is
  there, what OpenSSL says when it loads it or sets ciphers, and the result of connecting and
  shaking hands under a context, an exception or the version that was negotiated.
\<close>

datatype tls_mode = AUTO_MODE | MODERN_MODE | LEGACY_MODE

datatype tls_profile_id = MODERN | LEGACY_TLS1_1 | LEGACY_TLS1

primrec mode_value :: "tls_mode \<Rightarrow> pystr" where
  "mode_value AUTO_MODE = lit ''auto''"
| "mode_value MODERN_MODE = lit ''modern''"
| "mode_value LEGACY_MODE = lit ''legacy''"

primrec profile_value :: "tls_profile_id \<Rightarrow> pystr" where
  "profile_value MODERN = lit ''modern''"
| "profile_value LEGACY_TLS1_1 = lit ''legacy_tls1_1''"
| "profile_value LEGACY_TLS1 = lit ''legacy_tls1''"

text \<open>\<open>TlsMode(text)\<close> and \<open>TlsProfileId(text)\<close>, which raise ValueError.\<close>

definition parse_mode :: "pystr \<Rightarrow> tls_mode res" where
  "parse_mode s = (case find (\<lambda>m. mode_value m = s) [AUTO_MODE, MODERN_MODE, LEGACY_MODE] of
     None \<Rightarrow> Inl (Exn ValueError (39 # s @ 39 # lit '' is not a valid TlsMode'')) | Some m \<Rightarrow> Inr m)"

definition parse_profile :: "pystr \<Rightarrow> tls_profile_id res" where
  "parse_profile s = (case find (\<lambda>p. profile_value p = s) [MODERN, LEGACY_TLS1_1, LEGACY_TLS1] of
     None \<Rightarrow> Inl (Exn ValueError (39 # s @ 39 # lit '' is not a valid TlsProfileId'')) | Some p \<Rightarrow> Inr p)"

text \<open>The versions of \<open>ssl.TLSVersion\<close> the table names, in their order.\<close>

datatype tls_version = TLSv1 | TLSv1_1 | TLSv1_2 | TLSv1_3

primrec version_number :: "tls_version \<Rightarrow> nat" where
  "version_number TLSv1 = 10"
| "version_number TLSv1_1 = 11"
| "version_number TLSv1_2 = 12"
| "version_number TLSv1_3 = 13"

instantiation tls_version :: linorder
begin

definition less_eq_tls_version :: "tls_version \<Rightarrow> tls_version \<Rightarrow> bool" where
  "less_eq_tls_version a b \<longleftrightarrow> version_number a \<le> version_number b"

definition less_tls_version :: "tls_version \<Rightarrow> tls_version \<Rightarrow> bool" where
  "less_tls_version a b \<longleftrightarrow> version_number a < version_number b"

instance
proof
  fix a b :: tls_version
  assume "a \<le> b" "b \<le> a"
  then show "a = b" by (cases a; cases b) (simp_all add: less_eq_tls_version_def)
qed (auto simp: less_eq_tls_version_def less_tls_version_def)

end

record tls_profile =
  profile_id :: tls_profile_id
  profile_label :: pystr
  min_tls :: "tls_version option"
  max_tls :: "tls_version option"
  profile_ciphers :: "pystr option"
  legacy_connect :: bool

primrec profile_of :: "tls_profile_id \<Rightarrow> tls_profile" where
  "profile_of MODERN = \<lparr>profile_id = MODERN, profile_label = lit ''TLS 1.2+ (modern)'',
     min_tls = Some TLSv1_2, max_tls = None, profile_ciphers = None, legacy_connect = False\<rparr>"
| "profile_of LEGACY_TLS1_1 = \<lparr>profile_id = LEGACY_TLS1_1, profile_label = lit ''TLS 1.1 (legacy)'',
     min_tls = Some TLSv1_1, max_tls = Some TLSv1_1,
     profile_ciphers = Some (lit ''DEFAULT:@SECLEVEL=0''), legacy_connect = True\<rparr>"
| "profile_of LEGACY_TLS1 = \<lparr>profile_id = LEGACY_TLS1, profile_label = lit ''TLS 1.0 (legacy)'',
     min_tls = Some TLSv1, max_tls = Some TLSv1,
     profile_ciphers = Some (lit ''DEFAULT:@SECLEVEL=0''), legacy_connect = True\<rparr>"

definition ladder_for_mode :: "tls_mode \<Rightarrow> tls_profile_id list" where
  "ladder_for_mode mode =
     (if mode = MODERN_MODE then [MODERN]
      else if mode = LEGACY_MODE then [LEGACY_TLS1_1, LEGACY_TLS1]
      else [MODERN, LEGACY_TLS1_1, LEGACY_TLS1])"

subsection \<open>Contexts\<close>

datatype verify_mode = CERT_NONE | CERT_REQUIRED

text \<open>Where the trusted authorities come from: nowhere, a file, the system.\<close>

datatype trust_anchors = No_Anchors | Anchors_File pystr | System_Anchors

record ssl_context =
  ctx_min :: "tls_version option"
  ctx_max :: "tls_version option"
  ctx_ciphers :: "pystr option"
  ctx_legacy :: bool
  check_hostname :: bool
  verify_mode :: verify_mode
  anchors :: trust_anchors

text \<open>\<open>ssl.SSLContext(ssl.PROTOCOL_TLS_CLIENT)\<close>\<close>

definition client_context :: ssl_context where
  "client_context = \<lparr>ctx_min = None, ctx_max = None, ctx_ciphers = None, ctx_legacy = False,
     check_hostname = True, verify_mode = CERT_REQUIRED, anchors = No_Anchors\<rparr>"

record network =
  is_file :: "pystr \<Rightarrow> bool"
  set_ciphers :: "pystr \<Rightarrow> exn option"
  load_verify_locations :: "pystr \<Rightarrow> exn option"
  handshake :: "ssl_context \<Rightarrow> pystr \<Rightarrow> int \<Rightarrow> pystr res"

definition raising :: "exn option \<Rightarrow> 'a \<Rightarrow> 'a res" where
  "raising e x = (case e of None \<Rightarrow> Inr x | Some e \<Rightarrow> Inl e)"

definition build_ssl_context ::
    "network \<Rightarrow> tls_profile \<Rightarrow> pystr option \<Rightarrow> bool \<Rightarrow> ssl_context res" where
  "build_ssl_context N profile ca trust_self_signed =
     (let ctx0 = client_context;
          ctx1 = (case min_tls profile of None \<Rightarrow> ctx0 | v \<Rightarrow> ctx0\<lparr>ctx_min := v\<rparr>);
          ctx2 = (case max_tls profile of None \<Rightarrow> ctx1 | v \<Rightarrow> ctx1\<lparr>ctx_max := v\<rparr>)
      in bindE (if truthy (profile_ciphers profile)
                then raising (set_ciphers N (or_empty (profile_ciphers profile)))
                       (ctx2\<lparr>ctx_ciphers := profile_ciphers profile\<rparr>)
                else Inr ctx2) (\<lambda>ctx3.
         let ctx4 = (if legacy_connect profile then ctx3\<lparr>ctx_legacy := True\<rparr> else ctx3)
         in if trust_self_signed then Inr (ctx4\<lparr>check_hostname := False, verify_mode := CERT_NONE\<rparr>)
            else if truthy ca then
              (if \<not> is_file N (or_empty ca)
               then Inl (Exn FileNotFoundError (lit ''CA file not found: '' @ or_empty ca))
               else raising (load_verify_locations N (or_empty ca))
                      (ctx4\<lparr>anchors := Anchors_File (or_empty ca), verify_mode := CERT_REQUIRED,
                            check_hostname := True\<rparr>))
            else Inr (ctx4\<lparr>anchors := System_Anchors, verify_mode := CERT_REQUIRED,
                           check_hostname := True\<rparr>)))"

subsection \<open>Probes\<close>

record probe_result =
  probed :: tls_profile_id
  probe_ok :: bool
  probe_error :: "pystr option"
  negotiated :: "pystr option"

text \<open>The classes below OSError, which the probe catches (with \<open>ssl.SSLError\<close>, one of them).\<close>

definition is_os_error :: "exn \<Rightarrow> bool" where
  "is_os_error e \<longleftrightarrow> exn_kind e \<in> {OSError, ConnectionError, FileNotFoundError, SSLError}"

definition probe_profile ::
    "network \<Rightarrow> pystr \<Rightarrow> int \<Rightarrow> tls_profile_id \<Rightarrow> pystr option \<Rightarrow> bool \<Rightarrow> probe_result res" where
  "probe_profile N host port pid ca trust_self_signed =
     (let failed = (\<lambda>e. \<lparr>probed = pid, probe_ok = False, probe_error = Some (exn_text e),
                         negotiated = None\<rparr>)
      in case build_ssl_context N (profile_of pid) ca trust_self_signed of
           Inl e \<Rightarrow> Inr (failed e)
         | Inr ctx \<Rightarrow>
             (case handshake N ctx host port of
                Inr v \<Rightarrow> Inr \<lparr>probed = pid, probe_ok = True, probe_error = None, negotiated = Some v\<rparr>
              | Inl e \<Rightarrow> if is_os_error e then Inr (failed e) else Inl e))"

subsection \<open>What a context promises\<close>

lemma parse_mode_value [simp]: "parse_mode (mode_value m) = Inr m"
  by (cases m) (simp_all add: parse_mode_def)

lemma parse_mode_InrD: "parse_mode s = Inr m \<Longrightarrow> s = mode_value m"
  by (auto simp: parse_mode_def split: option.splits if_splits)

lemma parse_profile_value [simp]: "parse_profile (profile_value p) = Inr p"
  by (cases p) (simp_all add: parse_profile_def)

lemma profile_value_neq_Nil [simp]: "profile_value p \<noteq> []"
  by (cases p) simp_all

lemma context_bounds:
  assumes "build_ssl_context N (profile_of pid) ca trust = Inr ctx"
  shows "ctx_min ctx = min_tls (profile_of pid) \<and> ctx_max ctx = max_tls (profile_of pid)
    \<and> ctx_legacy ctx = legacy_connect (profile_of pid)"
  using assms
  by (cases pid) (auto simp: build_ssl_context_def raising_def client_context_def Let_def bindE_def
      split: if_splits option.splits)

lemma context_trust:
  assumes "build_ssl_context N (profile_of pid) ca trust = Inr ctx"
  shows "if trust then verify_mode ctx = CERT_NONE \<and> \<not> check_hostname ctx
    else verify_mode ctx = CERT_REQUIRED \<and> check_hostname ctx
      \<and> anchors ctx = (if truthy ca then Anchors_File (or_empty ca) else System_Anchors)"
  using assms
  by (cases pid) (auto simp: build_ssl_context_def raising_def client_context_def Let_def bindE_def
      split: if_splits option.splits)

text \<open>
  A context is never weaker than the profile and the settings ask for: unless the operator
  trusts self-signed certificates, the peer's certificate is required, its host name checked
  and the authorities are those of the CA file, if one is set; and the MODERN profile
  accepts nothing below TLS 1.2, the legacy profiles exactly one version each.
\<close>

lemma ssl_context_enforces_settings:
  assumes "build_ssl_context N (profile_of pid) ca trust = Inr ctx"
  shows "(verify_mode ctx = CERT_NONE) = trust \<and> check_hostname ctx = (\<not> trust)
    \<and> (trust \<or> anchors ctx = (if truthy ca then Anchors_File (or_empty ca) else System_Anchors))
    \<and> (case pid of MODERN \<Rightarrow> ctx_min ctx = Some TLSv1_2 \<and> ctx_max ctx = None
       | LEGACY_TLS1_1 \<Rightarrow> ctx_min ctx = Some TLSv1_1 \<and> ctx_max ctx = Some TLSv1_1
       | LEGACY_TLS1 \<Rightarrow> ctx_min ctx = Some TLSv1 \<and> ctx_max ctx = Some TLSv1)"
  using context_trust [OF assms] context_bounds [OF assms]
  by (cases pid) (auto split: if_splits)

text \<open>A network on which the witnesses evaluate: it reaches servers of TLS 1.1 at most.\<close>

definition old_network :: network where
  "old_network = \<lparr>is_file = (\<lambda>_. True), set_ciphers = (\<lambda>_. None), load_verify_locations = (\<lambda>_. None),
     handshake = (\<lambda>ctx host port.
       if ctx_min ctx \<le> Some TLSv1_1 then Inr (lit ''TLSv1.1'')
       else Inl (Exn SSLError (lit ''unsupported protocol'')))\<rparr>"

lemma ssl_context_enforces_settings_witness:
  "\<exists>ctx. build_ssl_context old_network (profile_of MODERN) (Some (lit ''/ca.pem'')) False = Inr ctx
     \<and> verify_mode ctx = CERT_REQUIRED \<and> check_hostname ctx
     \<and> anchors ctx = Anchors_File (lit ''/ca.pem'') \<and> ctx_min ctx = Some TLSv1_2"
proof -
  obtain ctx where ctx:
    "build_ssl_context old_network (profile_of MODERN) (Some (lit ''/ca.pem'')) False = Inr ctx"
    by (simp add: build_ssl_context_def raising_def old_network_def Let_def)
  from ssl_context_enforces_settings [OF this] have "verify_mode ctx \<noteq> CERT_NONE \<and> check_hostname ctx
      \<and> anchors ctx = Anchors_File (lit ''/ca.pem'') \<and> ctx_min ctx = Some TLSv1_2"
    by simp
  with ctx show ?thesis by (cases "verify_mode ctx") auto
qed

end
