(* ===== verification/Kv_Store.thy ===== *)
theory Kv_Store
  imports Py_Prelude
begin

section \<open>The contract of the key-value stores\<close>

text \<open>
  Several components keep values under string keys and rely on the same promises: the
  settings table of the database, the SMTP credentials by peer, the TLS profiles and the
  Exchange accounts by server. \<open>kv_store\<close> states what a lookup returns after a write,
  \<open>kv_store_del\<close> adds removal. The providers interpret the locales in their own theories.
\<close>

locale kv_store =
  fixes lookup :: "'s \<Rightarrow> 'k \<Rightarrow> 'v option"
    and put :: "'k \<Rightarrow> 'v \<Rightarrow> 's \<Rightarrow> 's"
  assumes lookup_put: "lookup (put k v s) k' = (if k' = k then Some v else lookup s k')"
begin

lemma lookup_put_same: "lookup (put k v s) k = Some v"
  by (simp add: lookup_put)

lemma lookup_put_other: "k' \<noteq> k \<Longrightarrow> lookup (put k v s) k' = lookup s k'"
  by (simp add: lookup_put)

lemma lookup_put_twice: "lookup (put k v (put k w s)) k' = lookup (put k v s) k'"
  by (simp add: lookup_put)

lemma lookup_puts:
  "lookup (fold (\<lambda>(k, v). put k v) kvs s) k' =
     (case map_of (rev kvs) k' of Some v \<Rightarrow> Some v | None \<Rightarrow> lookup s k')"
  by (induction kvs arbitrary: s) (auto simp: lookup_put map_add_def split: option.splits)

end

locale kv_store_del = kv_store +
  fixes remove :: "'k \<Rightarrow> 's \<Rightarrow> 's"
  assumes lookup_remove: "lookup (remove k s) k' = (if k' = k then None else lookup s k')"
begin

lemma lookup_remove_put: "lookup (remove k (put k v s)) k' = lookup (remove k s) k'"
  by (simp add: lookup_remove lookup_put)

lemma lookup_put_remove: "lookup (put k v (remove k s)) k' = lookup (put k v s) k'"
  by (simp add: lookup_remove lookup_put)

end

end
