(* ===== verification/Tls_Cache.thy ===== *)
theory Tls_Cache
  imports Tls_Profiles Kv_Store Gateway_Config
begin

section \<open>The cache of working TLS profiles (tls/cache.py)\<close>

text \<open>
  The module keeps the winning profile of an endpoint twice, in the dictionary \<open>_memory\<close> and
  in a JSON file; \<open>tc_file\<close> is the document the file holds, \<open>None\<close> when there is no file or
  no JSON text in it (the layout of the file and the order of its keys are not modelled, nor
  failing writes). Values are JSON documents, since the file may have been edited; what is
  no profile raises ValueError when it is looked up. Every function runs under one lock.
\<close>

record tls_cache =
  tc_memory :: "json dict"
  tc_file :: "json option"

definition cache_key :: "pystr \<Rightarrow> int \<Rightarrow> pystr \<Rightarrow> pystr option \<Rightarrow> bool \<Rightarrow> pystr" where
  "cache_key host port mode ca insecure =
     lower host @ lit '':'' @ str_int port @ lit ''|mode='' @ mode @ lit ''|ca='' @ or_empty ca
     @ lit ''|insecure='' @ (if insecure then lit ''1'' else lit ''0'')"

definition load_store :: "tls_cache \<Rightarrow> json dict" where
  "load_store c = (case tc_file c of Some (JObj kvs) \<Rightarrow> kvs | _ \<Rightarrow> [])"

definition save_store :: "json dict \<Rightarrow> tls_cache \<Rightarrow> tls_cache" where
  "save_store store c = c\<lparr>tc_file := Some (JObj store)\<rparr>"

text \<open>\<open>TlsProfileId(value)\<close> of a value of any type.\<close>

definition profile_of_json :: "json \<Rightarrow> tls_profile_id res" where
  "profile_of_json v = (case v of JStr s \<Rightarrow> parse_profile s
     | _ \<Rightarrow> Inl (Exn ValueError (lit ''not a valid TlsProfileId'')))"

definition get_cached :: "pystr \<Rightarrow> tls_cache \<Rightarrow> tls_profile_id option res \<times> tls_cache" where
  "get_cached key c =
     (case map_of (tc_memory c) key of
        Some v \<Rightarrow> (bindE (profile_of_json v) (\<lambda>p. Inr (Some p)), c)
      | None \<Rightarrow>
          (case map_of (load_store c) key of
             Some v \<Rightarrow>
               if truthy_json v
               then (bindE (profile_of_json v) (\<lambda>p. Inr (Some p)),
                     c\<lparr>tc_memory := AList.update key v (tc_memory c)\<rparr>)
               else (Inr None, c)
           | None \<Rightarrow> (Inr None, c)))"

definition put_cached :: "pystr \<Rightarrow> tls_profile_id \<Rightarrow> tls_cache \<Rightarrow> tls_cache" where
  "put_cached key p c =
     (let c1 = c\<lparr>tc_memory := AList.update key (JStr (profile_value p)) (tc_memory c)\<rparr>
      in save_store (AList.update key (JStr (profile_value p)) (load_store c1)) c1)"

definition invalidate :: "pystr \<Rightarrow> tls_cache \<Rightarrow> tls_cache" where
  "invalidate key c =
     (let c1 = c\<lparr>tc_memory := AList.delete key (tc_memory c)\<rparr>;
          store = load_store c1
      in if key \<in> fst ` set store then save_store (AList.delete key store) c1 else c1)"

definition clear_memory :: "tls_cache \<Rightarrow> tls_cache" where
  "clear_memory c = c\<lparr>tc_memory := []\<rparr>"

subsection \<open>The cache as a key-value store\<close>

text \<open>The profile a lookup finds, wherever it finds it; garbage counts as nothing.\<close>

definition cached_value :: "tls_cache \<Rightarrow> pystr \<Rightarrow> json option" where
  "cached_value c key =
     (case map_of (tc_memory c) key of
        Some v \<Rightarrow> Some v
      | None \<Rightarrow> (case map_of (load_store c) key of
          Some v \<Rightarrow> if truthy_json v then Some v else None | None \<Rightarrow> None))"

definition cached_profile :: "tls_cache \<Rightarrow> pystr \<Rightarrow> tls_profile_id option" where
  "cached_profile c key = Option.bind (cached_value c key)
     (\<lambda>v. case profile_of_json v of Inl _ \<Rightarrow> None | Inr p \<Rightarrow> Some p)"

lemma load_store_simps [simp]:
  "load_store (c\<lparr>tc_memory := m\<rparr>) = load_store c"
  "load_store (save_store d c) = d"
  "tc_memory (save_store d c) = tc_memory c"
  by (simp_all add: load_store_def save_store_def)

lemma profile_of_json_value [simp]: "profile_of_json (JStr (profile_value p)) = Inr p"
  by (simp add: profile_of_json_def)

lemma truthy_profile [simp]: "truthy_json (JStr (profile_value p))"
  by (simp add: truthy_json_def)

lemma cached_value_put:
  "cached_value (put_cached k p c) k' =
    (if k' = k then Some (JStr (profile_value p)) else cached_value c k')"
  by (simp add: cached_value_def put_cached_def Let_def split: option.split)

lemma cached_value_invalidate:
  "cached_value (invalidate k c) k' = (if k' = k then None else cached_value c k')"
  by (auto simp: cached_value_def invalidate_def Let_def split: option.splits
      dest: map_of_SomeD simp: rev_image_eqI)

interpretation tls_store: kv_store_del cached_profile put_cached invalidate
  by unfold_locales
    (simp_all add: cached_profile_def cached_value_put cached_value_invalidate)

text \<open>\<open>get_cached\<close> gives what the store holds, or raises on garbage; it loses nothing.\<close>

lemma get_cached_value:
  "fst (get_cached key c) = (case cached_value c key of
     None \<Rightarrow> Inr None | Some v \<Rightarrow> bindE (profile_of_json v) (\<lambda>p. Inr (Some p)))"
  by (simp add: get_cached_def cached_value_def split: option.split)

lemma get_cached_profile:
  "fst (get_cached key c) = Inr r \<Longrightarrow> r = cached_profile c key"
  by (auto simp: get_cached_value cached_profile_def bindE_Inr_iff split: option.splits)

lemma get_cached_keeps: "cached_value (snd (get_cached key c)) k = cached_value c k"
  by (auto simp: get_cached_def cached_value_def split: option.split)

text \<open>What another process, started on the same file, finds.\<close>

lemma put_cached_persists: "fst (get_cached key (clear_memory (put_cached key p c))) = Inr (Some p)"
  by (simp add: get_cached_def clear_memory_def put_cached_def Let_def)

end
