(* ===== verification/Tls_Negotiate.thy ===== *)
theory Tls_Negotiate
  imports Tls_Cache
begin

section \<open>Negotiating a TLS profile (tls/negotiate.py, tls/adapter.py)\<close>

text \<open>
  \<open>negotiate\<close> tries the cached profile of the endpoint, else the ladder of its mode, and
  caches the first profile that works. The state is the cache and the process-wide HTTP
  adapter of exchangelib, of which only the TLS context matters. \<open>url_endpoint\<close> is what
  \<open>urllib.parse.urlparse\<close> gives as scheme, host and port; its checks of bracketed addresses and
  of characters that normalise to delimiters are not modelled, since \<open>HttpUrl\<close> makes them.
\<close>

record tls_state =
  ts_cache :: tls_cache
  ts_adapter :: "ssl_context option"

record negotiated_tls =
  neg_host :: pystr
  neg_port :: int
  neg_profile :: tls_profile_id
  from_cache :: bool
  neg_probe :: "probe_result option"

definition is_scheme_char :: "int \<Rightarrow> bool" where
  "is_scheme_char c \<longleftrightarrow> is_digit c \<or> 65 \<le> c \<and> c \<le> 90 \<or> 97 \<le> c \<and> c \<le> 122 \<or> c \<in> {43, 45, 46}"

definition url_clean :: "pystr \<Rightarrow> pystr" where
  "url_clean s = filter (\<lambda>c. c \<notin> {9, 10, 13}) (dropWhile (\<lambda>c. c \<le> 32) s)"

definition url_scheme :: "pystr \<Rightarrow> pystr \<times> pystr" where
  "url_scheme s =
     (case partition_at 58 s of (pre, found, post) \<Rightarrow>
        if found \<and> pre \<noteq> [] \<and> (65 \<le> hd pre \<and> hd pre \<le> 90 \<or> 97 \<le> hd pre \<and> hd pre \<le> 122)
           \<and> list_all is_scheme_char pre
        then (lower pre, post) else ([], s))"

definition url_netloc :: "pystr \<Rightarrow> pystr" where
  "url_netloc s =
     (if startswith s (lit ''//'') then takeWhile (\<lambda>c. c \<notin> {47, 63, 35}) (drop 2 s) else [])"

text \<open>\<open>s.rpartition(c)[2]\<close>: what follows the last \<open>c\<close>, all of \<open>s\<close> without one.\<close>

definition after_last :: "int \<Rightarrow> pystr \<Rightarrow> pystr" where
  "after_last c s = rev (takeWhile (\<lambda>x. x \<noteq> c) (rev s))"

definition hostinfo :: "pystr \<Rightarrow> pystr \<times> pystr" where
  "hostinfo netloc =
     (let info = after_last 64 netloc
      in case partition_at 91 info of (_, bracket, rest) \<Rightarrow>
           if bracket then
             (case partition_at 93 rest of (host, _, tail) \<Rightarrow>
                (host, snd (snd (partition_at 58 tail))))
           else (case partition_at 58 info of (host, _, port) \<Rightarrow> (host, port)))"

definition url_hostname :: "pystr \<Rightarrow> pystr" where
  "url_hostname host =
     (case partition_at 37 host of (name, percent, zone) \<Rightarrow>
        lower name @ (if percent then 37 # zone else []))"

definition url_port :: "pystr \<Rightarrow> int option res" where
  "url_port port =
     (if port = [] then Inr None
      else if \<not> list_all is_digit port
      then Inl (Exn ValueError (lit ''Port could not be cast to integer value''))
      else if 65535 < digits_value port then Inl (Exn ValueError (lit ''Port out of range 0-65535''))
      else Inr (Some (digits_value port)))"

definition endpoint_from_url :: "pystr \<Rightarrow> (pystr \<times> int) res" where
  "endpoint_from_url url =
     (let (scheme, rest) = url_scheme (url_clean url);
          netloc = url_netloc rest;
          (host, port) = hostinfo netloc
      in if (91 \<in> set netloc) \<noteq> (93 \<in> set netloc)
         then Inl (Exn ValueError (lit ''Invalid IPv6 URL''))
         else if host = [] then Inl (Exn ValueError (lit ''cannot parse host from URL: '' @ url))
         else bindE (url_port port) (\<lambda>p.
           Inr (url_hostname host,
             (case p of Some n \<Rightarrow> if n \<noteq> 0 then n else if scheme = lit ''https'' then 443 else 80
              | None \<Rightarrow> if scheme = lit ''https'' then 443 else 80))))"

definition trust_args :: "ews_config \<Rightarrow> pystr option \<times> bool" where
  "trust_args cfg = (ca_file cfg, trust_self_signed cfg)"

text \<open>Host, port, mode and cache key of a configuration, the common start of two functions.\<close>

definition tls_target :: "ews_config \<Rightarrow> (pystr \<times> int \<times> tls_mode \<times> pystr) res" where
  "tls_target cfg =
     bindE (endpoint_from_url (server_url cfg)) (\<lambda>(host, port).
     bindE (parse_mode (tls_mode cfg)) (\<lambda>mode.
       let (ca, insecure) = trust_args cfg
       in Inr (host, port, mode, cache_key host port (mode_value mode) ca insecure)))"

text \<open>The loop over the ladder; \<open>err\<close> is the error of the last probe.\<close>

fun try_ladder ::
    "(tls_profile_id \<Rightarrow> probe_result res) \<Rightarrow> tls_profile_id list \<Rightarrow> pystr option
      \<Rightarrow> (probe_result + pystr option) res" where
  "try_ladder probe [] err = Inr (Inr err)"
| "try_ladder probe (p # ps) err =
     bindE (probe p) (\<lambda>r. if probe_ok r then Inr (Inl r) else try_ladder probe ps (probe_error r))"

definition no_profile :: "pystr \<Rightarrow> int \<Rightarrow> tls_mode \<Rightarrow> pystr option \<Rightarrow> exn" where
  "no_profile host port mode err = Exn ConnectionError
     (lit ''no working TLS profile for '' @ host @ lit '':'' @ str_int port @ lit '' (mode=''
      @ mode_value mode @ lit ''): '' @ (case err of None \<Rightarrow> lit ''None'' | Some e \<Rightarrow> e))"

definition probe_ladder ::
    "network \<Rightarrow> ews_config \<Rightarrow> pystr \<Rightarrow> int \<Rightarrow> tls_mode \<Rightarrow> pystr \<Rightarrow> tls_state
      \<Rightarrow> negotiated_tls res \<times> tls_state" where
  "probe_ladder N cfg host port mode key st =
     (case try_ladder (\<lambda>p. probe_profile N host port p (ca_file cfg) (trust_self_signed cfg))
             (ladder_for_mode mode) None of
        Inl e \<Rightarrow> (Inl e, st)
      | Inr (Inr err) \<Rightarrow> (Inl (no_profile host port mode err), st)
      | Inr (Inl r) \<Rightarrow>
          (Inr \<lparr>neg_host = host, neg_port = port, neg_profile = probed r, from_cache = False,
                neg_probe = Some r\<rparr>,
           st\<lparr>ts_cache := put_cached key (probed r) (ts_cache st)\<rparr>))"

definition negotiate ::
    "network \<Rightarrow> ews_config \<Rightarrow> bool \<Rightarrow> tls_state \<Rightarrow> negotiated_tls res \<times> tls_state" where
  "negotiate N cfg force_reprobe st =
     (case tls_target cfg of
        Inl e \<Rightarrow> (Inl e, st)
      | Inr (host, port, mode, key) \<Rightarrow>
          if force_reprobe then probe_ladder N cfg host port mode key st
          else (let (cached, cache') = get_cached key (ts_cache st);
                    st' = st\<lparr>ts_cache := cache'\<rparr>
                in case cached of
                     Inl e \<Rightarrow> (Inl e, st')
                   | Inr (Some p) \<Rightarrow>
                       (Inr \<lparr>neg_host = host, neg_port = port, neg_profile = p, from_cache = True,
                             neg_probe = None\<rparr>, st')
                   | Inr None \<Rightarrow> probe_ladder N cfg host port mode key st'))"

definition apply_negotiated ::
    "network \<Rightarrow> ews_config \<Rightarrow> negotiated_tls \<Rightarrow> tls_state \<Rightarrow> unit res \<times> tls_state" where
  "apply_negotiated N cfg neg st =
     (case build_ssl_context N (profile_of (neg_profile neg)) (ca_file cfg) (trust_self_signed cfg) of
        Inl e \<Rightarrow> (Inl e, st)
      | Inr ctx \<Rightarrow> (Inr (), st\<lparr>ts_adapter := Some ctx\<rparr>))"

definition prepare_ews_tls ::
    "network \<Rightarrow> ews_config \<Rightarrow> bool \<Rightarrow> tls_state \<Rightarrow> negotiated_tls res \<times> tls_state" where
  "prepare_ews_tls N cfg force_reprobe st =
     (case negotiate N cfg force_reprobe st of
        (Inl e, st') \<Rightarrow> (Inl e, st')
      | (Inr neg, st') \<Rightarrow>
          (case apply_negotiated N cfg neg st' of
             (Inl e, st'') \<Rightarrow> (Inl e, st'') | (Inr _, st'') \<Rightarrow> (Inr neg, st'')))"

definition invalidate_ews_tls :: "ews_config \<Rightarrow> tls_state \<Rightarrow> unit res \<times> tls_state" where
  "invalidate_ews_tls cfg st =
     (case tls_target cfg of
        Inl e \<Rightarrow> (Inl e, st)
      | Inr (host, port, mode, key) \<Rightarrow> (Inr (), st\<lparr>ts_cache := invalidate key (ts_cache st)\<rparr>))"

definition is_tls_failure :: "exn \<Rightarrow> bool" where
  "is_tls_failure e \<longleftrightarrow> exn_kind e = SSLError
     \<or> list_ex (\<lambda>m. contains m (lower (exn_text e)))
         (map lit [''ssl'', ''tls'', ''unsupported protocol'', ''certificate'', ''handshake'',
                   ''wrong version number''])"

text \<open>\<open>MsgateSSLAdapter.cert_verify\<close> leaves requests' own checks on unless the context has none.\<close>

definition adapter_cert_verify :: "ssl_context \<Rightarrow> bool" where
  "adapter_cert_verify ctx \<longleftrightarrow> verify_mode ctx \<noteq> CERT_NONE"

subsection \<open>The ladder\<close>

abbreviation probing :: "network \<Rightarrow> ews_config \<Rightarrow> pystr \<Rightarrow> int \<Rightarrow> tls_profile_id \<Rightarrow> probe_result res" where
  "probing N cfg host port p \<equiv> probe_profile N host port p (ca_file cfg) (trust_self_signed cfg)"

definition works :: "network \<Rightarrow> ews_config \<Rightarrow> pystr \<Rightarrow> int \<Rightarrow> tls_profile_id \<Rightarrow> bool" where
  "works N cfg host port p \<longleftrightarrow> (case probing N cfg host port p of Inl _ \<Rightarrow> False | Inr r \<Rightarrow> probe_ok r)"

lemma probed_profile [simp]: "probe_profile N host port p ca t = Inr r \<Longrightarrow> probed r = p"
  by (auto simp: probe_profile_def Let_def split: sum.splits if_splits)

lemma try_ladder_probed:
  assumes "try_ladder (probing N cfg host port) ps err = Inr (Inl r)"
  shows "probed r \<in> set ps \<and> probe_ok r \<and> works N cfg host port (probed r)
    \<and> probing N cfg host port (probed r) = Inr r"
  using assms
  by (induction ps arbitrary: err) (auto simp: bindE_Inr_iff works_def split: if_splits)

lemma try_ladder_find:
  assumes "\<forall>p\<in>set ps. \<exists>r. probing N cfg host port p = Inr r"
  shows "case find (works N cfg host port) ps of
      Some p \<Rightarrow> \<exists>r. try_ladder (probing N cfg host port) ps err = Inr (Inl r) \<and> probed r = p
    | None \<Rightarrow> \<exists>e. try_ladder (probing N cfg host port) ps err = Inr (Inr e)"
  using assms
proof (induction ps arbitrary: err)
  case (Cons p ps)
  then obtain r where r: "probing N cfg host port p = Inr r" by auto
  show ?case
  proof (cases "probe_ok r")
    case True
    with r show ?thesis by (auto simp: works_def)
  next
    case False
    with r have "\<not> works N cfg host port p" by (simp add: works_def)
    moreover have "try_ladder (probing N cfg host port) (p # ps) err =
        try_ladder (probing N cfg host port) ps (probe_error r)"
      using r False by simp
    ultimately show ?thesis using Cons.IH [of "probe_error r"] Cons.prems by (simp split: option.splits)
  qed
qed simp

lemma negotiate_in_ladder:
  assumes "negotiate N cfg force st = (Inr neg, st')" "tls_target cfg = Inr (host, port, mode, key)"
  shows "from_cache neg \<and> cached_profile (ts_cache st) key = Some (neg_profile neg)
      \<and> (\<forall>k. cached_value (ts_cache st') k = cached_value (ts_cache st) k)
    \<or> neg_profile neg \<in> set (ladder_for_mode mode) \<and> works N cfg host port (neg_profile neg)
      \<and> (\<forall>k. cached_value (ts_cache st') k =
             (if k = key then Some (JStr (profile_value (neg_profile neg)))
              else cached_value (ts_cache st) k))"
proof -
  have ladder: ?thesis if "probe_ladder N cfg host port mode key s = (Inr neg, st')"
    "\<forall>k. cached_value (ts_cache s) k = cached_value (ts_cache st) k" for s
    using that
    by (auto simp: probe_ladder_def cached_value_put split: sum.splits dest: try_ladder_probed)
  show ?thesis
  proof (cases force)
    case True
    with assms ladder [of st] show ?thesis by (simp add: negotiate_def)
  next
    case False
    obtain cached c' where c: "get_cached key (ts_cache st) = (cached, c')" by (cases "get_cached key (ts_cache st)")
    have keep: "cached_value c' k = cached_value (ts_cache st) k" for k
      using get_cached_keeps [of key "ts_cache st" k] c by simp
    show ?thesis
    proof (cases cached)
      case (Inr r)
      then have "r = cached_profile (ts_cache st) key" using get_cached_profile [of key "ts_cache st"] c by simp
      show ?thesis
      proof (cases r)
        case None
        with assms False c Inr have "probe_ladder N cfg host port mode key (st\<lparr>ts_cache := c'\<rparr>) = (Inr neg, st')"
          by (simp add: negotiate_def)
        then show ?thesis by (rule ladder) (simp add: keep)
      next
        case (Some p)
        with assms False c Inr have "neg_profile neg = p" "from_cache neg" "st' = st\<lparr>ts_cache := c'\<rparr>"
          by (auto simp: negotiate_def)
        with Some \<open>r = cached_profile (ts_cache st) key\<close> keep show ?thesis by simp
      qed
    qed (use assms False c in \<open>simp add: negotiate_def\<close>)
  qed
qed

lemma negotiate_failed_keeps:
  assumes "negotiate N cfg force st = (Inl e, st')"
  shows "cached_value (ts_cache st') k = cached_value (ts_cache st) k"
proof -
  have ladder: "cached_value (ts_cache st') k = cached_value (ts_cache s) k"
    if "probe_ladder N cfg host port mode key s = (Inl e, st')" for host port mode key s
    using that by (auto simp: probe_ladder_def split: sum.splits)
  show ?thesis
  proof (cases "tls_target cfg")
    case (Inr t)
    obtain host port mode key where t: "t = (host, port, mode, key)" by (cases t)
    show ?thesis
    proof (cases force)
      case True
      with assms Inr t ladder show ?thesis by (simp add: negotiate_def)
    next
      case False
      obtain cached c' where c: "get_cached key (ts_cache st) = (cached, c')"
        by (cases "get_cached key (ts_cache st)")
      have keep: "cached_value c' k = cached_value (ts_cache st) k"
        using get_cached_keeps [of key "ts_cache st" k] c by simp
      show ?thesis
      proof (cases cached)
        case (Inl e')
        with assms Inr t False c keep show ?thesis by (auto simp: negotiate_def)
      next
        case (Inr r)
        with assms \<open>tls_target cfg = Inr t\<close> t False c keep ladder [of host port mode key "st\<lparr>ts_cache := c'\<rparr>"]
        show ?thesis by (cases r) (auto simp: negotiate_def)
      qed
    qed
  qed (use assms in \<open>simp add: negotiate_def\<close>)
qed

subsection \<open>What negotiation promises\<close>

text \<open>A process that just started, on a cache file.\<close>

definition start_tls :: "json option \<Rightarrow> tls_state" where
  "start_tls file = \<lparr>ts_cache = \<lparr>tc_memory = [], tc_file = file\<rparr>, ts_adapter = None\<rparr>"

definition sample_tls :: ews_config where
  "sample_tls = \<lparr>server_url = lit ''https://Mail.example.com/EWS/Exchange.asmx'', ews_auth = NTLM,
     ews_domain = None, ews_username = None, ews_password = None, trust_self_signed = False,
     ca_file = None, tls_mode = lit ''auto'', primary_smtp = None\<rparr>"

lemma sample_endpoint:
  "endpoint_from_url (lit ''https://Mail.example.com/EWS/Exchange.asmx'') =
    Inr (lit ''mail.example.com'', 443)"
  by code_simp

lemma sample_host: "124 \<notin> set (lower (lit ''mail.example.com''))"
  by code_simp

lemma sample_target:
  "tls_target sample_tls = Inr (lit ''mail.example.com'', 443, AUTO_MODE,
     cache_key (lit ''mail.example.com'') 443 (lit ''auto'') None False)"
  using parse_mode_value [of AUTO_MODE]
  by (simp add: tls_target_def sample_tls_def sample_endpoint trust_args_def)

lemma sample_probes:
  "probing old_network sample_tls host port MODERN = Inr \<lparr>probed = MODERN, probe_ok = False,
     probe_error = Some (lit ''unsupported protocol''), negotiated = None\<rparr>"
  "probing old_network sample_tls host port LEGACY_TLS1_1 = Inr \<lparr>probed = LEGACY_TLS1_1,
     probe_ok = True, probe_error = None, negotiated = Some (lit ''TLSv1.1'')\<rparr>"
  "probing old_network sample_tls host port LEGACY_TLS1 = Inr \<lparr>probed = LEGACY_TLS1,
     probe_ok = True, probe_error = None, negotiated = Some (lit ''TLSv1.1'')\<rparr>"
  by (simp_all add: probe_profile_def build_ssl_context_def old_network_def sample_tls_def Let_def
      raising_def is_os_error_def client_context_def less_eq_tls_version_def)


text \<open>
  Without a cached profile (or when told to reprobe) the profile negotiated is the first
  one of the mode's ladder that works, it is cached, and every later negotiation returns it
  without a probe, whatever the network has become; when none works, ConnectionError is raised
  and the cache is left alone.
\<close>

lemma negotiate_first_working:
  assumes "tls_target cfg = Inr (host, port, mode, key)"
    and "force \<or> cached_value (ts_cache st) key = None"
    and "\<forall>p\<in>set (ladder_for_mode mode). \<exists>r. probing N cfg host port p = Inr r"
  shows "case find (works N cfg host port) (ladder_for_mode mode) of
      Some p \<Rightarrow> \<exists>neg st'. negotiate N cfg force st = (Inr neg, st') \<and> neg_profile neg = p
        \<and> \<not> from_cache neg \<and> cached_profile (ts_cache st') key = Some p
        \<and> fst (negotiate N' cfg False st') =
            Inr \<lparr>neg_host = host, neg_port = port, neg_profile = p, from_cache = True, neg_probe = None\<rparr>
    | None \<Rightarrow> \<exists>e st'. negotiate N cfg force st = (Inl e, st') \<and> exn_kind e = ConnectionError
        \<and> (\<forall>k. cached_value (ts_cache st') k = cached_value (ts_cache st) k)"
proof -
  define s where "s = (if force then st else st\<lparr>ts_cache := snd (get_cached key (ts_cache st))\<rparr>)"
  have miss: "fst (get_cached key (ts_cache st)) = Inr None" if "\<not> force"
    using assms(2) that by (simp add: get_cached_value)
  have neg: "negotiate N cfg force st = probe_ladder N cfg host port mode key s"
    using assms(1) miss
    by (cases "get_cached key (ts_cache st)") (auto simp: negotiate_def s_def split: if_splits)
  show ?thesis
  proof (cases "find (works N cfg host port) (ladder_for_mode mode)")
    case (Some p)
    with try_ladder_find [OF assms(3), of None] obtain r where
      r: "try_ladder (probing N cfg host port) (ladder_for_mode mode) None = Inr (Inl r)" "probed r = p"
      by auto
    have hit: "fst (get_cached key (put_cached key p c)) = Inr (Some p)" for c
      by (simp add: get_cached_value cached_value_put)
    from Some r assms(1) show ?thesis
      using hit [of "ts_cache s"] tls_store.lookup_put_same
      by (auto simp: neg probe_ladder_def negotiate_def [of N'] split: prod.split)
  next
    case None
    with try_ladder_find [OF assms(3), of None] obtain e where
      e: "try_ladder (probing N cfg host port) (ladder_for_mode mode) None = Inr (Inr e)"
      by auto
    have "\<exists>e' st'. negotiate N cfg force st = (Inl e', st') \<and> exn_kind e' = ConnectionError"
      by (simp add: neg probe_ladder_def e no_profile_def)
    with None negotiate_failed_keeps show ?thesis by auto
  qed
qed

lemma negotiate_first_working_witness:
  "\<exists>neg st'. negotiate old_network sample_tls False (start_tls None) = (Inr neg, st')
     \<and> neg_profile neg = LEGACY_TLS1_1"
proof -
  let ?N = old_network and ?h = "lit ''mail.example.com''"
  have target: "tls_target sample_tls = Inr (?h, 443, AUTO_MODE, cache_key ?h 443 (lit ''auto'') None False)"
    by (simp add: sample_target)
  have probe: "\<forall>p\<in>set (ladder_for_mode AUTO_MODE). \<exists>r. probing ?N sample_tls ?h 443 p = Inr r"
    by (simp add: ladder_for_mode_def sample_probes)
  have "find (works ?N sample_tls ?h 443) (ladder_for_mode AUTO_MODE) = Some LEGACY_TLS1_1"
    by (simp add: ladder_for_mode_def works_def sample_probes)
  with negotiate_first_working [OF target _ probe, of False "start_tls None" ?N] show ?thesis
    by (auto simp: start_tls_def cached_value_def load_store_def)
qed

text \<open>
  After \<open>invalidate_ews_tls\<close> nothing cached is used for that endpoint, in this process or
  from the file: the next negotiation probes like a forced one, and other endpoints keep their
  entries.
\<close>

lemma invalidate_forces_probe:
  assumes "tls_target cfg = Inr (host, port, mode, key)"
    and "invalidate_ews_tls cfg st = (Inr (), st')"
  shows "fst (negotiate N cfg False st') = fst (negotiate N cfg True st)
    \<and> cached_profile (ts_cache st') key = None
    \<and> (\<forall>k. k = key \<or> cached_profile (ts_cache st') k = cached_profile (ts_cache st) k)"
proof -
  have st': "st' = st\<lparr>ts_cache := invalidate key (ts_cache st)\<rparr>"
    using assms by (simp add: invalidate_ews_tls_def)
  then have "fst (get_cached key (ts_cache st')) = Inr None"
    by (simp add: get_cached_value cached_value_invalidate)
  then have "fst (negotiate N cfg False st') = fst (probe_ladder N cfg host port mode key st')"
    using assms(1) by (cases "get_cached key (ts_cache st')")
      (auto simp: negotiate_def probe_ladder_def split: sum.splits)
  moreover have "fst (probe_ladder N cfg host port mode key st') = fst (negotiate N cfg True st)"
    using assms(1) by (simp add: negotiate_def probe_ladder_def split: sum.split)
  ultimately show ?thesis
    using st' tls_store.lookup_remove [of key "ts_cache st"] by auto
qed

lemma invalidate_forces_probe_witness:
  "\<exists>st'. invalidate_ews_tls sample_tls (start_tls None) = (Inr (), st')
    \<and> fst (negotiate old_network sample_tls False st') = fst (negotiate old_network sample_tls True (start_tls None))"
proof -
  obtain st' where st': "invalidate_ews_tls sample_tls (start_tls None) = (Inr (), st')"
    by (simp add: invalidate_ews_tls_def sample_target)
  with invalidate_forces_probe [OF sample_target st'] show ?thesis by blast
qed

subsection \<open>The cache never weakens the mode\<close>

text \<open>The mode can be read off a key: hosts of URLs hold no vertical bar.\<close>

lemma cache_key_mode:
  assumes "cache_key host port (mode_value m) ca t = cache_key host' port' (mode_value m') ca' t'"
    and "124 \<notin> set (lower host)" "124 \<notin> set (lower host')"
  shows "m = m'"
proof -
  have digits: "124 \<notin> set (str_int p)" for p
    using digits_are_digits [of 124] by (auto simp: str_int_def is_digit_def)
  have key: "cache_key h p (mode_value m) c t =
      (lower h @ 58 # str_int p) @ 124 # ((lit ''mode='' @ mode_value m)
        @ 124 # (lit ''ca='' @ or_empty c @ lit ''|insecure='' @ (if t then lit ''1'' else lit ''0'')))"
    for h p m c t by (simp add: cache_key_def lit_Cons)
  have modes: "124 \<notin> set (lit ''mode='' @ mode_value m)" for m
    by (cases m) (simp_all add: lit_def)
  note rest = split_unique [OF assms(1) [unfolded key], THEN conjunct2]
  have "lit ''mode='' @ mode_value m = lit ''mode='' @ mode_value m'"
    using assms(2,3) digits modes
    by (intro split_unique [OF rest, THEN conjunct1]) (auto simp: lit_Cons)
  then show ?thesis by (cases m; cases m') simp_all
qed

text \<open>The invariant: every entry is a profile of the ladder of the mode in its key.\<close>

definition entry_ok :: "pystr \<Rightarrow> json \<Rightarrow> bool" where
  "entry_ok key v \<longleftrightarrow> (\<exists>host port mode ca t p. key = cache_key host port (mode_value mode) ca t
     \<and> 124 \<notin> set (lower host) \<and> v = JStr (profile_value p) \<and> p \<in> set (ladder_for_mode mode))"

definition cache_ok :: "tls_cache \<Rightarrow> bool" where
  "cache_ok c \<longleftrightarrow> (\<forall>k v. map_of (tc_memory c) k = Some v \<longrightarrow> entry_ok k v)
     \<and> (\<forall>k v. map_of (load_store c) k = Some v \<longrightarrow> entry_ok k v)"

lemma cache_ok_get [keep_inv]: "cache_ok c \<Longrightarrow> cache_ok (snd (get_cached key c))"
  by (auto simp: cache_ok_def get_cached_def split: option.splits)

lemma cache_ok_put [keep_inv]:
  "cache_ok c \<Longrightarrow> entry_ok key (JStr (profile_value p)) \<Longrightarrow> cache_ok (put_cached key p c)"
  by (auto simp: cache_ok_def put_cached_def Let_def)

lemma cache_ok_invalidate [keep_inv]: "cache_ok c \<Longrightarrow> cache_ok (invalidate key c)"
  by (auto simp: cache_ok_def invalidate_def Let_def split: if_splits)

lemma cache_ok_clear [keep_inv]: "cache_ok c \<Longrightarrow> cache_ok (clear_memory c)"
  by (simp add: cache_ok_def clear_memory_def load_store_def)

lemma cached_value_ok: "cache_ok c \<Longrightarrow> cached_value c key = Some v \<Longrightarrow> entry_ok key v"
  by (auto simp: cache_ok_def cached_value_def split: option.splits if_splits)

text \<open>The host of the server has no vertical bar in it; that of a valid URL never has.\<close>

definition plain_host :: "ews_config \<Rightarrow> bool" where
  "plain_host cfg \<longleftrightarrow>
     (case tls_target cfg of Inl _ \<Rightarrow> True | Inr (host, _, _, _) \<Rightarrow> 124 \<notin> set (lower host))"

lemma tls_target_key:
  "tls_target cfg = Inr (host, port, mode, key) \<Longrightarrow>
   key = cache_key host port (mode_value mode) (ca_file cfg) (trust_self_signed cfg)
     \<and> tls_mode cfg = mode_value mode"
  by (auto simp: tls_target_def trust_args_def bindE_Inr_iff dest: parse_mode_InrD)

lemma cache_ok_negotiate [keep_inv]:
  assumes "cache_ok (ts_cache st)" "plain_host cfg"
  shows "cache_ok (ts_cache (snd (negotiate N cfg force st)))"
proof (cases "tls_target cfg")
  case (Inr t)
  obtain host port mode key where t: "t = (host, port, mode, key)" by (cases t)
  have target: "tls_target cfg = Inr (host, port, mode, key)" using Inr t by simp
  have key: "key = cache_key host port (mode_value mode) (ca_file cfg) (trust_self_signed cfg)"
    using tls_target_key [OF target] by simp
  have host: "124 \<notin> set (lower host)" using assms(2) target by (simp add: plain_host_def)
  have entry: "entry_ok key (JStr (profile_value p))" if "p \<in> set (ladder_for_mode mode)" for p
    using that host unfolding entry_ok_def key by blast
  have ladder: "cache_ok (ts_cache (snd (probe_ladder N cfg host port mode key s)))"
    if "cache_ok (ts_cache s)" for s
    using that entry try_ladder_probed
    by (auto simp: probe_ladder_def split: sum.split intro: cache_ok_put)
  show ?thesis
  proof (cases "get_cached key (ts_cache st)")
    case (Pair cached c')
    have "cache_ok c'" using cache_ok_get [OF assms(1), of key] Pair by simp
    with Pair ladder [OF assms(1)] ladder [of "st\<lparr>ts_cache := c'\<rparr>"] target show ?thesis
      by (auto simp: negotiate_def Let_def split: sum.split option.split)
  qed
qed (use assms in \<open>simp add: negotiate_def\<close>)

lemma apply_keeps_cache [simp]: "ts_cache (snd (apply_negotiated N cfg neg st)) = ts_cache st"
  by (simp add: apply_negotiated_def split: sum.split)

lemma prepare_keeps_cache [simp]:
  "ts_cache (snd (prepare_ews_tls N cfg force st)) = ts_cache (snd (negotiate N cfg force st))"
proof -
  have "ts_cache s' = ts_cache s" if "apply_negotiated N cfg neg s = (r, s')" for neg r s s'
    using apply_keeps_cache [of N cfg neg s] that by simp
  then show ?thesis by (auto simp: prepare_ews_tls_def split: prod.split sum.split)
qed

text \<open>
  What can happen to the state: preparing or invalidating for some configuration under some
  state of the network, and a restart, which leaves the file.
\<close>

inductive tls_step :: "tls_state \<Rightarrow> tls_state \<Rightarrow> bool" where
  Prepare: "plain_host cfg \<Longrightarrow> tls_step st (snd (prepare_ews_tls N cfg force st))"
| Negotiate: "plain_host cfg \<Longrightarrow> tls_step st (snd (negotiate N cfg force st))"
| Invalidate: "tls_step st (snd (invalidate_ews_tls cfg st))"
| Restart: "tls_step st \<lparr>ts_cache = clear_memory (ts_cache st), ts_adapter = None\<rparr>"

inductive_cases tls_stepE: "tls_step st st'"

inductive tls_reachable :: "tls_state \<Rightarrow> bool" where
  Start: "tls_reachable (start_tls None)"
| Step: "tls_reachable st \<Longrightarrow> tls_step st st' \<Longrightarrow> tls_reachable st'"

lemma cache_ok_step [keep_inv]: "tls_step st st' \<Longrightarrow> cache_ok (ts_cache st) \<Longrightarrow> cache_ok (ts_cache st')"
  by (erule tls_stepE)
    (auto simp: invalidate_ews_tls_def split: sum.split intro!: keep_inv)

lemma cache_ok_reachable: "tls_reachable st \<Longrightarrow> cache_ok (ts_cache st)"
proof (induction rule: tls_reachable.induct)
  case Start
  show ?case by (simp add: start_tls_def cache_ok_def load_store_def)
next
  case (Step st st')
  then show ?case by (blast intro: cache_ok_step)
qed

lemma negotiated_in_ladder:
  assumes "cache_ok (ts_cache st)" "plain_host cfg" "tls_target cfg = Inr (host, port, mode, key)"
    and "negotiate N cfg force st = (Inr neg, st')"
  shows "neg_profile neg \<in> set (ladder_for_mode mode)"
proof -
  have "neg_profile neg \<in> set (ladder_for_mode mode)"
    if hit: "cached_profile (ts_cache st) key = Some (neg_profile neg)"
  proof -
    obtain v where v: "cached_value (ts_cache st) key = Some v"
      "(case profile_of_json v of Inl _ \<Rightarrow> None | Inr p \<Rightarrow> Some p) = Some (neg_profile neg)"
      using hit by (auto simp: cached_profile_def bind_eq_Some_conv)
    then have "profile_of_json v = Inr (neg_profile neg)" by (simp split: sum.splits)
    note v = v(1) this
    obtain h p m ca t q where e: "key = cache_key h p (mode_value m) ca t" "124 \<notin> set (lower h)"
      "v = JStr (profile_value q)" "q \<in> set (ladder_for_mode m)"
      using cached_value_ok [OF assms(1) v(1)] by (auto simp: entry_ok_def)
    have "mode = m"
    proof (rule cache_key_mode)
      show "cache_key host port (mode_value mode) (ca_file cfg) (trust_self_signed cfg) =
          cache_key h p (mode_value m) ca t"
        using tls_target_key [OF assms(3)] e(1) by simp
    qed (use e(2) assms(2,3) in \<open>auto simp: plain_host_def\<close>)
    with e v show ?thesis by simp
  qed
  with negotiate_in_ladder [OF assms(4,3)] show ?thesis by blast
qed

text \<open>
  C36. No cached entry ever weakens the policy of the operator. In whatever state the process
  got into from an empty cache, by negotiations, invalidations and restarts for any servers: a
  server configured \<open>modern\<close> is prepared with the MODERN profile, the adapter installed for it
  refuses anything below TLS 1.2, and it verifies the certificate unless told not to.
\<close>

theorem modern_mode_never_downgraded:
  assumes "tls_reachable st" "plain_host cfg" "tls_mode cfg = lit ''modern''"
    and "prepare_ews_tls N cfg force st = (Inr neg, st')"
  shows "neg_profile neg = MODERN \<and> (\<exists>ctx. ts_adapter st' = Some ctx \<and> ctx_min ctx = Some TLSv1_2
    \<and> (verify_mode ctx = CERT_NONE) = trust_self_signed cfg)"
proof -
  obtain st1 where neg: "negotiate N cfg force st = (Inr neg, st1)"
    and ap: "apply_negotiated N cfg neg st1 = (Inr (), st')"
    using assms(4) by (auto simp: prepare_ews_tls_def split: prod.splits sum.splits)
  obtain host port mode key where target: "tls_target cfg = Inr (host, port, mode, key)"
    using neg by (auto simp: negotiate_def split: sum.splits)
  have "mode = MODERN_MODE" using tls_target_key [OF target] assms(3) by (cases mode) auto
  with negotiated_in_ladder [OF cache_ok_reachable [OF assms(1)] assms(2) target neg]
  have modern: "neg_profile neg = MODERN" by (simp add: ladder_for_mode_def)
  then obtain ctx where ctx:
    "build_ssl_context N (profile_of MODERN) (ca_file cfg) (trust_self_signed cfg) = Inr ctx"
    "ts_adapter st' = Some ctx"
    using ap by (auto simp: apply_negotiated_def split: sum.splits)
  with modern context_bounds [OF ctx(1)] context_trust [OF ctx(1)] show ?thesis by (auto split: if_splits)
qed

text \<open>A network that speaks TLS 1.2.\<close>

definition new_network :: network where
  "new_network = old_network\<lparr>handshake := \<lambda>ctx host port. Inr (lit ''TLSv1.2'')\<rparr>"

theorem modern_mode_never_downgraded_witness:
  "\<exists>neg st'. prepare_ews_tls new_network (sample_tls\<lparr>tls_mode := lit ''modern''\<rparr>) False
      (start_tls None) = (Inr neg, st') \<and> neg_profile neg = MODERN"
proof -
  let ?cfg = "sample_tls\<lparr>tls_mode := lit ''modern''\<rparr>"
  let ?key = "cache_key (lit ''mail.example.com'') 443 (lit ''modern'') None False"
  have target: "tls_target ?cfg = Inr (lit ''mail.example.com'', 443, MODERN_MODE, ?key)"
    using parse_mode_value [of MODERN_MODE]
    by (simp add: tls_target_def sample_tls_def sample_endpoint trust_args_def)
  have plain: "plain_host ?cfg"
    by (simp add: plain_host_def target sample_host)
  have "\<exists>ctx. build_ssl_context new_network (profile_of MODERN) (ca_file ?cfg) (trust_self_signed ?cfg) = Inr ctx"
    by (simp add: build_ssl_context_def sample_tls_def Let_def)
  then obtain ctx where ctx: "build_ssl_context new_network (profile_of MODERN) (ca_file ?cfg)
      (trust_self_signed ?cfg) = Inr ctx" by blast
  have miss: "get_cached ?key (ts_cache (start_tls None)) = (Inr None, ts_cache (start_tls None))"
    by (simp add: get_cached_def start_tls_def load_store_def)
  have "\<exists>neg st'. prepare_ews_tls new_network ?cfg False (start_tls None) = (Inr neg, st')"
    using ctx by (simp add: prepare_ews_tls_def negotiate_def target miss probe_ladder_def
        ladder_for_mode_def probe_profile_def new_network_def apply_negotiated_def del: profile_of.simps)
  then obtain neg st' where run: "prepare_ews_tls new_network ?cfg False (start_tls None) = (Inr neg, st')"
    by blast
  with modern_mode_never_downgraded [OF Start plain _ run] show ?thesis by simp
qed

end
