(* ===== verification/Ews_Client.thy ===== *)
theory Ews_Client
  imports Tls_Negotiate Secret_Box
begin

section \<open>The Exchange client (ews/mailbox.py, ews/account\_cache.py, ews/client.py)\<close>

text \<open>
  \<open>send_mime\<close> builds an Exchange account and message out of one queued mail and sends it, with
  one TLS renegotiation when the failure looks like one. What the libraries do is in the record
  \<open>mail_lib\<close>: \<open>email.utils.parseaddr\<close>, the MIME parser (\<open>None\<close> is no case: it never fails),
  the decoding of a payload by its charset; and in \<open>exchange\<close>: what exchangelib answers when an
  account is made and when a message is sent. A MIME message is the list of the parts its
  \<open>walk\<close> visits. The state is the TLS state, the account cache of the thread, and, for the
  statements, what was handed to exchangelib: the TLS context in force, account, message, and
  the exception it ended with, if any.
\<close>

subsection \<open>Mailbox addresses\<close>

definition looks_like_email :: "(pystr \<Rightarrow> pystr) \<Rightarrow> pystr \<Rightarrow> bool" where
  "looks_like_email parse v =
     (let addr = strip (if parse v \<noteq> [] then parse v else v)
      in 64 \<in> set addr \<and> 32 \<notin> set addr \<and> \<not> endswith addr (lit ''@localhost''))"

text \<open>The loop over the candidates; \<open>parse\<close> is the second component of \<open>parseaddr\<close>.\<close>

fun first_mailbox :: "(pystr \<Rightarrow> pystr) \<Rightarrow> pystr option list \<Rightarrow> pystr option" where
  "first_mailbox parse [] = None"
| "first_mailbox parse (raw # rest) =
     (if \<not> truthy raw then first_mailbox parse rest
      else (let s = or_empty raw; addr = strip (if parse s \<noteq> [] then parse s else s)
            in if looks_like_email parse addr then Some addr else first_mailbox parse rest))"

definition mailbox_candidates ::
    "pystr \<Rightarrow> pystr option \<Rightarrow> ews_config \<Rightarrow> pystr option \<Rightarrow> pystr option list" where
  "mailbox_candidates username mail_from cfg dflt_sender =
     [primary_smtp cfg, dflt_sender, mail_from,
      if 64 \<in> set username then Some username else None,
      if truthy (ews_username cfg) \<and> 64 \<in> set (or_empty (ews_username cfg)) then ews_username cfg
      else None]"

definition resolve_primary_smtp ::
    "(pystr \<Rightarrow> pystr) \<Rightarrow> pystr \<Rightarrow> pystr option \<Rightarrow> ews_config \<Rightarrow> pystr option \<Rightarrow> pystr res" where
  "resolve_primary_smtp parse username mail_from cfg dflt_sender =
     (case first_mailbox parse (mailbox_candidates username mail_from cfg dflt_sender) of
        Some addr \<Rightarrow> Inr addr
      | None \<Rightarrow> Inl (Exn ValueError (lit
          (''cannot resolve mailbox SMTP address for EWS; set MSGATE_EWS_PRIMARY_SMTP ''
           @ ''or MSGATE_DEFAULT_SENDER, or AUTH with user@domain, or send a valid From address''))))"

subsection \<open>Accounts and their cache\<close>

datatype wire_auth = WIRE_BASIC | WIRE_NTLM

definition wire_auth_of :: "ews_config \<Rightarrow> wire_auth" where
  "wire_auth_of cfg = (if ews_auth cfg = BASIC then WIRE_BASIC else WIRE_NTLM)"

record account =
  acc_endpoint :: pystr
  acc_username :: pystr
  acc_password :: pystr
  acc_primary :: pystr
  acc_auth :: wire_auth

type_synonym account_key = "pystr \<times> pystr \<times> pystr \<times> pystr \<times> wire_auth"
type_synonym account_store = "(account_key \<times> account) list"

definition account_key :: "pystr \<Rightarrow> pystr \<Rightarrow> ews_config \<Rightarrow> pystr \<Rightarrow> account_key" where
  "account_key username password cfg primary =
     (server_url cfg, username, password, primary, wire_auth_of cfg)"

definition cache_get :: "account_store \<Rightarrow> account_key \<Rightarrow> account option" where
  "cache_get accounts key = map_of accounts key"

definition cache_put :: "account_key \<Rightarrow> account \<Rightarrow> account_store \<Rightarrow> account_store" where
  "cache_put key acc accounts = AList.update key acc accounts"

definition cache_invalidate :: "pystr option \<Rightarrow> account_store \<Rightarrow> account_store" where
  "cache_invalidate username accounts =
     (case username of None \<Rightarrow> []
      | Some u \<Rightarrow> filter (\<lambda>((_, user, _), _). user \<noteq> u) accounts)"

interpretation accounts: kv_store cache_get cache_put
  by unfold_locales (simp add: cache_get_def cache_put_def)

subsection \<open>Messages\<close>

record mime_part =
  content_type :: pystr
  filename :: "pystr option"
  disposition :: "pystr option"
  payload :: "bytes option"
  charset :: "pystr option"

record mime_message =
  msg_subject :: "pystr option"
  msg_from :: "pystr option"
  is_multipart :: bool
  msg_parts :: "mime_part list"

record mail_lib =
  parse_addr :: "pystr \<Rightarrow> pystr"
  parse_mime :: "bytes \<Rightarrow> mime_message"
  decode_charset :: "pystr \<Rightarrow> bytes \<Rightarrow> pystr res"

datatype ews_body = Html_Body pystr | Text_Body pystr

record attachment =
  att_name :: pystr
  att_content :: bytes
  att_type :: pystr

record ews_message =
  em_subject :: pystr
  em_body :: ews_body
  em_to :: "pystr list"
  em_author :: "pystr option"
  em_attachments :: "attachment list"
  em_in_drafts :: bool

definition recipients_from_envelope :: "mail_lib \<Rightarrow> pystr list \<Rightarrow> pystr list" where
  "recipients_from_envelope L rcpts =
     filter (\<lambda>a. a \<noteq> []) (map (\<lambda>r. if parse_addr L r \<noteq> [] then parse_addr L r else r) rcpts)"

definition is_body_part :: "mime_part \<Rightarrow> bool" where
  "is_body_part p \<longleftrightarrow> content_type p \<in> {lit ''text/plain'', lit ''text/html''}
     \<and> \<not> (truthy (filename p) \<or> contains (lit ''attachment'') (lower (or_empty (disposition p))))"

definition is_multipart_part :: "mime_part \<Rightarrow> bool" where
  "is_multipart_part p \<longleftrightarrow> fst (partition_at 47 (content_type p)) = lit ''multipart''"

definition part_attachment :: "mime_part \<Rightarrow> attachment list" where
  "part_attachment p =
     (if is_multipart_part p \<or> is_body_part p then []
      else case payload p of
          None \<Rightarrow> []
        | Some [] \<Rightarrow> []
        | Some bs \<Rightarrow> [\<lparr>att_name = (if truthy (filename p) then or_empty (filename p)
                                    else lit ''attachment''),
                      att_content = bs,
                      att_type = (if content_type p \<noteq> [] then content_type p
                                  else lit ''application/octet-stream'')\<rparr>])"

definition mime_file_attachments :: "mime_message \<Rightarrow> attachment list" where
  "mime_file_attachments m = concat (map part_attachment (msg_parts m))"

definition part_text :: "mail_lib \<Rightarrow> mime_part \<Rightarrow> pystr res" where
  "part_text L p = decode_charset L
     (if truthy (charset p) then or_empty (charset p) else lit ''utf-8'')
     (case payload p of None \<Rightarrow> [] | Some bs \<Rightarrow> bs)"

text \<open>The walk over the parts of a multipart message: text so far, HTML once found.\<close>

fun walk_bodies ::
    "mail_lib \<Rightarrow> mime_part list \<Rightarrow> pystr \<Rightarrow> pystr option \<Rightarrow> (pystr \<times> pystr option) res" where
  "walk_bodies L [] text html = Inr (text, html)"
| "walk_bodies L (p # ps) text html =
     (if \<not> is_body_part p then walk_bodies L ps text html
      else if content_type p = lit ''text/html'' \<and> html = None
      then bindE (part_text L p) (\<lambda>t. walk_bodies L ps text (Some t))
      else if content_type p = lit ''text/plain'' \<and> text = []
      then bindE (part_text L p) (\<lambda>t. walk_bodies L ps t html)
      else walk_bodies L ps text html)"

definition message_bodies :: "mail_lib \<Rightarrow> mime_message \<Rightarrow> (pystr \<times> pystr option) res" where
  "message_bodies L m =
     (if is_multipart m then walk_bodies L (msg_parts m) [] None
      else bindE (part_text L (hd (msg_parts m))) (\<lambda>t.
        Inr (if content_type (hd (msg_parts m)) = lit ''text/html'' then ([], Some t) else (t, None))))"

definition build_ews_message ::
    "mail_lib \<Rightarrow> pystr \<Rightarrow> pystr list \<Rightarrow> bytes \<Rightarrow> ews_message res" where
  "build_ews_message L mail_from rcpt_tos mime =
     (let m = parse_mime L mime;
          from_addr = parse_addr L (if mail_from \<noteq> [] then mail_from else or_empty (msg_from m));
          tos = recipients_from_envelope L rcpt_tos
      in bindE (message_bodies L m) (\<lambda>(text, html).
           if tos = [] then Inl (Exn ValueError (lit ''no recipients''))
           else Inr \<lparr>em_subject = or_empty (msg_subject m),
                  em_body = (case html of Some h \<Rightarrow> Html_Body h | None \<Rightarrow> Text_Body text),
                  em_to = tos,
                  em_author = (if from_addr \<noteq> [] then Some from_addr else None),
                  em_attachments = mime_file_attachments m,
                  em_in_drafts = False\<rparr>))"

subsection \<open>Sending\<close>

record exchange =
  new_account :: "ssl_context option \<Rightarrow> account \<Rightarrow> exn option"
  send_and_save :: "ssl_context option \<Rightarrow> account \<Rightarrow> ews_message
    \<Rightarrow> (pystr option \<times> pystr option) res"

record ews_state =
  es_tls :: tls_state
  es_accounts :: account_store
  es_handed :: "(ssl_context option \<times> account \<times> ews_message \<times> exn option) list"

definition build_account ::
    "network \<Rightarrow> exchange \<Rightarrow> mail_lib \<Rightarrow> pystr \<Rightarrow> pystr \<Rightarrow> ews_config \<Rightarrow> pystr option \<Rightarrow> pystr option
      \<Rightarrow> ews_state \<Rightarrow> account res \<times> ews_state" where
  "build_account N X L username password cfg mail_from dflt_sender st =
     (if server_url cfg = [] then (Inl (Exn ValueError (lit ''EWS server_url is required'')), st)
      else case prepare_ews_tls N cfg False (es_tls st) of
        (Inl e, tls) \<Rightarrow> (Inl e, st\<lparr>es_tls := tls\<rparr>)
      | (Inr _, tls) \<Rightarrow>
          (let st1 = st\<lparr>es_tls := tls\<rparr>
           in case resolve_primary_smtp (parse_addr L) username mail_from cfg dflt_sender of
                Inl e \<Rightarrow> (Inl e, st1)
              | Inr primary \<Rightarrow>
                  (let key = account_key username password cfg primary
                   in case cache_get (es_accounts st1) key of
                        Some acc \<Rightarrow> (Inr acc, st1)
                      | None \<Rightarrow>
                          (let acc = \<lparr>acc_endpoint = server_url cfg, acc_username = username,
                                 acc_password = password, acc_primary = primary,
                                 acc_auth = wire_auth_of cfg\<rparr>
                           in case new_account X (ts_adapter tls) acc of
                                Some e \<Rightarrow> (Inl e, st1)
                              | None \<Rightarrow> (Inr acc,
                                  st1\<lparr>es_accounts := cache_put key acc (es_accounts st1)\<rparr>)))))"

record send_request =
  auth_username :: pystr
  auth_password :: pystr
  mail_from :: pystr
  rcpt_tos :: "pystr list"
  mime_bytes :: bytes
  req_default_sender :: "pystr option"

record send_result =
  message_id :: "pystr option"
  changekey :: "pystr option"
  result_driver :: "pystr option"

text \<open>What an attempt does first when it is told to reprobe.\<close>

definition reprobe :: "network \<Rightarrow> ews_config \<Rightarrow> send_request \<Rightarrow> ews_state \<Rightarrow> unit res \<times> ews_state" where
  "reprobe N cfg req st =
     (case invalidate_ews_tls cfg (es_tls st) of
        (Inl e, tls) \<Rightarrow> (Inl e, st\<lparr>es_tls := tls\<rparr>)
      | (Inr _, tls) \<Rightarrow>
          (let st1 = st\<lparr>es_tls := tls,
                 es_accounts := cache_invalidate (Some (auth_username req)) (es_accounts st)\<rparr>
           in case prepare_ews_tls N cfg True (es_tls st1) of
                (Inl e, tls') \<Rightarrow> (Inl e, st1\<lparr>es_tls := tls'\<rparr>)
              | (Inr _, tls') \<Rightarrow> (Inr (), st1\<lparr>es_tls := tls'\<rparr>)))"

definition hand_over ::
    "exchange \<Rightarrow> account \<Rightarrow> ews_message \<Rightarrow> ews_state \<Rightarrow> send_result res \<times> ews_state" where
  "hand_over X acc msg st =
     (let msg' = (if em_attachments msg \<noteq> [] then msg\<lparr>em_in_drafts := True\<rparr> else msg);
          tls = ts_adapter (es_tls st);
          note = (\<lambda>e. st\<lparr>es_handed := es_handed st @ [(tls, acc, msg', e)]\<rparr>)
      in case send_and_save X tls acc msg' of
           Inl e \<Rightarrow> (Inl e, note (Some e))
         | Inr (mid, ck) \<Rightarrow>
             (Inr \<lparr>message_id = mid, changekey = ck, result_driver = None\<rparr>, note None))"

definition attempt ::
    "network \<Rightarrow> exchange \<Rightarrow> mail_lib \<Rightarrow> ews_config \<Rightarrow> send_request \<Rightarrow> pystr option \<Rightarrow> bool
      \<Rightarrow> ews_state \<Rightarrow> send_result res \<times> ews_state" where
  "attempt N X L cfg req dflt_sender force_reprobe st =
     (case (if force_reprobe then reprobe N cfg req st else (Inr (), st)) of
        (Inl e, st2) \<Rightarrow> (Inl e, st2)
      | (Inr _, st2) \<Rightarrow>
          (case build_account N X L (auth_username req) (auth_password req) cfg
                  (Some (mail_from req)) dflt_sender st2 of
             (Inl e, st3) \<Rightarrow> (Inl e, st3)
           | (Inr acc, st3) \<Rightarrow>
               (case build_ews_message L (mail_from req) (rcpt_tos req) (mime_bytes req) of
                  Inl e \<Rightarrow> (Inl e, st3)
                | Inr msg \<Rightarrow> hand_over X acc msg st3)))"

text \<open>The network and the server may have changed when the second attempt is made.\<close>

definition send_mime ::
    "network \<times> network \<Rightarrow> exchange \<times> exchange \<Rightarrow> mail_lib \<Rightarrow> ews_config \<Rightarrow> send_request
      \<Rightarrow> pystr option \<Rightarrow> ews_state \<Rightarrow> send_result res \<times> ews_state" where
  "send_mime N X L cfg req dflt_sender st =
     (case attempt (fst N) (fst X) L cfg req dflt_sender False st of
        (Inr r, st') \<Rightarrow> (Inr r, st')
      | (Inl e, st') \<Rightarrow>
          if \<not> is_tls_failure e then (Inl e, st')
          else attempt (snd N) (snd X) L cfg req dflt_sender True st')"

subsection \<open>Which mailbox\<close>

text \<open>The address a candidate stands for.\<close>

definition candidate_address :: "(pystr \<Rightarrow> pystr) \<Rightarrow> pystr option \<Rightarrow> pystr" where
  "candidate_address parse raw =
     (let s = or_empty raw in strip (if parse s \<noteq> [] then parse s else s))"

definition usable :: "(pystr \<Rightarrow> pystr) \<Rightarrow> pystr option \<Rightarrow> bool" where
  "usable parse raw \<longleftrightarrow> truthy raw \<and> looks_like_email parse (candidate_address parse raw)"

lemma first_mailbox_find:
  "first_mailbox parse cs = map_option (candidate_address parse) (find (usable parse) cs)"
  by (induction cs) (auto simp: usable_def candidate_address_def Let_def)

text \<open>
  The account is opened for the first usable candidate: the operator's primary SMTP
  address, else the default sender, else the envelope sender, else the login names that hold
  an at sign; ValueError is raised exactly when none of them is usable.
\<close>

lemma resolve_primary_smtp_order:
  "resolve_primary_smtp parse username from cfg dflt = Inr addr \<longleftrightarrow>
     (\<exists>pre c post. mailbox_candidates username from cfg dflt = pre @ c # post
        \<and> \<not> list_ex (usable parse) pre \<and> usable parse c \<and> addr = candidate_address parse c)"
  (is "?lhs \<longleftrightarrow> ?rhs")
proof -
  have "?lhs \<longleftrightarrow> (\<exists>c. find (usable parse) (mailbox_candidates username from cfg dflt) = Some c
      \<and> addr = candidate_address parse c)"
    by (auto simp: resolve_primary_smtp_def first_mailbox_find split: option.splits)
  also have "\<dots> \<longleftrightarrow> ?rhs"
    unfolding find_split by blast
  finally show ?thesis .
qed

subsection \<open>What is handed to Exchange\<close>

lemma prepare_sets_adapter:
  assumes "prepare_ews_tls N cfg force st = (Inr neg, st')"
  shows "\<exists>ctx. ts_adapter st' = Some ctx \<and> (verify_mode ctx = CERT_NONE) = trust_self_signed cfg"
proof -
  obtain st1 ctx where ctx:
    "build_ssl_context N (profile_of (neg_profile neg)) (ca_file cfg) (trust_self_signed cfg) = Inr ctx"
    "st' = st1\<lparr>ts_adapter := Some ctx\<rparr>"
    using assms by (auto simp: prepare_ews_tls_def apply_negotiated_def split: prod.splits sum.splits)
  with context_trust [OF ctx(1)] show ?thesis by (auto split: if_splits)
qed

lemma build_account_handed [simp]:
  "build_account N X L u p cfg mf ds st = (r, st') \<Longrightarrow> es_handed st' = es_handed st"
  by (auto simp: build_account_def Let_def split: prod.splits sum.splits option.splits if_splits)

definition account_for :: "ews_config \<Rightarrow> send_request \<Rightarrow> account \<Rightarrow> bool" where
  "account_for cfg req acc \<longleftrightarrow> acc_endpoint acc = server_url cfg
     \<and> acc_username acc = auth_username req \<and> acc_password acc = auth_password req"

text \<open>The invariant of the account cache: an account is filed under its own key.\<close>

definition store_ok :: "account_store \<Rightarrow> bool" where
  "store_ok accounts \<longleftrightarrow> (\<forall>k acc. cache_get accounts k = Some acc \<longrightarrow>
     k = (acc_endpoint acc, acc_username acc, acc_password acc, acc_primary acc, acc_auth acc))"

lemma store_ok_put [keep_inv]:
  "store_ok accounts \<Longrightarrow>
   store_ok (cache_put (acc_endpoint acc, acc_username acc, acc_password acc, acc_primary acc, acc_auth acc)
     acc accounts)"
  by (auto simp: store_ok_def accounts.lookup_put split: if_splits)

lemma cache_get_invalidate:
  "cache_get (cache_invalidate u accounts) k =
    (case u of None \<Rightarrow> None | Some name \<Rightarrow> if fst (snd k) = name then None else cache_get accounts k)"
proof (cases u)
  case (Some name)
  have "map_of (filter (\<lambda>((_, user, _), _). user \<noteq> name) accounts) k =
      (if fst (snd k) = name then None else map_of accounts k)"
    by (induction accounts) auto
  with Some show ?thesis by (simp add: cache_get_def cache_invalidate_def)
qed (simp add: cache_get_def cache_invalidate_def)

lemma store_ok_invalidate [keep_inv]: "store_ok accounts \<Longrightarrow> store_ok (cache_invalidate u accounts)"
  by (auto simp: store_ok_def cache_get_invalidate split: option.splits if_splits)

lemma build_account_cases:
  assumes "build_account N X L u pw cfg mf ds st = (r, st')"
  obtains (failed) e where "r = Inl e" "es_accounts st' = es_accounts st"
  | (cached) acc primary neg tls where "r = Inr acc" "es_accounts st' = es_accounts st"
      "prepare_ews_tls N cfg False (es_tls st) = (Inr neg, tls)" "es_tls st' = tls"
      "cache_get (es_accounts st) (account_key u pw cfg primary) = Some acc"
  | (fresh) acc primary neg tls where "r = Inr acc"
      "es_accounts st' = cache_put (account_key u pw cfg primary) acc (es_accounts st)"
      "prepare_ews_tls N cfg False (es_tls st) = (Inr neg, tls)" "es_tls st' = tls"
      "acc = \<lparr>acc_endpoint = server_url cfg, acc_username = u, acc_password = pw,
         acc_primary = primary, acc_auth = wire_auth_of cfg\<rparr>"
proof (cases "server_url cfg = []")
  case False
  show thesis
  proof (cases "prepare_ews_tls N cfg False (es_tls st)")
    case (Pair res tls)
    show thesis
    proof (cases res)
      case (Inl e)
      with Pair False assms show thesis by (intro failed) (auto simp: build_account_def)
    next
      case (Inr neg)
      show thesis
      proof (cases "resolve_primary_smtp (parse_addr L) u mf cfg ds")
        case (Inl e)
        with Pair Inr False assms show thesis
          by (intro failed) (auto simp: build_account_def)
      next
        case primary: (Inr primary)
        show thesis
        proof (cases "cache_get (es_accounts st) (account_key u pw cfg primary)")
          case (Some acc)
          with Pair Inr primary False assms show thesis
            by (intro cached [of acc neg tls primary]) (auto simp: build_account_def)
        next
          case None
          let ?acc = "\<lparr>acc_endpoint = server_url cfg, acc_username = u, acc_password = pw,
            acc_primary = primary, acc_auth = wire_auth_of cfg\<rparr>"
          show thesis
          proof (cases "new_account X (ts_adapter tls) ?acc")
            case new: None
            with None Pair Inr primary False assms show thesis
              by (intro fresh [of ?acc primary neg tls]) (auto simp: build_account_def Let_def)
          next
            case (Some e)
            with None Pair Inr primary False assms show thesis
              by (intro failed) (auto simp: build_account_def Let_def)
          qed
        qed
      qed
    qed
  qed
qed (use assms in \<open>auto simp: build_account_def intro: failed\<close>)

lemma build_account_ok:
  assumes "build_account N X L (auth_username req) (auth_password req) cfg mf ds st = (r, st')"
    and "store_ok (es_accounts st)"
  shows "store_ok (es_accounts st') \<and> (\<forall>acc. r = Inr acc \<longrightarrow> account_for cfg req acc
      \<and> (\<exists>ctx. ts_adapter (es_tls st') = Some ctx \<and> (verify_mode ctx = CERT_NONE) = trust_self_signed cfg))"
  using assms(1)
proof (cases rule: build_account_cases)
  case (cached acc primary neg tls)
  with assms(2) prepare_sets_adapter [OF cached(3)] show ?thesis
    by (auto simp: store_ok_def account_for_def account_key_def)
next
  case (fresh acc primary neg tls)
  with store_ok_put [OF assms(2), of acc] prepare_sets_adapter [OF fresh(3)] show ?thesis
    by (simp add: account_for_def account_key_def)
qed (use assms(2) in simp)

text \<open>What is saved is the translated mail, first in the drafts folder when it has attachments.\<close>

definition as_saved :: "ews_message \<Rightarrow> ews_message" where
  "as_saved msg = (if em_attachments msg \<noteq> [] then msg\<lparr>em_in_drafts := True\<rparr> else msg)"

definition translated :: "mail_lib \<Rightarrow> send_request \<Rightarrow> ews_message \<Rightarrow> bool" where
  "translated L req msg \<longleftrightarrow> (case build_ews_message L (mail_from req) (rcpt_tos req) (mime_bytes req) of
     Inl _ \<Rightarrow> False | Inr m \<Rightarrow> msg = as_saved m)"

text \<open>
  One message handed over: the translated mail, for the right server, user and recipients, under
  a trusted context.
\<close>

definition handed_ok :: "mail_lib \<Rightarrow> ews_config \<Rightarrow> send_request
    \<Rightarrow> ssl_context option \<times> account \<times> ews_message \<times> exn option \<Rightarrow> bool" where
  "handed_ok L cfg req h \<longleftrightarrow> (case h of (tls, acc, msg, _) \<Rightarrow>
     account_for cfg req acc \<and> translated L req msg \<and> em_to msg = recipients_from_envelope L (rcpt_tos req) \<and> em_to msg \<noteq> []
     \<and> em_in_drafts msg = (em_attachments msg \<noteq> [])
     \<and> (\<exists>ctx. tls = Some ctx \<and> (verify_mode ctx = CERT_NONE) = trust_self_signed cfg))"

definition handed_outcome :: "ssl_context option \<times> account \<times> ews_message \<times> exn option \<Rightarrow> exn option" where
  "handed_outcome h = snd (snd (snd h))"

definition succeeded :: "'a res \<Rightarrow> bool" where
  "succeeded r \<longleftrightarrow> (case r of Inl _ \<Rightarrow> False | Inr _ \<Rightarrow> True)"

lemma succeeded_simps [simp]: "\<not> succeeded (Inl e)" "succeeded (Inr x)"
  by (simp_all add: succeeded_def)

lemma build_ews_message_to:
  "build_ews_message L mf rcpts mime = Inr msg \<Longrightarrow>
   em_to msg = recipients_from_envelope L rcpts \<and> em_to msg \<noteq> [] \<and> \<not> em_in_drafts msg"
  by (auto simp: build_ews_message_def Let_def bindE_Inr_iff split: if_splits)

lemma reprobe_keeps:
  "reprobe N cfg req st = (r, st') \<Longrightarrow> store_ok (es_accounts st) \<Longrightarrow>
   es_handed st' = es_handed st \<and> store_ok (es_accounts st')"
  by (auto simp: reprobe_def Let_def intro: store_ok_invalidate split: prod.splits sum.splits)

text \<open>What one attempt hands over, and what its result says of it.\<close>

definition attempt_spec :: "mail_lib \<Rightarrow> ews_config \<Rightarrow> send_request \<Rightarrow> ews_state \<Rightarrow> send_result res
    \<Rightarrow> ews_state \<Rightarrow> bool" where
  "attempt_spec L cfg req st r st' \<longleftrightarrow> store_ok (es_accounts st') \<and>
     (es_handed st' = es_handed st \<and> \<not> succeeded r
      \<or> (\<exists>h. es_handed st' = es_handed st @ [h] \<and> handed_ok L cfg req h
           \<and> handed_outcome h = (case r of Inl e \<Rightarrow> Some e | Inr _ \<Rightarrow> None)))"

lemma attempt_unforced:
  assumes "attempt N X L cfg req ds False st = (r, st')" "store_ok (es_accounts st)"
  shows "attempt_spec L cfg req st r st'"
proof (cases "build_account N X L (auth_username req) (auth_password req) cfg (Some (mail_from req)) ds st")
  case (Pair res st3)
  note acc = build_account_ok [OF Pair assms(2)] and handed = build_account_handed [OF Pair]
  show ?thesis
  proof (cases res)
    case (Inl e)
    with assms Pair acc handed show ?thesis by (auto simp: attempt_def attempt_spec_def)
  next
    case (Inr a)
    show ?thesis
    proof (cases "build_ews_message L (mail_from req) (rcpt_tos req) (mime_bytes req)")
      case (Inl e)
      with assms Pair acc handed Inr show ?thesis by (auto simp: attempt_def attempt_spec_def)
    next
      case msg: (Inr m)
      with assms Pair Inr have "hand_over X a m st3 = (r, st')" by (simp add: attempt_def)
      moreover have "em_attachments m \<noteq> [] \<Longrightarrow> translated L req (m\<lparr>em_in_drafts := True\<rparr>)"
        "em_attachments m = [] \<Longrightarrow> translated L req m"
        using msg by (simp_all add: translated_def as_saved_def)
      moreover note acc handed Inr build_ews_message_to [OF msg]
      ultimately show ?thesis
        by (auto simp: hand_over_def Let_def attempt_spec_def handed_ok_def handed_outcome_def
            split: sum.splits if_splits)
    qed
  qed
qed

lemma attempt_meets_spec:
  assumes "attempt N X L cfg req ds force st = (r, st')" "store_ok (es_accounts st)"
  shows "attempt_spec L cfg req st r st'"
proof (cases force)
  case True
  obtain res st2 where re: "reprobe N cfg req st = (res, st2)" by fastforce
  note keep = reprobe_keeps [OF re assms(2)]
  show ?thesis
  proof (cases res)
    case (Inl e)
    with assms True re keep show ?thesis by (auto simp: attempt_def attempt_spec_def)
  next
    case (Inr u)
    with assms True re have "attempt N X L cfg req ds False st2 = (r, st')" by (simp add: attempt_def)
    from attempt_unforced [OF this] keep show ?thesis by (simp add: attempt_spec_def)
  qed
qed (use attempt_unforced assms in simp)

text \<open>What a whole send hands over: only the last hand-over can have been accepted.\<close>

definition send_spec :: "mail_lib \<Rightarrow> ews_config \<Rightarrow> send_request \<Rightarrow> ews_state \<Rightarrow> send_result res
    \<Rightarrow> ews_state \<Rightarrow> (ssl_context option \<times> account \<times> ews_message \<times> exn option) list \<Rightarrow> bool" where
  "send_spec L cfg req st r st' hs \<longleftrightarrow> store_ok (es_accounts st') \<and> es_handed st' = es_handed st @ hs
     \<and> list_all (handed_ok L cfg req) hs
     \<and> (length hs \<le> 1 \<or> length hs = 2 \<and> (\<exists>e. handed_outcome (hd hs) = Some e \<and> is_tls_failure e))
     \<and> succeeded r = (hs \<noteq> [] \<and> handed_outcome (last hs) = None)
     \<and> list_all (\<lambda>h. handed_outcome h \<noteq> None) (butlast hs)"

lemma send_specD:
  assumes "send_spec L cfg req st r st' hs"
  shows "store_ok (es_accounts st')" "es_handed st' = es_handed st @ hs"
    "list_all (handed_ok L cfg req) hs" "length hs \<le> 2"
    "succeeded r = (hs \<noteq> [] \<and> handed_outcome (last hs) = None)"
    "list_all (\<lambda>h. handed_outcome h \<noteq> None) (butlast hs)"
  using assms unfolding send_spec_def by (elim conjE disjE; simp)+

lemma send_spec_last: "send_spec L cfg req st r st' hs \<Longrightarrow> hs \<noteq> [] \<Longrightarrow> handed_ok L cfg req (last hs)"
  using send_specD(3) [of L cfg req st r st' hs] by (simp add: list_all_iff)

lemma send_spec_failed:
  assumes "send_spec L cfg req st r st' hs" "\<not> succeeded r"
  shows "list_all (\<lambda>h. handed_outcome h \<noteq> None) hs"
  using send_specD(5,6) [OF assms(1)] assms(2) by (cases hs rule: rev_cases) auto

lemma send_mime_spec:
  assumes "send_mime N X L cfg req ds st = (r, st')" "store_ok (es_accounts st)"
  shows "\<exists>hs. send_spec L cfg req st r st' hs"
proof (cases "attempt (fst N) (fst X) L cfg req ds False st")
  case (Pair r1 st1)
  note one = attempt_meets_spec [OF Pair assms(2)]
  show ?thesis
  proof (cases "\<exists>e. r1 = Inl e \<and> is_tls_failure e")
    case False
    then have "r = r1" "st' = st1" using assms(1) Pair by (auto simp: send_mime_def split: sum.splits if_splits)
    with one show ?thesis by (cases r1) (auto simp: attempt_spec_def send_spec_def)
  next
    case True
    then obtain e where e: "r1 = Inl e" "is_tls_failure e" by blast
    then have "attempt (snd N) (snd X) L cfg req ds True st1 = (r, st')"
      using assms(1) Pair by (simp add: send_mime_def)
    from attempt_meets_spec [OF this] one have two: "attempt_spec L cfg req st1 r st'"
      by (simp add: attempt_spec_def)
    from one two e show ?thesis by (cases r) (auto simp: attempt_spec_def send_spec_def)
  qed
qed

text \<open>
  A mail is handed to Exchange at most twice, and a second time only after a failure that
  looks like a TLS one; each time to the configured server, with the login of the request, to
  the recipients of the envelope and nobody else, under a TLS context that verifies the
  server unless the configuration says otherwise. Success is reported exactly when the last
  hand-over succeeded.
\<close>

lemma send_mime_hands_over:
  assumes "send_mime N X L cfg req ds st = (r, st')" "store_ok (es_accounts st)"
  shows "\<exists>hs. es_handed st' = es_handed st @ hs \<and> list_all (handed_ok L cfg req) hs
    \<and> (length hs \<le> 1 \<or> length hs = 2 \<and> (\<exists>e. handed_outcome (hd hs) = Some e \<and> is_tls_failure e))
    \<and> succeeded r = (hs \<noteq> [] \<and> handed_outcome (last hs) = None)"
  using send_mime_spec [OF assms] by (auto simp: send_spec_def)

text \<open>Libraries and a server at which the witnesses are stated.\<close>

definition toy_lib :: mail_lib where
  "toy_lib = \<lparr>parse_addr = (\<lambda>s. s),
     parse_mime = (\<lambda>_. \<lparr>msg_subject = Some (lit ''hi''), msg_from = None, is_multipart = False,
       msg_parts = [\<lparr>content_type = lit ''text/plain'', filename = None, disposition = None,
         payload = Some [65], charset = None\<rparr>]\<rparr>),
     decode_charset = (\<lambda>_ bs. Inr (of_bytes bs))\<rparr>"

definition toy_exchange :: exchange where
  "toy_exchange = \<lparr>new_account = (\<lambda>_ _. None), send_and_save = (\<lambda>_ _ _. Inr (Some (lit ''AAMk''), None))\<rparr>"

definition toy_request :: send_request where
  "toy_request = \<lparr>auth_username = lit ''u@example.com'', auth_password = lit ''pw'',
     mail_from = lit ''a@example.com'', rcpt_tos = [lit ''b@example.com''], mime_bytes = [],
     req_default_sender = None\<rparr>"

definition toy_message :: ews_message where
  "toy_message = \<lparr>em_subject = lit ''hi'', em_body = Text_Body (lit ''A''), em_to = [lit ''b@example.com''],
     em_author = None, em_attachments = [], em_in_drafts = False\<rparr>"

definition start_ews :: ews_state where
  "start_ews = \<lparr>es_tls = start_tls None, es_accounts = [], es_handed = []\<rparr>"

lemma start_ews_simps [simp]: "store_ok []" "es_handed start_ews = []"
    "es_tls start_ews = start_tls None" "es_accounts start_ews = []"
  by (simp_all add: store_ok_def start_ews_def cache_get_def)

lemma send_mime_hands_over_witness:
  "\<exists>r st' hs. send_mime (old_network, new_network) (toy_exchange, toy_exchange) toy_lib sample_tls
      toy_request None start_ews = (r, st') \<and> es_handed st' = hs
    \<and> list_all (handed_ok toy_lib sample_tls toy_request) hs \<and> length hs \<le> 2
    \<and> succeeded r = (hs \<noteq> [] \<and> handed_outcome (last hs) = None)"
proof -
  obtain r st' where run: "send_mime (old_network, new_network) (toy_exchange, toy_exchange) toy_lib
      sample_tls toy_request None start_ews = (r, st')" by fastforce
  have "store_ok (es_accounts start_ews)" by simp
  from send_mime_hands_over [OF run this] obtain hs where hs: "es_handed st' = es_handed start_ews @ hs"
    "list_all (handed_ok toy_lib sample_tls toy_request) hs" "length hs \<le> 2"
    "succeeded r = (hs \<noteq> [] \<and> handed_outcome (last hs) = None)"
    by (elim exE conjE disjE) simp_all
  with run show ?thesis by (intro exI [of _ r] exI [of _ st'] exI [of _ hs]) simp
qed

text \<open>
  The TLS adapter is one for the whole process, while the account caches are per thread:
  when a thread that prepared a verified connection is overtaken by another that prepares a
  server with self-signed certificates (the failover, say), what the first one then hands over
  goes out under a context that verifies nothing.
\<close>

lemma adapter_shared_across_threads:
  assumes "build_account N X L user pw cfg1 mf ds st = (Inr acc, st1)" "\<not> trust_self_signed cfg1"
    and "prepare_ews_tls N cfg2 False (es_tls st1) = (Inr neg, tls2)" "trust_self_signed cfg2"
  shows "\<exists>ctx1 ctx msg' e. ts_adapter (es_tls st1) = Some ctx1 \<and> verify_mode ctx1 = CERT_REQUIRED
    \<and> es_handed (snd (hand_over X acc msg (st1\<lparr>es_tls := tls2\<rparr>))) = es_handed st @ [(Some ctx, acc, msg', e)]
    \<and> verify_mode ctx = CERT_NONE"
proof -
  obtain neg1 where "prepare_ews_tls N cfg1 False (es_tls st) = (Inr neg1, es_tls st1)"
    using assms(1) by (cases rule: build_account_cases) auto
  from prepare_sets_adapter [OF this] assms(2) obtain ctx1 where ctx1:
    "ts_adapter (es_tls st1) = Some ctx1" "verify_mode ctx1 \<noteq> CERT_NONE" by auto
  from prepare_sets_adapter [OF assms(3)] assms(4) obtain ctx where
    "ts_adapter tls2 = Some ctx" "verify_mode ctx = CERT_NONE" by auto
  with ctx1 build_account_handed [OF assms(1)] show ?thesis
    by (cases "verify_mode ctx1") (auto simp: hand_over_def Let_def split: sum.split)
qed

lemma context_new_network: "\<exists>ctx. build_ssl_context new_network (profile_of p) ca t = Inr ctx"
  by (cases p; cases ca) (auto simp: build_ssl_context_def new_network_def old_network_def raising_def Let_def)

lemma prepare_new_network:
  assumes "cache_ok (ts_cache st)" "tls_target cfg = Inr (host, port, mode, key)"
  shows "\<exists>neg st'. prepare_ews_tls new_network cfg False st = (Inr neg, st')"
proof -
  obtain p ps where ladder: "ladder_for_mode mode = p # ps" by (cases mode) (auto simp: ladder_for_mode_def)
  have probe: "\<exists>r. probing new_network cfg host port p = Inr r \<and> probe_ok r" for p
    using context_new_network [of p "ca_file cfg" "trust_self_signed cfg"]
    by (auto simp: probe_profile_def new_network_def)
  obtain cached c' where c: "get_cached key (ts_cache st) = (cached, c')" by fastforce
  have "\<exists>r. cached = Inr r"
    using get_cached_value [of key "ts_cache st"] c cached_value_ok [OF assms(1), of key]
    by (auto simp: entry_ok_def split: option.splits)
  then have "\<exists>neg st1. negotiate new_network cfg False st = (Inr neg, st1)"
    using assms(2) c ladder probe [of p]
    by (auto simp: negotiate_def probe_ladder_def Let_def split: option.split)
  then obtain neg st1 where neg: "negotiate new_network cfg False st = (Inr neg, st1)" by blast
  obtain ctx where "build_ssl_context new_network (profile_of (neg_profile neg)) (ca_file cfg)
      (trust_self_signed cfg) = Inr ctx"
    using context_new_network by blast
  with neg show ?thesis by (simp add: prepare_ews_tls_def apply_negotiated_def)
qed

lemma adapter_shared_across_threads_witness:
  "\<exists>acc st1 neg tls2 ctx msg' e.
     build_account new_network toy_exchange toy_lib (lit ''u@example.com'') [] sample_tls None None start_ews
       = (Inr acc, st1)
   \<and> prepare_ews_tls new_network (sample_tls\<lparr>trust_self_signed := True\<rparr>) False (es_tls st1) = (Inr neg, tls2)
   \<and> es_handed (snd (hand_over toy_exchange acc toy_message (st1\<lparr>es_tls := tls2\<rparr>))) = [(Some ctx, acc, msg', e)]
   \<and> verify_mode ctx = CERT_NONE"
proof -
  let ?cfg2 = "sample_tls\<lparr>trust_self_signed := True\<rparr>"
  have ok: "cache_ok (ts_cache (start_tls None))" by (simp add: cache_ok_reachable Start)
  have "\<exists>key. tls_target ?cfg2 = Inr (lit ''mail.example.com'', 443, AUTO_MODE, key)"
    using parse_mode_value [of AUTO_MODE]
    by (simp add: tls_target_def sample_tls_def sample_endpoint trust_args_def)
  then obtain key2 where target2: "tls_target ?cfg2 = Inr (lit ''mail.example.com'', 443, AUTO_MODE, key2)"
    by blast
  obtain neg1 tls1 where one: "prepare_ews_tls new_network sample_tls False (start_tls None) = (Inr neg1, tls1)"
    using prepare_new_network [OF ok sample_target] by blast
  have plain: "plain_host sample_tls" by (simp add: plain_host_def sample_target sample_host)
  have "tls_reachable tls1"
    using Step [OF Start Prepare [OF plain, of "start_tls None" new_network False]] one by simp
  then obtain neg2 tls2 where two: "prepare_ews_tls new_network ?cfg2 False tls1 = (Inr neg2, tls2)"
    using prepare_new_network [OF cache_ok_reachable target2] by blast
  have primary: "resolve_primary_smtp (\<lambda>s. s) (lit ''u@example.com'') None sample_tls None
      = Inr (lit ''u@example.com'')"
    by code_simp
  have "server_url sample_tls \<noteq> []" by (simp add: sample_tls_def)
  then obtain acc st1 where b: "build_account new_network toy_exchange toy_lib (lit ''u@example.com'') []
      sample_tls None None start_ews = (Inr acc, st1)" "es_tls st1 = tls1"
    using one primary by (simp add: build_account_def Let_def cache_get_def toy_exchange_def toy_lib_def)
  have "\<not> trust_self_signed sample_tls" by (simp add: sample_tls_def)
  from adapter_shared_across_threads [OF b(1) this _ _, of ?cfg2 neg2 tls2 toy_message] two b
  show ?thesis by auto
qed

end
