(* ===== verification/Config_Store.thy ===== *)
theory Config_Store
  imports Gateway_Config Secret_Box Kv_Store
begin

section \<open>The stored configuration (config/store.py, config/runtime.py, db/models.py)\<close>

text \<open>
  The settings table is a dictionary from keys to texts (\<open>SettingRow\<close>, less its timestamp).
  \<open>save_config\<close> writes the dumped configuration with its three secrets encrypted,
  \<open>load_config\<close> reads it back; \<open>redact_config\<close> and \<open>merge_config_update\<close> are the two ends
  of the API's GET and PUT. All four work on JSON documents, as the code does; \<open>map_secrets\<close>
  is what they do to the configuration. The nonces of the three encryptions are arguments.
  A ValidationError is an \<open>Exn ValueError\<close>.
\<close>

type_synonym settings = "pystr dict"

definition get_setting :: "settings \<Rightarrow> pystr \<Rightarrow> pystr option" where
  "get_setting db key = map_of db key"

text \<open>\<open>session.add\<close> of a new row or the update of the old one, then \<open>commit\<close>.\<close>

definition put_setting :: "pystr \<Rightarrow> pystr \<Rightarrow> settings \<Rightarrow> settings" where
  "put_setting key value db =
     (case get_setting db key of
        None \<Rightarrow> db @ [(key, value)]
      | Some _ \<Rightarrow> AList.update key value db)"

interpretation settings: kv_store get_setting put_setting
  by unfold_locales
    (auto simp: get_setting_def put_setting_def map_add_def split: option.splits)

definition config_key :: pystr where
  "config_key = lit ''gateway_config''"

definition no_attribute :: exn where
  "no_attribute = Exn OtherError (lit ''object has no such attribute'')"

definition validation_error :: exn where
  "validation_error = Exn ValueError (lit ''validation error for GatewayConfig'')"

text \<open>A change of the dictionary \<open>data.get(key)\<close>, if it is one, in place.\<close>

definition on_block :: "pystr \<Rightarrow> (json dict \<Rightarrow> json dict res) \<Rightarrow> json \<Rightarrow> json res" where
  "on_block key f data =
     (case data of
        JObj kvs \<Rightarrow>
          (case map_of kvs key of
             Some (JObj block) \<Rightarrow>
               bindE (f block) (\<lambda>block'. Inr (JObj (AList.update key (JObj block') kvs)))
           | _ \<Rightarrow> Inr data)
      | _ \<Rightarrow> Inl no_attribute)"

text \<open>\<open>if block.get(field): block[field] = f(block[field])\<close>\<close>

definition on_field :: "(json \<Rightarrow> json res) \<Rightarrow> pystr \<Rightarrow> json dict \<Rightarrow> json dict res" where
  "on_field f name block =
     (case map_of block name of
        Some v \<Rightarrow> if truthy_json v
                  then bindE (f v) (\<lambda>v'. Inr (AList.update name v' block)) else Inr block
      | None \<Rightarrow> Inr block)"

definition encrypt_value :: "crypto \<Rightarrow> secret_box \<Rightarrow> bytes \<Rightarrow> json \<Rightarrow> json res" where
  "encrypt_value C box nonce v =
     (case v of JStr s \<Rightarrow> bindE (encrypt C nonce box s) (\<lambda>t. Inr (JStr t)) | _ \<Rightarrow> Inl no_attribute)"

definition decrypt_value :: "crypto \<Rightarrow> secret_box \<Rightarrow> json \<Rightarrow> json res" where
  "decrypt_value C box v =
     Inr (JStr (case v of JStr s \<Rightarrow> (case decrypt C box s of Inl _ \<Rightarrow> [] | Inr t \<Rightarrow> t) | _ \<Rightarrow> []))"

definition on_secrets ::
    "(json \<Rightarrow> json res) \<Rightarrow> (json \<Rightarrow> json res) \<Rightarrow> (json \<Rightarrow> json res) \<Rightarrow> json \<Rightarrow> json res" where
  "on_secrets f1 f2 f3 data =
     bindE (on_block (lit ''ews'') (on_field f1 (lit ''password'')) data) (\<lambda>d1.
     bindE (on_block (lit ''ews_failover'') (on_field f2 (lit ''password'')) d1)
       (on_block (lit ''graph'') (on_field f3 (lit ''client_secret''))))"

text \<open>\<open>json.loads(json.dumps(data))\<close>, the deep copy both start from.\<close>

definition json_copy :: "json \<Rightarrow> json res" where
  "json_copy data = (case loads (dumps_default data) of
     None \<Rightarrow> Inl (Exn ValueError (lit ''JSONDecodeError'')) | Some d \<Rightarrow> Inr d)"

definition encrypt_secrets ::
    "crypto \<Rightarrow> secret_box \<Rightarrow> bytes \<times> bytes \<times> bytes \<Rightarrow> json \<Rightarrow> json res" where
  "encrypt_secrets C box nonces data =
     (case nonces of (n1, n2, n3) \<Rightarrow>
        bindE (json_copy data)
          (on_secrets (encrypt_value C box n1) (encrypt_value C box n2) (encrypt_value C box n3)))"

definition decrypt_secrets :: "crypto \<Rightarrow> secret_box \<Rightarrow> json \<Rightarrow> json res" where
  "decrypt_secrets C box data =
     bindE (json_copy data)
       (on_secrets (decrypt_value C box) (decrypt_value C box) (decrypt_value C box))"

definition save_config ::
    "crypto \<Rightarrow> secret_box \<Rightarrow> bytes \<times> bytes \<times> bytes \<Rightarrow> gateway_config \<Rightarrow> settings \<Rightarrow> settings res" where
  "save_config C box nonces config db =
     bindE (encrypt_secrets C box nonces (model_dump config)) (\<lambda>payload.
       Inr (put_setting config_key (dumps_default payload) db))"

definition load_config ::
    "crypto \<Rightarrow> pydantic \<Rightarrow> secret_box \<Rightarrow> settings \<Rightarrow> gateway_config option res" where
  "load_config C P box db =
     (case get_setting db config_key of
        None \<Rightarrow> Inr None
      | Some text \<Rightarrow>
          (case loads text of
             None \<Rightarrow> Inl (Exn ValueError (lit ''JSONDecodeError''))
           | Some j \<Rightarrow> bindE (decrypt_secrets C box j) (\<lambda>data.
               case model_validate P data of
                 None \<Rightarrow> Inl validation_error | Some c \<Rightarrow> Inr (Some c))))"

definition masked :: json where
  "masked = JStr (lit ''***'')"

definition redact_config :: "pydantic \<Rightarrow> gateway_config \<Rightarrow> gateway_config res" where
  "redact_config P config =
     bindE (on_secrets (\<lambda>_. Inr masked) (\<lambda>_. Inr masked) (\<lambda>_. Inr masked) (model_dump config))
       (\<lambda>data. case model_validate P data of None \<Rightarrow> Inl validation_error | Some c \<Rightarrow> Inr c)"

definition is_placeholder :: "json option \<Rightarrow> bool" where
  "is_placeholder v \<longleftrightarrow> v = None \<or> v = Some JNull \<or> v = Some (JStr []) \<or> v = Some masked"

definition merge_secret_block :: "json \<Rightarrow> pystr \<Rightarrow> pystr \<Rightarrow> json \<Rightarrow> json res" where
  "merge_secret_block cur key name data =
     on_block key (\<lambda>block.
       if is_placeholder (map_of block name) then
         Inr (AList.update name
           (case cur of
              JObj ckvs \<Rightarrow> (case map_of ckvs key of
                  Some (JObj cb) \<Rightarrow> (case map_of cb name of None \<Rightarrow> JNull | Some v \<Rightarrow> v)
                | _ \<Rightarrow> JNull)
            | _ \<Rightarrow> JNull) block)
       else Inr block) data"

definition merge_config_update ::
    "pydantic \<Rightarrow> gateway_config \<Rightarrow> gateway_config \<Rightarrow> gateway_config res" where
  "merge_config_update P current new =
     (let cur = model_dump current
      in bindE (merge_secret_block cur (lit ''ews'') (lit ''password'') (model_dump new)) (\<lambda>d1.
         bindE (merge_secret_block cur (lit ''ews_failover'') (lit ''password'') d1) (\<lambda>d2.
         bindE (merge_secret_block cur (lit ''graph'') (lit ''client_secret'') d2) (\<lambda>d3.
           case model_validate P d3 of None \<Rightarrow> Inl validation_error | Some c \<Rightarrow> Inr c))))"

text \<open>\<open>RuntimeConfig\<close>: one cell under a lock. \<open>get\<close> hands out a deep copy.\<close>

record runtime_config =
  rt_config :: gateway_config

definition runtime_get :: "runtime_config \<Rightarrow> gateway_config" where
  "runtime_get rt = rt_config rt"

definition runtime_replace :: "gateway_config \<Rightarrow> runtime_config \<Rightarrow> runtime_config" where
  "runtime_replace config rt = rt\<lparr>rt_config := config\<rparr>"

definition runtime_update :: "gateway_config \<Rightarrow> runtime_config \<Rightarrow> runtime_config" where
  "runtime_update config rt = rt\<lparr>rt_config := config\<rparr>"

subsection \<open>What the four do to the configuration\<close>

definition map_text :: "(pystr \<Rightarrow> pystr) \<Rightarrow> pystr option \<Rightarrow> pystr option" where
  "map_text g = map_option (\<lambda>s. if s = [] then s else g s)"

definition on_password :: "(pystr \<Rightarrow> pystr) \<Rightarrow> ews_config \<Rightarrow> ews_config" where
  "on_password g e = e\<lparr>ews_password := map_text g (ews_password e)\<rparr>"

definition on_client_secret :: "(pystr \<Rightarrow> pystr) \<Rightarrow> graph_config \<Rightarrow> graph_config" where
  "on_client_secret g c = c\<lparr>client_secret := (if client_secret c = [] then [] else g (client_secret c))\<rparr>"

definition map_secrets ::
    "(pystr \<Rightarrow> pystr) \<Rightarrow> (pystr \<Rightarrow> pystr) \<Rightarrow> (pystr \<Rightarrow> pystr) \<Rightarrow> gateway_config \<Rightarrow> gateway_config" where
  "map_secrets g1 g2 g3 c = c\<lparr>ews := map_option (on_password g1) (ews c),
     ews_failover := map_option (on_password g2) (ews_failover c),
     graph := map_option (on_client_secret g3) (graph c)\<rparr>"

text \<open>\<open>f\<close> acts on JSON strings as \<open>g\<close> does on their texts.\<close>

definition acts_as :: "(json \<Rightarrow> json res) \<Rightarrow> (pystr \<Rightarrow> pystr) \<Rightarrow> bool" where
  "acts_as f g \<longleftrightarrow> (\<forall>s. list_all is_scalar s \<longrightarrow> f (JStr s) = Inr (JStr (g s)))"

text \<open>Every text of the configuration has only scalar characters.\<close>

abbreviation scalar :: "pystr \<Rightarrow> bool" where
  "scalar \<equiv> list_all is_scalar"

definition scalar_ews :: "ews_config \<Rightarrow> bool" where
  "scalar_ews e \<longleftrightarrow> scalar (server_url e) \<and> scalar (tls_mode e)
     \<and> list_all (pred_option scalar)
         [ews_domain e, ews_username e, ews_password e, ca_file e, primary_smtp e]"

definition scalar_config :: "gateway_config \<Rightarrow> bool" where
  "scalar_config c \<longleftrightarrow> valid_smtp (smtp c) \<and> pred_option scalar_ews (ews c)
     \<and> pred_option scalar_ews (ews_failover c) \<and> pred_option valid_graph (graph c)
     \<and> pred_option scalar (default_sender c)"

lemma opt_ok_scalar: "opt_ok x \<Longrightarrow> pred_option scalar x"
  by (cases x) (simp_all add: opt_ok_def)

lemma valid_scalar_ews: "valid_ews P e \<Longrightarrow> scalar_ews e"
  by (simp add: valid_ews_def scalar_ews_def opt_ok_scalar)

lemma valid_scalar: "valid_config P c \<Longrightarrow> scalar_config c"
  by (auto simp: valid_config_def scalar_config_def valid_scalar_ews
      split: option.splits elim!: option.pred_mono_strong)

lemma scalar_values [simp]: "scalar (auth_value a)" "scalar (backend_value b)"
  by (cases a; simp add: lit_def is_scalar_def) (cases b; simp add: lit_def is_scalar_def)

lemma on_field_ews:
  assumes "acts_as f g" "scalar_ews e"
  obtains kvs kvs' where "dump_ews e = JObj kvs" "on_field f (lit ''password'') kvs = Inr kvs'"
    "dump_ews (on_password g e) = JObj kvs'"
proof -
  obtain kvs where kvs: "dump_ews e = JObj kvs" by (simp add: dump_ews_def)
  have "\<exists>kvs'. on_field f (lit ''password'') kvs = Inr kvs' \<and> dump_ews (on_password g e) = JObj kvs'"
  proof (cases "ews_password e")
    case None
    with kvs show ?thesis
      by (auto simp: dump_ews_def on_field_def on_password_def map_text_def json_opt_def truthy_json_def)
  next
    case (Some s)
    with assms kvs show ?thesis
      by (auto simp: dump_ews_def on_field_def on_password_def map_text_def json_opt_def
          truthy_json_def scalar_ews_def acts_as_def)
  qed
  with kvs that show thesis by blast
qed

lemma on_field_graph:
  assumes "acts_as f g" "valid_graph c"
  obtains kvs kvs' where "dump_graph c = JObj kvs"
    "on_field f (lit ''client_secret'') kvs = Inr kvs'"
    "dump_graph (on_client_secret g c) = JObj kvs'"
proof -
  obtain kvs where kvs: "dump_graph c = JObj kvs" by (simp add: dump_graph_def)
  have "\<exists>kvs'. on_field f (lit ''client_secret'') kvs = Inr kvs'
      \<and> dump_graph (on_client_secret g c) = JObj kvs'"
    using assms kvs
    by (auto simp: dump_graph_def on_field_def on_client_secret_def truthy_json_def acts_as_def
        valid_graph_def)
  with kvs that show thesis by blast
qed

lemmas block_defs = on_block_def model_dump_def dump_block_def

lemma on_block_ews:
  assumes "acts_as f g" "pred_option scalar_ews (ews c)"
  shows "on_block (lit ''ews'') (on_field f (lit ''password'')) (model_dump c) =
    Inr (model_dump (c\<lparr>ews := map_option (on_password g) (ews c)\<rparr>))"
proof (cases "ews c")
  case (Some e)
  with assms(2) have "scalar_ews e" by simp
  with Some show ?thesis by (auto simp: block_defs elim: on_field_ews [OF assms(1)])
qed (simp add: block_defs)

lemma on_block_failover:
  assumes "acts_as f g" "pred_option scalar_ews (ews_failover c)"
  shows "on_block (lit ''ews_failover'') (on_field f (lit ''password'')) (model_dump c) =
    Inr (model_dump (c\<lparr>ews_failover := map_option (on_password g) (ews_failover c)\<rparr>))"
proof (cases "ews_failover c")
  case (Some e)
  with assms(2) have "scalar_ews e" by simp
  with Some show ?thesis by (auto simp: block_defs elim: on_field_ews [OF assms(1)])
qed (simp add: block_defs)

lemma on_block_graph:
  assumes "acts_as f g" "pred_option valid_graph (graph c)"
  shows "on_block (lit ''graph'') (on_field f (lit ''client_secret'')) (model_dump c) =
    Inr (model_dump (c\<lparr>graph := map_option (on_client_secret g) (graph c)\<rparr>))"
proof (cases "graph c")
  case (Some e)
  with assms(2) have "valid_graph e" by simp
  with Some show ?thesis by (auto simp: block_defs elim: on_field_graph [OF assms(1)])
qed (simp add: block_defs)

lemma on_secrets_dump:
  assumes "scalar_config c" "acts_as f1 g1" "acts_as f2 g2" "acts_as f3 g3"
  shows "on_secrets f1 f2 f3 (model_dump c) = Inr (model_dump (map_secrets g1 g2 g3 c))"
  using assms(1) on_block_ews [OF assms(2)] on_block_failover [OF assms(3)] on_block_graph [OF assms(4)]
  by (simp add: on_secrets_def map_secrets_def scalar_config_def)

lemma scalar_json_opt: "pred_option scalar x \<Longrightarrow> wf_json (json_opt x)"
  by (cases x) (simp_all add: json_opt_def)

lemma scalar_key [simp]: "scalar (lit s) \<longleftrightarrow> list_all (\<lambda>c. is_scalar (of_char c)) s"
  by (simp add: lit_def list_all_length)

lemma wf_model_dump:
  assumes "scalar_config c"
  shows "wf_json (model_dump c)"
proof -
  have e: "wf_json (dump_block dump_ews x)" if "pred_option scalar_ews x" for x
    using that by (cases x) (auto simp: dump_block_def dump_ews_def scalar_ews_def scalar_json_opt
        is_scalar_def)
  have g: "wf_json (dump_block dump_graph x)" if "pred_option valid_graph x" for x
    using that wf_json_strs by (cases x) (auto simp: dump_block_def dump_graph_def valid_graph_def
        is_scalar_def simp del: wf_json.simps(2))
  have s: "wf_json (dump_smtp x)" if "valid_smtp x" for x
    using that wf_json_strs by (auto simp: dump_smtp_def valid_smtp_def is_scalar_def
        simp del: wf_json.simps(2))
  from assms e g s show ?thesis
    by (simp add: model_dump_def scalar_config_def scalar_json_opt is_scalar_def)
qed

subsection \<open>Storing and reading back\<close>

text \<open>What replaces a secret in the table, and what is read in place of a token.\<close>

definition token_of :: "crypto \<Rightarrow> secret_box \<Rightarrow> bytes \<Rightarrow> pystr \<Rightarrow> pystr" where
  "token_of C box nonce s = (case encrypt C nonce box s of Inl _ \<Rightarrow> [] | Inr t \<Rightarrow> t)"

definition text_of :: "crypto \<Rightarrow> secret_box \<Rightarrow> pystr \<Rightarrow> pystr" where
  "text_of C box t = (case decrypt C box t of Inl _ \<Rightarrow> [] | Inr s \<Rightarrow> s)"

lemma acts_as_encrypt: "acts_as (encrypt_value C box nonce) (token_of C box nonce)"
  using encrypt_Inr [of _ C nonce box]
  by (fastforce simp: acts_as_def encrypt_value_def token_of_def)

lemma acts_as_decrypt: "acts_as (decrypt_value C box) (text_of C box)"
  by (simp add: acts_as_def decrypt_value_def text_of_def)

lemma token_scalar: "scalar (token_of C box nonce s)"
proof -
  have "c \<in> set (urlsafe_b64encode bs) \<Longrightarrow> is_scalar c" for c bs
    using urlsafe_chars [of c bs] by (auto simp: is_scalar_def)
  then show ?thesis
    by (auto simp: token_of_def encrypt_def bindE_def list_all_iff split: sum.split)
qed

lemma text_of_token:
  "aead_law C \<Longrightarrow> length nonce = 12 \<Longrightarrow> scalar s \<Longrightarrow> text_of C box (token_of C box nonce s) = s"
  using encrypt_Inr [of s C nonce box]
  by (auto simp: text_of_def token_of_def decrypt_encrypt)

lemma json_copy_wf [simp]: "wf_json j \<Longrightarrow> json_copy j = Inr j"
  by (simp add: json_copy_def loads_dumps)

lemma scalar_map_secrets:
  assumes "scalar_config c" "\<And>s. scalar s \<Longrightarrow> scalar (g1 s)" "\<And>s. scalar s \<Longrightarrow> scalar (g2 s)"
    "\<And>s. scalar s \<Longrightarrow> scalar (g3 s)"
  shows "scalar_config (map_secrets g1 g2 g3 c)"
proof -
  have e: "pred_option scalar_ews (map_option (on_password g) x)"
    if "\<And>s. scalar s \<Longrightarrow> scalar (g s)" "pred_option scalar_ews x" for g x
    using that by (cases x; cases "ews_password (the x)")
      (auto simp: scalar_ews_def on_password_def map_text_def)
  have "pred_option valid_graph (map_option (on_client_secret g3) (graph c))"
    using assms(1,4) by (cases "graph c")
      (auto simp: scalar_config_def valid_graph_def on_client_secret_def)
  with assms e [OF assms(2)] e [OF assms(3)] show ?thesis
    by (simp add: scalar_config_def map_secrets_def)
qed

lemma on_password_twice:
  "on_password h (on_password g e) = on_password (\<lambda>s. if g s = [] then [] else h (g s)) e"
  by (cases "ews_password e") (auto simp: on_password_def map_text_def)

lemma on_client_secret_twice:
  "on_client_secret h (on_client_secret g c) =
   on_client_secret (\<lambda>s. if g s = [] then [] else h (g s)) c"
  by (auto simp: on_client_secret_def)

lemma map_secrets_twice:
  "map_secrets h1 h2 h3 (map_secrets g1 g2 g3 c) =
   map_secrets (\<lambda>s. if g1 s = [] then [] else h1 (g1 s)) (\<lambda>s. if g2 s = [] then [] else h2 (g2 s))
     (\<lambda>s. if g3 s = [] then [] else h3 (g3 s)) c"
  by (simp add: map_secrets_def option.map_comp comp_def on_password_twice on_client_secret_twice)

text \<open>The configuration whose dump the table holds after \<open>save_config\<close>.\<close>

definition stored_config :: "crypto \<Rightarrow> secret_box \<Rightarrow> bytes \<times> bytes \<times> bytes \<Rightarrow> gateway_config \<Rightarrow> gateway_config" where
  "stored_config C box nonces c = (case nonces of (n1, n2, n3) \<Rightarrow>
     map_secrets (token_of C box n1) (token_of C box n2) (token_of C box n3) c)"

lemma scalar_stored: "scalar_config c \<Longrightarrow> scalar_config (stored_config C box nonces c)"
  by (cases nonces) (simp add: stored_config_def scalar_map_secrets token_scalar)

lemma save_config_Inr:
  assumes "scalar_config c"
  shows "save_config C box nonces c db =
    Inr (put_setting config_key (dumps_default (model_dump (stored_config C box nonces c))) db)"
  using assms
  by (cases nonces) (simp add: save_config_def encrypt_secrets_def wf_model_dump
      on_secrets_dump [OF _ acts_as_encrypt acts_as_encrypt acts_as_encrypt] stored_config_def)

lemma load_stored:
  assumes "get_setting db config_key = Some (dumps_default (model_dump c))" "scalar_config c"
  shows "load_config C P box db =
    (case model_validate P (model_dump (map_secrets (text_of C box) (text_of C box) (text_of C box) c)) of
       None \<Rightarrow> Inl validation_error | Some c \<Rightarrow> Inr (Some c))"
  using assms
  by (simp add: load_config_def loads_dumps wf_model_dump decrypt_secrets_def
      on_secrets_dump [OF _ acts_as_decrypt acts_as_decrypt acts_as_decrypt] del: dumps.simps)

lemma map_secrets_comp:
  assumes "scalar_config c"
    and "\<And>s. scalar s \<Longrightarrow> s \<noteq> [] \<Longrightarrow> g1 s \<noteq> [] \<and> h1 (g1 s) = s"
    and "\<And>s. scalar s \<Longrightarrow> s \<noteq> [] \<Longrightarrow> g2 s \<noteq> [] \<and> h2 (g2 s) = s"
    and "\<And>s. scalar s \<Longrightarrow> s \<noteq> [] \<Longrightarrow> g3 s \<noteq> [] \<and> h3 (g3 s) = s"
  shows "map_secrets h1 h2 h3 (map_secrets g1 g2 g3 c) = c"
proof -
  have e: "map_option (on_password h) (map_option (on_password g) x) = x"
    if "\<And>s. scalar s \<Longrightarrow> s \<noteq> [] \<Longrightarrow> g s \<noteq> [] \<and> h (g s) = s" "pred_option scalar_ews x" for g h x
    using that by (cases x; cases "ews_password (the x)")
      (auto simp: scalar_ews_def on_password_def map_text_def)
  have "map_option (on_client_secret h3) (map_option (on_client_secret g3) (graph c)) = graph c"
    using assms(1,4) by (cases "graph c")
      (auto simp: scalar_config_def valid_graph_def on_client_secret_def)
  with assms(1) e [OF assms(2)] e [OF assms(3)] show ?thesis
    by (simp add: scalar_config_def map_secrets_def)
qed

lemma token_neq_Nil: "scalar s \<Longrightarrow> s \<noteq> [] \<Longrightarrow> length nonce = 12 \<Longrightarrow> token_of C box nonce s \<noteq> []"
  using encrypt_Inr [of s C nonce box] by (auto simp: token_of_def dest: encrypt_eq_Nil_iff)

lemma load_saved:
  assumes "aead_law C" "pydantic_law P" "valid_config P c"
    and "length n1 = 12" "length n2 = 12" "length n3 = 12"
  shows "bindE (save_config C box (n1, n2, n3) c db) (load_config C P box) = Inr (Some c)"
proof -
  let ?c = "stored_config C box (n1, n2, n3) c"
  have c: "scalar_config c" using assms(3) by (rule valid_scalar)
  have "map_secrets (text_of C box) (text_of C box) (text_of C box) ?c = c"
    unfolding stored_config_def prod.case
    using assms by (intro map_secrets_comp [OF c]) (simp_all add: token_neq_Nil text_of_token)
  then show ?thesis
    using load_stored [OF settings.lookup_put_same scalar_stored [OF c]]
    by (simp add: save_config_Inr [OF c] validate_dump [OF assms(2,3)] del: dumps.simps)
qed

lemma text_of_scalar: "scalar (text_of C box t)"
  by (auto simp: text_of_def decrypt_def bindE_def dest: utf8_decode_scalar
      split: sum.split option.split if_splits)

text \<open>Validation of a dump whose secrets may be blank: the blank passwords disappear.\<close>

definition unblank :: "ews_config \<Rightarrow> ews_config" where
  "unblank e = e\<lparr>ews_password := Option.bind (ews_password e) (\<lambda>s. if strip s = [] then None else Some s)\<rparr>"

definition forget_secrets :: "gateway_config \<Rightarrow> gateway_config" where
  "forget_secrets c = c\<lparr>ews := map_option (\<lambda>e. e\<lparr>ews_password := None\<rparr>) (ews c),
     ews_failover := map_option (\<lambda>e. e\<lparr>ews_password := None\<rparr>) (ews_failover c),
     graph := map_option (\<lambda>g. g\<lparr>client_secret := []\<rparr>) (graph c)\<rparr>"

lemma validate_dump_unblank:
  assumes "pydantic_law P" "valid_ews P e" "pred_option scalar pw"
  shows "validate_ews P (dump_ews (e\<lparr>ews_password := pw\<rparr>)) = Some (unblank (e\<lparr>ews_password := pw\<rparr>))"
proof -
  have "as_opt as_str (empty_str_to_none (json_opt pw))
      = Some (Option.bind pw (\<lambda>s. if strip s = [] then None else Some s))"
    using assms(3) by (cases pw) (auto simp: json_opt_def empty_str_to_none_def as_opt_def)
  then show ?thesis
    using assms(1,2)
    by (simp add: validate_ews_def dump_ews_def field_req_def field_or_def valid_ews_def as_url_def
        blank_json_opt pydantic_law_def unblank_def)
qed

lemma validate_dump_secrets:
  assumes P: "pydantic_law P" and c: "valid_config P c"
    and g: "\<And>s. scalar s \<Longrightarrow> scalar (g1 s)" "\<And>s. scalar s \<Longrightarrow> scalar (g2 s)" "\<And>s. scalar s \<Longrightarrow> scalar (g3 s)"
  shows "\<exists>c'. model_validate P (model_dump (map_secrets g1 g2 g3 c)) = Some c'
    \<and> c' = (map_secrets g1 g2 g3 c)\<lparr>ews := map_option unblank (ews (map_secrets g1 g2 g3 c)),
         ews_failover := map_option unblank (ews_failover (map_secrets g1 g2 g3 c))\<rparr>"
proof -
  have e: "as_opt (validate_ews P) (dump_block dump_ews (map_option (on_password h) x))
      = Some (map_option unblank (map_option (on_password h) x))"
    if h: "\<And>s. scalar s \<Longrightarrow> scalar (h s)" and x: "pred_option (valid_ews P) x" for h x
  proof (cases x)
    case (Some e)
    have "pred_option scalar (map_text h (ews_password e))"
      using x Some h by (cases "ews_password e") (auto simp: map_text_def valid_ews_def opt_ok_def)
    from validate_dump_unblank [OF P _ this] x Some show ?thesis
      by (simp add: dump_block_def on_password_def as_opt_def dump_ews_def)
  qed (simp add: dump_block_def as_opt_def)
  have gr: "as_opt validate_graph (dump_block dump_graph (map_option (on_client_secret g3) (graph c)))
      = Some (map_option (on_client_secret g3) (graph c))"
    using c g(3) validate_dump_graph
    by (intro as_opt_dump_block [where ok = valid_graph]; cases "graph c")
      (auto simp: valid_config_def valid_graph_def on_client_secret_def dump_graph_def)
  have d: "as_opt (as_email P) (empty_str_to_none (json_opt (default_sender c)))
      = Some (default_sender c)"
    using c by (cases "default_sender c")
      (auto simp: valid_config_def json_opt_def empty_str_to_none_def as_opt_def as_email_def)
  from c show ?thesis
    by (simp add: model_validate_def model_dump_def field_or_def valid_config_def map_secrets_def
        validate_dump_smtp [OF P] e [OF g(1)] e [OF g(2)] gr d)
qed

subsection \<open>Redacting and merging\<close>

definition secret_mask :: pystr where
  "secret_mask = lit ''***''"

text \<open>The secrets a configuration carries.\<close>

definition secrets_of :: "gateway_config \<Rightarrow> pystr list" where
  "secrets_of c = filter (\<lambda>s. s \<noteq> [])
     (map (\<lambda>x. case x of None \<Rightarrow> [] | Some s \<Rightarrow> s)
       [Option.bind (ews c) ews_password, Option.bind (ews_failover c) ews_password,
        map_option client_secret (graph c)])"

definition redacted :: "gateway_config \<Rightarrow> gateway_config" where
  "redacted = map_secrets (\<lambda>_. secret_mask) (\<lambda>_. secret_mask) (\<lambda>_. secret_mask)"

lemma mask_facts [simp]: "scalar secret_mask" "strip secret_mask \<noteq> []" "secret_mask \<noteq> []"
  by (simp_all add: secret_mask_def lit_def is_scalar_def strip_def lstrip_def rstrip_where_def is_space_def)

lemma valid_redacted: "valid_config P c \<Longrightarrow> valid_config P (redacted c)"
proof -
  assume c: "valid_config P c"
  have e: "pred_option (valid_ews P) (map_option (on_password (\<lambda>_. secret_mask)) x)"
    if "pred_option (valid_ews P) x" for x
    using that by (cases x; cases "ews_password (the x)")
      (auto simp: valid_ews_def on_password_def map_text_def opt_ok_def)
  have "pred_option valid_graph (map_option (on_client_secret (\<lambda>_. secret_mask)) (graph c))"
    using c by (cases "graph c") (auto simp: valid_config_def valid_graph_def on_client_secret_def)
  with c e show ?thesis by (simp add: valid_config_def redacted_def map_secrets_def)
qed

lemma redact_config_valid:
  "pydantic_law P \<Longrightarrow> valid_config P c \<Longrightarrow> redact_config P c = Inr (redacted c)"
  using validate_dump [OF _ valid_redacted, of P c]
  by (simp add: redact_config_def redacted_def valid_scalar on_secrets_dump
      [of c _ "\<lambda>_. secret_mask" _ "\<lambda>_. secret_mask" _ "\<lambda>_. secret_mask"] acts_as_def masked_def secret_mask_def)

definition placeholder :: "pystr option \<Rightarrow> bool" where
  "placeholder x \<longleftrightarrow> x \<in> {None, Some [], Some secret_mask}"

definition merged_ews :: "ews_config option \<Rightarrow> ews_config option \<Rightarrow> ews_config option" where
  "merged_ews cur new = map_option (\<lambda>e.
     if placeholder (ews_password e) then e\<lparr>ews_password := Option.bind cur ews_password\<rparr> else e) new"

definition merged_graph :: "graph_config option \<Rightarrow> graph_config option \<Rightarrow> graph_config option" where
  "merged_graph cur new = map_option (\<lambda>g.
     if placeholder (Some (client_secret g))
     then g\<lparr>client_secret := (case cur of None \<Rightarrow> [] | Some c \<Rightarrow> client_secret c)\<rparr> else g) new"

text \<open>A masked Graph secret with no stored one to stand for it.\<close>

definition lost_graph_secret :: "gateway_config \<Rightarrow> gateway_config \<Rightarrow> bool" where
  "lost_graph_secret cur new \<longleftrightarrow> graph cur = None
     \<and> (\<exists>g. graph new = Some g \<and> placeholder (Some (client_secret g)))"

lemma is_placeholder_json: "is_placeholder (Some (json_opt x)) \<longleftrightarrow> placeholder x"
  by (cases x) (auto simp: is_placeholder_def placeholder_def json_opt_def masked_def secret_mask_def)

lemma is_placeholder_JStr: "is_placeholder (Some (JStr x)) \<longleftrightarrow> placeholder (Some x)"
  by (auto simp: is_placeholder_def placeholder_def masked_def secret_mask_def)

lemma json_opt_None [simp]: "json_opt None = JNull"
  by (simp add: json_opt_def)

lemmas merge_defs = merge_secret_block_def on_block_def model_dump_def dump_block_def

lemma merge_block_ews:
  "merge_secret_block (model_dump cur) (lit ''ews'') (lit ''password'') (model_dump new) =
    Inr (model_dump (new\<lparr>ews := merged_ews (ews cur) (ews new)\<rparr>))"
  by (cases "ews new"; cases "ews cur")
    (simp_all add: merge_defs merged_ews_def dump_ews_def is_placeholder_json)

lemma merge_block_failover:
  "merge_secret_block (model_dump cur) (lit ''ews_failover'') (lit ''password'') (model_dump new) =
    Inr (model_dump (new\<lparr>ews_failover := merged_ews (ews_failover cur) (ews_failover new)\<rparr>))"
  by (cases "ews_failover new"; cases "ews_failover cur")
    (simp_all add: merge_defs merged_ews_def dump_ews_def is_placeholder_json)

lemma merge_block_graph:
  "\<not> lost_graph_secret cur new \<Longrightarrow>
   merge_secret_block (model_dump cur) (lit ''graph'') (lit ''client_secret'') (model_dump new) =
     Inr (model_dump (new\<lparr>graph := merged_graph (graph cur) (graph new)\<rparr>))"
  by (cases "graph new"; cases "graph cur")
    (simp_all add: merge_defs merged_graph_def dump_graph_def is_placeholder_JStr lost_graph_secret_def)

lemma merge_block_graph_lost:
  assumes "lost_graph_secret cur new"
  shows "\<exists>d. merge_secret_block (model_dump cur) (lit ''graph'') (lit ''client_secret'') (model_dump new)
      = Inr d \<and> model_validate P d = None"
proof -
  from assms obtain g where g: "graph cur = None" "graph new = Some g" "placeholder (Some (client_secret g))"
    by (auto simp: lost_graph_secret_def)
  have no: "as_opt validate_graph (JObj [(lit ''tenant_id'', t), (lit ''client_id'', i),
      (lit ''client_secret'', JNull), (lit ''scopes'', sc)]) = None" for t i sc
    by (simp add: as_opt_def validate_graph_def field_req_def as_str_def)
  from g show ?thesis
    by (simp add: merge_defs dump_graph_def is_placeholder_JStr model_validate_def field_or_def no)
qed

definition merged :: "gateway_config \<Rightarrow> gateway_config \<Rightarrow> gateway_config" where
  "merged cur new = new\<lparr>ews := merged_ews (ews cur) (ews new),
     ews_failover := merged_ews (ews_failover cur) (ews_failover new),
     graph := merged_graph (graph cur) (graph new)\<rparr>"

lemma valid_merged:
  assumes "valid_config P cur" "valid_config P new"
  shows "valid_config P (merged cur new)"
proof -
  have e: "pred_option (valid_ews P) (merged_ews x y)"
    if "pred_option (valid_ews P) x" "pred_option (valid_ews P) y" for x y
    using that by (cases x; cases y) (auto simp: merged_ews_def valid_ews_def opt_ok_def)
  have "pred_option valid_graph (merged_graph (graph cur) (graph new))"
    using assms by (cases "graph cur"; cases "graph new")
      (auto simp: merged_graph_def valid_config_def valid_graph_def)
  with assms e show ?thesis by (simp add: valid_config_def merged_def)
qed

lemma lost_after_ews:
  "lost_graph_secret cur (new\<lparr>ews := x, ews_failover := y\<rparr>) = lost_graph_secret cur new"
  by (simp add: lost_graph_secret_def)

lemma merge_config_update_eq:
  assumes "pydantic_law P" "valid_config P cur" "valid_config P new"
  shows "merge_config_update P cur new =
    (if lost_graph_secret cur new then Inl validation_error else Inr (merged cur new))"
proof -
  let ?n = "new\<lparr>ews := merged_ews (ews cur) (ews new),
    ews_failover := merged_ews (ews_failover cur) (ews_failover new)\<rparr>"
  have steps: "merge_config_update P cur new =
      bindE (merge_secret_block (model_dump cur) (lit ''graph'') (lit ''client_secret'') (model_dump ?n))
        (\<lambda>d. case model_validate P d of None \<Rightarrow> Inl validation_error | Some c \<Rightarrow> Inr c)"
    by (simp add: merge_config_update_def merge_block_ews merge_block_failover)
  show ?thesis
  proof (cases "lost_graph_secret cur new")
    case True
    then have "lost_graph_secret cur ?n" by (simp add: lost_after_ews)
    from merge_block_graph_lost [OF this, of P] True show ?thesis unfolding steps by auto
  next
    case False
    then have "\<not> lost_graph_secret cur ?n" by (simp add: lost_after_ews)
    from merge_block_graph [OF this] False validate_dump [OF assms(1) valid_merged [OF assms(2,3)]]
    show ?thesis unfolding steps by (simp add: merged_def)
  qed
qed

text \<open>
  C30. \<open>save_config\<close> then \<open>load_config\<close> is the identity on valid configurations: whatever
  was in the table before, the three secrets are decrypted to what they were, every other
  setting keeps its value, and neither call raises.
\<close>

theorem load_saved_config:
  assumes "aead_law C" "pydantic_law P" "valid_config P c"
    and "length n1 = 12" "length n2 = 12" "length n3 = 12"
  shows "\<exists>db'. save_config C box (n1, n2, n3) c db = Inr db'
    \<and> load_config C P box db' = Inr (Some c)
    \<and> (\<forall>key. key = config_key \<or> get_setting db' key = get_setting db key)"
  using load_saved [OF assms] settings.lookup_put_other
  by (simp add: save_config_Inr [OF valid_scalar [OF assms(3)]]) metis

text \<open>
  Reading a stored configuration under another key (a lost or rotated secret, whatever
  AES answers) never raises and changes nothing but the secrets.
\<close>

lemma load_config_under_any_key:
  assumes "pydantic_law P" "valid_config P c" "save_config C box nonces c db = Inr db'"
  shows "\<exists>c'. load_config C P box' db' = Inr (Some c') \<and> forget_secrets c' = forget_secrets c"
proof -
  obtain n1 n2 n3 where n: "nonces = (n1, n2, n3)" by (cases nonces)
  let ?h = "\<lambda>n s. if token_of C box n s = [] then [] else text_of C box' (token_of C box n s)"
  have c: "scalar_config c" using assms(2) by (rule valid_scalar)
  have db': "db' = put_setting config_key (dumps_default (model_dump (stored_config C box nonces c))) db"
    using assms(3) by (simp add: save_config_Inr [OF c])
  have comp: "map_secrets (text_of C box') (text_of C box') (text_of C box') (stored_config C box nonces c)
      = map_secrets (?h n1) (?h n2) (?h n3) c"
    by (simp add: stored_config_def n map_secrets_twice)
  obtain c' where "model_validate P (model_dump (map_secrets (?h n1) (?h n2) (?h n3) c)) = Some c'"
    and c': "c' = (map_secrets (?h n1) (?h n2) (?h n3) c)
      \<lparr>ews := map_option unblank (ews (map_secrets (?h n1) (?h n2) (?h n3) c)),
       ews_failover := map_option unblank (ews_failover (map_secrets (?h n1) (?h n2) (?h n3) c))\<rparr>"
    using validate_dump_secrets [OF assms(1,2), of "?h n1" "?h n2" "?h n3"] text_of_scalar by auto
  then have "load_config C P box' db' = Inr (Some c')"
    using load_stored [OF settings.lookup_put_same scalar_stored [OF c]]
    by (simp add: db' comp del: dumps.simps)
  moreover have "forget_secrets c' = forget_secrets c"
    by (cases "ews c"; cases "ews_failover c"; cases "graph c")
      (simp_all add: c' forget_secrets_def map_secrets_def unblank_def on_password_def on_client_secret_def)
  ultimately show ?thesis by blast
qed

text \<open>
  C31. What the API hands out is redacted: \<open>redact_config\<close> succeeds, every secret in its
  result is the mask, nothing else is changed, and a client that sends the redacted document
  back changes nothing.
\<close>

theorem redact_hides_and_merge_restores:
  assumes "pydantic_law P" "valid_config P c"
  shows "\<exists>r. redact_config P c = Inr r \<and> set (secrets_of r) \<subseteq> {secret_mask}
    \<and> forget_secrets r = forget_secrets c \<and> merge_config_update P c r = Inr c"
proof -
  have e: "merged_ews x (map_option (on_password (\<lambda>_. secret_mask)) x) = x" for x
    by (cases x; cases "ews_password (the x)")
      (auto simp: merged_ews_def on_password_def map_text_def placeholder_def)
  have g: "merged_graph x (map_option (on_client_secret (\<lambda>_. secret_mask)) x) = x" for x
    by (cases x) (auto simp: merged_graph_def on_client_secret_def placeholder_def)
  have m: "merged c (redacted c) = c"
    by (simp add: merged_def redacted_def map_secrets_def e g)
  have "\<not> lost_graph_secret c (redacted c)"
    by (auto simp: lost_graph_secret_def redacted_def map_secrets_def)
  then have "merge_config_update P c (redacted c) = Inr c"
    using validate_dump [OF assms] m
    by (simp add: merge_config_update_eq [OF assms(1,2) valid_redacted [OF assms(2)]])
  moreover have "set (secrets_of (redacted c)) \<subseteq> {secret_mask}"
  proof -
    have p: "Option.bind (map_option (on_password (\<lambda>_. secret_mask)) x) ews_password \<in> {None, Some [], Some secret_mask}"
      for x by (cases x; cases "ews_password (the x)") (auto simp: on_password_def map_text_def)
    have s: "map_option client_secret (map_option (on_client_secret (\<lambda>_. secret_mask)) x)
        \<in> {None, Some [], Some secret_mask}" for x
      by (cases x) (auto simp: on_client_secret_def)
    show ?thesis
      using p [of "ews c"] p [of "ews_failover c"] s [of "graph c"]
      by (auto simp: secrets_of_def redacted_def map_secrets_def split: if_splits)
  qed
  moreover have "forget_secrets (redacted c) = forget_secrets c"
    by (cases "ews c"; cases "ews_failover c"; cases "graph c")
      (simp_all add: forget_secrets_def redacted_def map_secrets_def on_password_def on_client_secret_def)
  ultimately show ?thesis using redact_config_valid [OF assms] by blast
qed

text \<open>A configuration at which the properties are evaluated.\<close>

definition sample_ews :: ews_config where
  "sample_ews = \<lparr>server_url = lit ''https://mail.example.com/EWS'', ews_auth = NTLM,
     ews_domain = Some (lit ''DOMAIN''), ews_username = Some (lit ''svc''),
     ews_password = Some (lit ''pw''), trust_self_signed = False, ca_file = None,
     tls_mode = lit ''auto'', primary_smtp = None\<rparr>"

definition sample_config :: gateway_config where
  "sample_config = \<lparr>backend = EWS, smtp = default_smtp, ews = Some sample_ews, ews_failover = None,
     graph = Some \<lparr>tenant_id = lit ''t'', client_id = lit ''c'', client_secret = lit ''gs'',
       graph_scopes = []\<rparr>, default_sender = None\<rparr>"

lemma valid_sample [simp]: "valid_config toy_pydantic sample_config"
  by (simp add: valid_config_def sample_config_def valid_smtp_def default_smtp_def valid_ews_def
      sample_ews_def toy_pydantic_def opt_ok_def valid_graph_def is_scalar_def py_simps
      strip_def lstrip_def rstrip_where_def is_space_def)

theorem load_saved_config_witness:
  "\<exists>db'. save_config toy_crypto \<lparr>box_key = []\<rparr>
      (replicate 12 1, replicate 12 2, replicate 12 3) sample_config [] = Inr db'
    \<and> load_config toy_crypto toy_pydantic \<lparr>box_key = []\<rparr> db' = Inr (Some sample_config)
    \<and> (\<forall>key. key = config_key \<or> get_setting db' key = get_setting [] key)"
  by (rule load_saved_config) simp_all

lemma load_config_under_any_key_witness:
  "\<exists>db' c'. save_config toy_crypto \<lparr>box_key = []\<rparr> ([], [], []) sample_config [] = Inr db'
    \<and> load_config toy_crypto toy_pydantic \<lparr>box_key = replicate 32 9\<rparr> db' = Inr (Some c')
    \<and> forget_secrets c' = forget_secrets sample_config"
proof -
  obtain db' where "save_config toy_crypto \<lparr>box_key = []\<rparr> ([], [], []) sample_config [] = Inr db'"
    by (simp add: save_config_Inr valid_scalar [OF valid_sample])
  with load_config_under_any_key [OF toy_pydantic_law valid_sample this, of "\<lparr>box_key = replicate 32 9\<rparr>"]
  show ?thesis by auto
qed

theorem redact_hides_and_merge_restores_witness:
  "\<exists>r. redact_config toy_pydantic sample_config = Inr r \<and> set (secrets_of r) \<subseteq> {secret_mask}
    \<and> forget_secrets r = forget_secrets sample_config
    \<and> merge_config_update toy_pydantic sample_config r = Inr sample_config"
  by (rule redact_hides_and_merge_restores) simp_all

text \<open>
  C35. A document the API accepts is a configuration within its bounds: the port and the size
  limit are in range, the addresses and the URL are in the normal form of their parsers, and
  dumping and validating it again gives the same configuration.
\<close>

theorem accepted_config_well_typed:
  assumes "pydantic_law P" "model_validate P j = Some c"
  shows "1 \<le> smtp_port (smtp c) \<and> smtp_port (smtp c) \<le> 65535
    \<and> 1 \<le> max_message_size_mb (smtp c) \<and> max_message_size_mb (smtp c) \<le> 100
    \<and> (case ews c of None \<Rightarrow> True | Some e \<Rightarrow> parse_url P (server_url e) = Some (server_url e))
    \<and> (case default_sender c of None \<Rightarrow> True | Some s \<Rightarrow> parse_email P s = Some s)
    \<and> model_validate P (model_dump c) = Some c"
  using validate_valid [OF assms] validate_dump [OF assms(1) validate_valid [OF assms]]
  by (auto simp: valid_config_def valid_smtp_def valid_ews_def split: option.splits)

theorem accepted_config_well_typed_witness:
  "model_validate toy_pydantic (model_dump sample_config) = Some sample_config
   \<and> smtp_port (smtp sample_config) \<le> 65535"
proof -
  have "model_validate toy_pydantic (model_dump sample_config) = Some sample_config"
    by (rule validate_dump) simp_all
  from accepted_config_well_typed [OF toy_pydantic_law this] this show ?thesis by simp
qed

end
