(* ===== verification/Mail_Drivers.thy ===== *)
theory Mail_Drivers
  imports Ews_Client Config_Store
begin

section \<open>Mail drivers (drivers/base.py, ews.py, stub.py, mock.py, registry.py)\<close>

text \<open>
  The abstract class \<open>MailDriver\<close> is a record of its methods, over a state of the outside
  world; \<open>ews_driver\<close>, \<open>graph_driver\<close>, \<open>gmail_driver\<close> and \<open>mock_driver\<close> are its four
  implementations, \<open>resolve_driver\<close> the table lookup of the registry. What a client may rely
  on, whatever the driver, is the locale \<open>mail_driver\<close>, which every driver interprets.
  The EWS driver runs on the state of the Exchange client; the networks and servers it meets
  with the primary and with the failover server are arguments (\<open>ews_io\<close>).
\<close>

record health_result =
  hr_ok :: bool
  hr_latency_ms :: rat
  hr_detail :: pystr
  hr_error :: "pystr option"
  hr_driver :: pystr
  hr_extra :: "pystr dict"

definition failed_health :: "pystr \<Rightarrow> pystr \<Rightarrow> health_result" where
  "failed_health drv err = \<lparr>hr_ok = False, hr_latency_ms = 0, hr_detail = [], hr_error = Some err,
     hr_driver = drv, hr_extra = []\<rparr>"

record 'w driver =
  drv_backend :: backend_type
  drv_configured :: "gateway_config \<Rightarrow> bool"
  drv_send :: "send_request \<Rightarrow> gateway_config \<Rightarrow> 'w \<Rightarrow> send_result res \<times> 'w"
  drv_health :: "gateway_config \<Rightarrow> 'w \<Rightarrow> health_result \<times> 'w"

definition driver_label :: "'w driver \<Rightarrow> pystr" where
  "driver_label d = upper (backend_value (drv_backend d))"

subsection \<open>Exchange\<close>

record ews_io =
  io_nets :: "network \<times> network"
  io_exchanges :: "exchange \<times> exchange"
  io_lib :: mail_lib
  io_inbox_count :: "ssl_context option \<Rightarrow> account \<Rightarrow> int res"
  io_latency_ms :: rat

definition send_via ::
    "ews_io \<Rightarrow> ews_config \<Rightarrow> send_request \<Rightarrow> pystr option \<Rightarrow> ews_state \<Rightarrow> send_result res \<times> ews_state" where
  "send_via io cfg req dflt st =
     (case send_mime (io_nets io) (io_exchanges io) (io_lib io) cfg req dflt st of
        (Inl e, st') \<Rightarrow> (Inl e, st')
      | (Inr r, st') \<Rightarrow> (Inr (r\<lparr>result_driver := Some (backend_value EWS)\<rparr>), st'))"

definition require_ews :: "gateway_config \<Rightarrow> ews_config res" where
  "require_ews config = (case ews config of
     None \<Rightarrow> Inl (Exn ValueError (lit ''EWS not configured'')) | Some c \<Rightarrow> Inr c)"

definition ews_send ::
    "ews_io \<Rightarrow> ews_io \<Rightarrow> send_request \<Rightarrow> gateway_config \<Rightarrow> ews_state \<Rightarrow> send_result res \<times> ews_state" where
  "ews_send io io_failover req config st =
     (case require_ews config of
        Inl e \<Rightarrow> (Inl e, st)
      | Inr cfg \<Rightarrow>
          (case send_via io cfg req (default_sender config) st of
             (Inr r, st') \<Rightarrow> (Inr r, st')
           | (Inl primary_exc, st') \<Rightarrow>
               (case ews_failover config of
                  None \<Rightarrow> (Inl primary_exc, st')
                | Some failover \<Rightarrow>
                    (case send_via io_failover failover req (default_sender config) st' of
                       (Inl e, st'') \<Rightarrow> (Inl e, st'')
                     | (Inr r, st'') \<Rightarrow>
                         (Inr (r\<lparr>result_driver := Some (backend_value EWS @ lit ''+failover'')\<rparr>), st'')))))"

definition check_ews ::
    "ews_io \<Rightarrow> ews_config \<Rightarrow> pystr \<Rightarrow> pystr \<Rightarrow> ews_state \<Rightarrow> health_result \<times> ews_state" where
  "check_ews io cfg username password st =
     (case negotiate (fst (io_nets io)) cfg False (es_tls st) of
        (Inl e, tls) \<Rightarrow> (failed_health (backend_value EWS) (exn_text e), st\<lparr>es_tls := tls\<rparr>)
      | (Inr neg, tls) \<Rightarrow>
          (case build_account (fst (io_nets io)) (fst (io_exchanges io)) (io_lib io) username password cfg
                  (Some username) None (st\<lparr>es_tls := tls\<rparr>) of
             (Inl e, st') \<Rightarrow> (failed_health (backend_value EWS) (exn_text e), st')
           | (Inr acc, st') \<Rightarrow>
               (case io_inbox_count io (ts_adapter (es_tls st')) acc of
                  Inl e \<Rightarrow> (failed_health (backend_value EWS) (exn_text e), st')
                | Inr n \<Rightarrow>
                    (\<lparr>hr_ok = True, hr_latency_ms = io_latency_ms io,
                      hr_detail = lit ''Inbox accessible ('' @ str_int n @ lit '' items)'',
                      hr_error = None, hr_driver = backend_value EWS,
                      hr_extra = [(lit ''tls_profile'', profile_value (neg_profile neg))]\<rparr>, st'))))"

definition ews_health :: "ews_io \<Rightarrow> gateway_config \<Rightarrow> ews_state \<Rightarrow> health_result \<times> ews_state" where
  "ews_health io config st =
     (case ews config of
        None \<Rightarrow> (failed_health (backend_value EWS) (lit ''EWS not configured''), st)
      | Some cfg \<Rightarrow>
          if \<not> truthy (ews_username cfg) \<or> \<not> truthy (ews_password cfg)
          then (failed_health (backend_value EWS) (lit ''EWS username/password required''), st)
          else check_ews io cfg (or_empty (ews_username cfg)) (or_empty (ews_password cfg)) st)"

definition ews_driver :: "ews_io \<Rightarrow> ews_io \<Rightarrow> ews_state driver" where
  "ews_driver io io_failover = \<lparr>drv_backend = EWS, drv_configured = (\<lambda>c. ews c \<noteq> None),
     drv_send = ews_send io io_failover, drv_health = ews_health io\<rparr>"

subsection \<open>The placeholders\<close>

text \<open>\<open>_StubDriver\<close>; \<open>configured\<close> stands for the attribute it reads of the configuration.\<close>

definition stub_phase :: "backend_type \<Rightarrow> pystr" where
  "stub_phase b = (if b = GRAPH then lit ''4b'' else lit ''4c'')"

definition not_implemented :: "pystr \<Rightarrow> pystr \<Rightarrow> pystr" where
  "not_implemented label phase = label @ lit '' driver not implemented (Phase '' @ phase @ lit '')''"

definition stub_driver :: "backend_type \<Rightarrow> (gateway_config \<Rightarrow> bool) \<Rightarrow> 'w driver" where
  "stub_driver b configured =
     (let label = upper (backend_value b)
      in \<lparr>drv_backend = b, drv_configured = configured,
          drv_send = (\<lambda>req c w. (Inl (Exn NotImplementedError (not_implemented label (stub_phase b))), w)),
          drv_health = (\<lambda>c w. (failed_health (backend_value b)
             (if \<not> configured c then label @ lit '' not configured''
              else not_implemented label (stub_phase b)), w))\<rparr>)"

definition graph_driver :: "'w driver" where
  "graph_driver = stub_driver GRAPH (\<lambda>c. graph c \<noteq> None)"

definition gmail_driver :: "'w driver" where
  "gmail_driver = \<lparr>drv_backend = GMAIL, drv_configured = (\<lambda>_. False),
     drv_send = (\<lambda>req c w. (Inl (Exn NotImplementedError (not_implemented (lit ''Gmail'') (lit ''4c''))), w)),
     drv_health = (\<lambda>c w. (failed_health (backend_value GMAIL)
        (not_implemented (lit ''Gmail'') (lit ''4c'')), w))\<rparr>"

text \<open>The driver of the tests: its state is the list of the requests it got.\<close>

definition mock_driver ::
    "(send_request \<Rightarrow> gateway_config \<Rightarrow> send_result res) option \<Rightarrow> send_request list driver" where
  "mock_driver on_send = \<lparr>drv_backend = EWS, drv_configured = (\<lambda>_. True),
     drv_send = (\<lambda>req c calls. (case on_send of
        Some hook \<Rightarrow> hook req c
      | None \<Rightarrow> Inr \<lparr>message_id = Some (lit ''mock-1''), changekey = None,
                     result_driver = Some (lit ''mock'')\<rparr>, calls @ [req])),
     drv_health = (\<lambda>c calls. (\<lparr>hr_ok = True, hr_latency_ms = 1, hr_detail = lit ''mock ok'',
        hr_error = None, hr_driver = lit ''mock'', hr_extra = []\<rparr>, calls))\<rparr>"

subsection \<open>The registry\<close>

definition get_driver :: "ews_io \<Rightarrow> ews_io \<Rightarrow> backend_type \<Rightarrow> ews_state driver" where
  [simp]: "get_driver io io_failover key =
     (case key of EWS \<Rightarrow> ews_driver io io_failover | GRAPH \<Rightarrow> graph_driver | GMAIL \<Rightarrow> gmail_driver)"

definition resolve_driver :: "ews_io \<Rightarrow> ews_io \<Rightarrow> gateway_config \<Rightarrow> ews_state driver" where
  "resolve_driver io io_failover config = get_driver io io_failover (backend config)"

definition check_backend_health ::
    "'w driver \<Rightarrow> gateway_config \<Rightarrow> 'w \<Rightarrow> health_result \<times> 'w" where
  "check_backend_health d config w =
     (if \<not> drv_configured d config
      then (failed_health (backend_value (drv_backend d)) (driver_label d @ lit '' not configured''), w)
      else drv_health d config w)"

definition backend_label :: "ews_io \<Rightarrow> ews_io \<Rightarrow> gateway_config \<Rightarrow> pystr" where
  "backend_label io io_failover config = driver_label (resolve_driver io io_failover config)"

subsection \<open>The contract\<close>

text \<open>
  A driver that is not configured neither delivers nor reports itself healthy, and it touches
  nothing outside; a failed health check says why.
\<close>

locale mail_driver =
  fixes configured :: "gateway_config \<Rightarrow> bool"
    and send :: "send_request \<Rightarrow> gateway_config \<Rightarrow> 'w \<Rightarrow> send_result res \<times> 'w"
    and health :: "gateway_config \<Rightarrow> 'w \<Rightarrow> health_result \<times> 'w"
  assumes unconfigured_send: "\<not> configured c \<Longrightarrow> (\<exists>e. send req c w = (Inl e, w))"
    and unconfigured_health: "\<not> configured c \<Longrightarrow> \<not> hr_ok (fst (health c w)) \<and> snd (health c w) = w"
    and health_explains: "\<not> hr_ok (fst (health c w)) \<Longrightarrow> hr_error (fst (health c w)) \<noteq> None"
begin

lemma delivered_configured: "send req c w = (Inr r, w') \<Longrightarrow> configured c"
  using unconfigured_send [of c req w] by auto

lemma healthy_configured: "hr_ok (fst (health c w)) \<Longrightarrow> configured c"
  using unconfigured_health [of c w] by auto

text \<open>The registry's check adds the text of the unconfigured case, and no answer.\<close>

lemma checked_health:
  fixes d :: "'w driver"
  assumes "drv_configured d = configured" "drv_health d = health"
  shows "hr_ok (fst (check_backend_health d c w)) = hr_ok (fst (health c w))
    \<and> snd (check_backend_health d c w) = snd (health c w)
    \<and> (hr_ok (fst (check_backend_health d c w)) \<or> hr_error (fst (check_backend_health d c w)) \<noteq> None)"
  using unconfigured_health [of c w] health_explains [of c w] assms
  by (auto simp: check_backend_health_def failed_health_def)

end

interpretation ews_drv: mail_driver "drv_configured (ews_driver io io')"
    "drv_send (ews_driver io io')" "drv_health (ews_driver io io')"
  for io io'
proof
  fix c req w
  show "\<not> drv_configured (ews_driver io io') c \<Longrightarrow> \<exists>e. drv_send (ews_driver io io') req c w = (Inl e, w)"
    by (simp add: ews_driver_def ews_send_def require_ews_def)
  show "\<not> drv_configured (ews_driver io io') c \<Longrightarrow>
      \<not> hr_ok (fst (drv_health (ews_driver io io') c w)) \<and> snd (drv_health (ews_driver io io') c w) = w"
    by (simp add: ews_driver_def ews_health_def failed_health_def)
  show "\<not> hr_ok (fst (drv_health (ews_driver io io') c w)) \<Longrightarrow>
      hr_error (fst (drv_health (ews_driver io io') c w)) \<noteq> None"
    by (auto simp: ews_driver_def ews_health_def failed_health_def check_ews_def
        split: option.splits prod.splits sum.splits if_splits)
qed

interpretation graph_drv: mail_driver "drv_configured (graph_driver :: 'w driver)"
    "drv_send (graph_driver :: 'w driver)" "drv_health (graph_driver :: 'w driver)"
  by unfold_locales (simp_all add: graph_driver_def stub_driver_def failed_health_def Let_def)

interpretation gmail_drv: mail_driver "drv_configured (gmail_driver :: 'w driver)"
    "drv_send (gmail_driver :: 'w driver)" "drv_health (gmail_driver :: 'w driver)"
  by unfold_locales (simp_all add: gmail_driver_def failed_health_def)

interpretation mock_drv: mail_driver "drv_configured (mock_driver h)"
    "drv_send (mock_driver h)" "drv_health (mock_driver h)"
  for h
  by unfold_locales (simp_all add: mock_driver_def)

subsection \<open>What a delivery report means\<close>

lemma send_via_spec:
  assumes "send_via io cfg req ds st = (r, st')" "store_ok (es_accounts st)"
  shows "\<exists>hs. send_spec (io_lib io) cfg req st r st' hs
    \<and> (\<forall>x. r = Inr x \<longrightarrow> result_driver x = Some (lit ''ews''))"
proof -
  obtain r0 where run: "send_mime (io_nets io) (io_exchanges io) (io_lib io) cfg req ds st = (r0, st')"
    and r: "r = (case r0 of Inl e \<Rightarrow> Inl e | Inr x \<Rightarrow> Inr (x\<lparr>result_driver := Some (lit ''ews'')\<rparr>))"
    using assms(1) by (auto simp: send_via_def split: prod.splits sum.splits)
  have ok: "succeeded r = succeeded r0" using r by (cases r0) auto
  from send_mime_spec [OF run assms(2)] obtain hs where
    "send_spec (io_lib io) cfg req st r0 st' hs" by blast
  with ok have "send_spec (io_lib io) cfg req st r st' hs" by (simp add: send_spec_def)
  moreover have "\<forall>x. r = Inr x \<longrightarrow> result_driver x = Some (lit ''ews'')"
    using r by (cases r0) auto
  ultimately show ?thesis by blast
qed

text \<open>A send after one that failed hands over what both did, and is accepted when the second is.\<close>

lemma send_after_failure:
  assumes "send_spec L cfg req st (Inl e) st1 hs1" "send_spec L' cfg' req st1 r2 st2 hs2"
  shows "es_handed st2 = es_handed st @ hs1 @ hs2 \<and> length (hs1 @ hs2) \<le> 4
    \<and> list_all (\<lambda>h. handed_outcome h \<noteq> None) (butlast (hs1 @ hs2))
    \<and> succeeded r2 = (hs1 @ hs2 \<noteq> [] \<and> handed_outcome (last (hs1 @ hs2)) = None)"
proof -
  have fail1: "list_all (\<lambda>h. handed_outcome h \<noteq> None) hs1"
    using send_spec_failed [OF assms(1)] by simp
  have "list_all (\<lambda>h. handed_outcome h \<noteq> None) (butlast (hs1 @ hs2))"
    using fail1 send_specD(6) [OF assms(2)]
    by (cases hs2 rule: rev_cases; cases hs1 rule: rev_cases) (simp_all add: butlast_append)
  moreover have "succeeded r2 = (hs1 @ hs2 \<noteq> [] \<and> handed_outcome (last (hs1 @ hs2)) = None)"
    using fail1 send_specD(5) [OF assms(2)]
    by (cases "hs2 = []"; cases hs1 rule: rev_cases) simp_all
  ultimately show ?thesis
    using send_specD(2,4) [OF assms(1)] send_specD(2,4) [OF assms(2)] by simp
qed

lemma ews_failover_name: "lit ''ews'' @ lit ''+failover'' = lit ''ews+failover''"
  by (simp add: lit_Cons)

definition toy_io :: ews_io where
  "toy_io = \<lparr>io_nets = (old_network, new_network), io_exchanges = (toy_exchange, toy_exchange),
     io_lib = toy_lib, io_inbox_count = (\<lambda>_ _. Inr 3), io_latency_ms = 12\<rparr>"

text \<open>What one \<open>send\<close> hands over, with the primary and the failover server.\<close>

lemma ews_send_hands_over:
  assumes "ews_send io io' req config st = (r, st')" "store_ok (es_accounts st)"
  shows "\<exists>hs. store_ok (es_accounts st') \<and> es_handed st' = es_handed st @ hs \<and> length hs \<le> 4
    \<and> list_all (\<lambda>h. handed_outcome h \<noteq> None) (butlast hs)
    \<and> succeeded r = (hs \<noteq> [] \<and> handed_outcome (last hs) = None)
    \<and> (case r of Inl _ \<Rightarrow> True | Inr x \<Rightarrow>
         (\<exists>cfg. ews config = Some cfg \<and> result_driver x = Some (lit ''ews'')
            \<and> handed_ok (io_lib io) cfg req (last hs))
         \<or> (\<exists>cfg. ews_failover config = Some cfg \<and> result_driver x = Some (lit ''ews+failover'')
            \<and> handed_ok (io_lib io') cfg req (last hs)))"
proof (cases "ews config")
  case None
  with assms show ?thesis by (auto simp: ews_send_def require_ews_def)
next
  case (Some cfg)
  obtain r1 st1 where one: "send_via io cfg req (default_sender config) st = (r1, st1)" by fastforce
  from send_via_spec [OF this assms(2)] obtain hs1 where
    hs1: "send_spec (io_lib io) cfg req st r1 st1 hs1"
    and d1: "\<forall>x. r1 = Inr x \<longrightarrow> result_driver x = Some (lit ''ews'')" by blast
  have run: "(case r1 of Inr x \<Rightarrow> (Inr x, st1)
      | Inl e \<Rightarrow> (case ews_failover config of None \<Rightarrow> (Inl e, st1)
         | Some f \<Rightarrow> (case send_via io' f req (default_sender config) st1 of
             (Inl e, s) \<Rightarrow> (Inl e, s)
           | (Inr x, s) \<Rightarrow> (Inr (x\<lparr>result_driver := Some (backend_value EWS @ lit ''+failover'')\<rparr>), s))))
      = (r, st')"
    using assms(1) Some one by (simp add: ews_send_def require_ews_def)
  show ?thesis
  proof (cases "(\<exists>x. r1 = Inr x) \<or> ews_failover config = None")
    case True
    then have "r = r1" "st' = st1" using run by (auto split: sum.splits)
    with send_specD [OF hs1] send_spec_last [OF hs1] d1 Some show ?thesis
      by (intro exI [of _ hs1]; cases r1) simp_all
  next
    case False
    then obtain e f where e: "r1 = Inl e" and f: "ews_failover config = Some f" by (cases r1) auto
    obtain r2 st2 where two: "send_via io' f req (default_sender config) st1 = (r2, st2)" by fastforce
    from send_via_spec [OF two send_specD(1) [OF hs1]] obtain hs2 where
      hs2: "send_spec (io_lib io') f req st1 r2 st2 hs2" by blast
    have res: "st' = st2" "succeeded r = succeeded r2"
      "\<forall>x. r = Inr x \<longrightarrow> result_driver x = Some (lit ''ews+failover'')"
      using run e f two ews_failover_name by (cases r2; auto)+
    have "hs2 \<noteq> []" if "r = Inr x" for x
      using send_specD(5) [OF hs2] res(2) that by simp
    then show ?thesis
      using f res send_after_failure [OF hs1 [unfolded e] hs2] send_spec_last [OF hs2] send_specD(1) [OF hs2]
      by (intro exI [of _ "hs1 @ hs2"]; cases r) simp_all
  qed
qed

text \<open>
  The Exchange driver never has a mail accepted twice: of all hand-overs of one \<open>send\<close>,
  with the primary and the failover server, every one but the last failed, success is reported
  exactly when the last one was accepted, and the report names the server that accepted it. The
  failover server is only used when the primary failed and one is configured.
\<close>

lemma ews_send_accepted_once:
  assumes "ews_send io io' req config st = (r, st')" "store_ok (es_accounts st)"
  shows "\<exists>hs. es_handed st' = es_handed st @ hs \<and> length hs \<le> 4
    \<and> list_all (\<lambda>h. handed_outcome h \<noteq> None) (butlast hs)
    \<and> succeeded r = (hs \<noteq> [] \<and> handed_outcome (last hs) = None)
    \<and> (case r of Inl _ \<Rightarrow> True | Inr x \<Rightarrow>
         (\<exists>cfg. ews config = Some cfg \<and> result_driver x = Some (lit ''ews'')
            \<and> handed_ok (io_lib io) cfg req (last hs))
         \<or> (\<exists>cfg. ews_failover config = Some cfg \<and> result_driver x = Some (lit ''ews+failover'')
            \<and> handed_ok (io_lib io') cfg req (last hs)))"
  using ews_send_hands_over [OF assms] by blast

lemma ews_send_accepted_once_witness:
  "\<exists>r st' hs. ews_send toy_io toy_io toy_request (sample_config\<lparr>ews_failover := Some sample_tls\<rparr>) start_ews
      = (r, st') \<and> es_handed st' = hs \<and> list_all (\<lambda>h. handed_outcome h \<noteq> None) (butlast hs)"
proof -
  obtain r st' where run: "ews_send toy_io toy_io toy_request
      (sample_config\<lparr>ews_failover := Some sample_tls\<rparr>) start_ews = (r, st')" by fastforce
  have "store_ok (es_accounts start_ews)" by simp
  from ews_send_accepted_once [OF run this] run show ?thesis by (elim exE conjE) simp
qed

text \<open>
  The health check of the registry, for each of the three backends: it reports the
  backend up only if it is configured, says why when it is not up, and leaves an unconfigured
  backend alone; the Graph and Gmail placeholders never report themselves up and never deliver.
\<close>

lemma backend_health_sound:
  "let d = resolve_driver io io' config; (h, st') = check_backend_health d config st
   in (if hr_ok h then drv_configured d config \<and> backend config = EWS else hr_error h \<noteq> None)
      \<and> (drv_configured d config \<or> st' = st \<and> (\<exists>e. drv_send d req config st = (Inl e, st)))
      \<and> (backend config = EWS \<or> (\<exists>e. drv_send d req config st = (Inl e, st)))"
proof (cases "backend config")
  case EWS
  then show ?thesis
    using ews_drv.checked_health [OF refl refl, of io io' config st]
      ews_drv.healthy_configured [of io io' config st] ews_drv.unconfigured_health [of io io' config st]
      ews_drv.unconfigured_send [of io io' config req st]
    by (cases "drv_configured (ews_driver io io') config")
      (auto simp: resolve_driver_def Let_def split: prod.split)
next
  case GRAPH
  then show ?thesis
    using graph_drv.checked_health [OF refl refl, of config st] graph_drv.unconfigured_health [of config st]
    by (auto simp: resolve_driver_def Let_def check_backend_health_def failed_health_def
        graph_driver_def stub_driver_def split: prod.split)
next
  case GMAIL
  then show ?thesis
    by (simp add: resolve_driver_def check_backend_health_def failed_health_def gmail_driver_def)
qed

end
