(* ===== verification/Queue_Processor.thy ===== *)
theory Queue_Processor
  imports Message_Store Event_Hub Queue_Backoff Mail_Drivers
begin

section \<open>Delivering one message (queue/processor.py)\<close>

text \<open>
  \<open>process_row\<close> in the three steps between which other threads act: \<open>begin_delivery\<close> looks
  at the configuration and marks the row, \<open>deliver\<close> reads the row and hands the mail to the
  driver, \<open>settle\<close> records the outcome. What a delivery meets, the driver of the registry and
  the override of the tests, is a \<open>sender\<close> over a state of the outside world. A
  \<open>mail_world\<close> is what the threads share: the table, the outside, the event hub with the
  metrics registry (bootstrap wires one registry to both) and the wake-up flag of the worker. Reading the
  password, the MIME text and the recipients stands before the \<open>try\<close> in the code, so an
  exception there leaves \<open>process_row\<close> and the row as it is.
\<close>

record 'w sender =
  snd_driver :: "gateway_config \<Rightarrow> 'w driver"
  snd_override :: "(send_request \<Rightarrow> ews_config option \<Rightarrow> 'w \<Rightarrow> send_result res \<times> 'w) option"
  snd_crypto :: crypto
  snd_box :: secret_box

record 'w mail_world =
  mw_table :: table
  mw_out :: 'w
  mw_hub :: "event_hub option"
  mw_wake :: bool

definition publish :: "pystr \<Rightarrow> pystr \<Rightarrow> json dict \<Rightarrow> pystr \<Rightarrow> 'w mail_world \<Rightarrow> 'w mail_world" where
  "publish kind message data ts w = w\<lparr>mw_hub := map_option (publish_sync kind message data ts) (mw_hub w)\<rparr>"

definition on_table :: "(table \<Rightarrow> table) \<Rightarrow> 'w mail_world \<Rightarrow> 'w mail_world" where
  "on_table f w = w\<lparr>mw_table := f (mw_table w)\<rparr>"

definition max_attempts :: int where "max_attempts = 8"

text \<open>The row as it is after the first step, or \<open>None\<close> when it was failed there.\<close>

definition begin_delivery ::
    "'w sender \<Rightarrow> gateway_config \<Rightarrow> bool \<Rightarrow> time \<Rightarrow> message_row \<Rightarrow> 'w mail_world
      \<Rightarrow> message_row option \<times> 'w mail_world" where
  "begin_delivery S config already_claimed now row w =
     (let d = snd_driver S config
      in if \<not> drv_configured d config
         then (None, on_table (mark_failed (row_id row) (driver_label d @ lit '' not configured'') now) w)
         else if already_claimed then (Some row, w)
         else (Some (claimed now row), on_table (mark_processing (row_id row) now) w))"

definition row_request :: "'w sender \<Rightarrow> gateway_config \<Rightarrow> message_row \<Rightarrow> send_request res" where
  "row_request S config row =
     bindE (get_password (snd_crypto S) (snd_box S) row) (\<lambda>password.
     bindE (get_mime_bytes row) (\<lambda>mime.
     bindE (row_rcpts row) (\<lambda>rcpts.
       Inr \<lparr>auth_username = or_empty (row_username row), auth_password = password,
            mail_from = row_sender row, rcpt_tos = rcpts, mime_bytes = mime,
            req_default_sender = default_sender config\<rparr>)))"

definition hand_to_driver ::
    "'w sender \<Rightarrow> gateway_config \<Rightarrow> send_request \<Rightarrow> 'w \<Rightarrow> send_result res \<times> 'w" where
  "hand_to_driver S config req out =
     (case snd_override S of
        Some f \<Rightarrow> f req (ews config) out
      | None \<Rightarrow> drv_send (snd_driver S config) req config out)"

text \<open>The outer error is an exception that leaves \<open>process_row\<close>, the inner one the send's.\<close>

definition deliver ::
    "'w sender \<Rightarrow> gateway_config \<Rightarrow> message_row \<Rightarrow> 'w mail_world
      \<Rightarrow> send_result res res \<times> 'w mail_world" where
  "deliver S config row w =
     (case row_request S config row of
        Inl e \<Rightarrow> (Inl e, w)
      | Inr req \<Rightarrow> (case hand_to_driver S config req (mw_out w) of
          (r, out) \<Rightarrow> (Inr r, w\<lparr>mw_out := out\<rparr>)))"

definition settle ::
    "time \<Rightarrow> pystr \<Rightarrow> message_row \<Rightarrow> send_result res \<Rightarrow> 'w mail_world
      \<Rightarrow> send_result option res \<times> 'w mail_world" where
  "settle now ts row r w =
     (let i = row_id row
      in case r of
           Inr result \<Rightarrow>
             (Inr (Some result),
              publish (lit ''queue.sent'') (lit ''Delivered '' @ i) [(lit ''id'', JStr i)] ts
                (on_table (mark_sent i now) w))
         | Inl exc \<Rightarrow>
             (let err = exn_text exc
              in if is_retriable_error exc \<and> attempts row < max_attempts
                 then (case backoff_seconds (attempts row) 5 300 of
                     Inl e \<Rightarrow> (Inl e, w)
                   | Inr delay \<Rightarrow>
                       (Inr None,
                        publish (lit ''queue.retry'')
                          (lit ''Retry '' @ i @ lit '' in '' @ fmt0 delay @ lit ''s'')
                          [(lit ''id'', JStr i), (lit ''error'', JStr err)] ts
                          (on_table (mark_retry i err delay now) w)))
                 else (Inr None,
                       publish (lit ''queue.failed'') (lit ''Failed '' @ i)
                         [(lit ''id'', JStr i), (lit ''error'', JStr err)] ts
                         (on_table (mark_failed i err now) w))))"

definition process_row ::
    "'w sender \<Rightarrow> gateway_config \<Rightarrow> bool \<Rightarrow> time \<Rightarrow> pystr \<Rightarrow> message_row \<Rightarrow> 'w mail_world
      \<Rightarrow> send_result option res \<times> 'w mail_world" where
  "process_row S config already_claimed now ts row w =
     (case begin_delivery S config already_claimed now row w of
        (None, w1) \<Rightarrow> (Inr None, w1)
      | (Some row1, w1) \<Rightarrow>
          (case deliver S config row1 w1 of
             (Inl e, w2) \<Rightarrow> (Inl e, w2)
           | (Inr r, w2) \<Rightarrow> settle now ts row1 r w2))"

text \<open>The mail the API composes; building the text is the job of the MIME library.\<close>

record email_parts =
  part_from :: pystr
  part_to :: pystr
  part_subject :: pystr
  part_body :: pystr
  part_html :: bool

definition build_mime_from_test ::
    "(email_parts \<Rightarrow> bytes) \<Rightarrow> pystr \<Rightarrow> pystr list \<Rightarrow> pystr \<Rightarrow> pystr \<Rightarrow> bool \<Rightarrow> bytes" where
  "build_mime_from_test as_bytes sender rcpts subject body is_html =
     as_bytes \<lparr>part_from = sender, part_to = join_with (lit '', '') rcpts, part_subject = subject,
       part_body = body, part_html = is_html\<rparr>"

subsection \<open>The row after a delivery\<close>

text \<open>The delay of the schedule in microseconds, for a row that may be retried.\<close>

definition retry_delay_us :: "int \<Rightarrow> int" where
  "retry_delay_us n = min (5 * 2 ^ nat (n - 1)) 300 * 1000000"

definition mark_outcome :: "time \<Rightarrow> send_result res \<Rightarrow> int \<Rightarrow> message_row \<Rightarrow> message_row" where
  "mark_outcome now r n x =
     (case r of
        Inr _ \<Rightarrow> x\<lparr>row_status := SENT, last_error := None, next_retry_at := None, updated_at := now\<rparr>
      | Inl e \<Rightarrow>
          if is_retriable_error e \<and> n < 8
          then x\<lparr>row_status := RETRYING, last_error := Some (take 2000 (exn_text e)),
                 next_retry_at := Some (now + retry_delay_us n), updated_at := now\<rparr>
          else x\<lparr>row_status := FAILED, last_error := Some (take 2000 (exn_text e)),
                 next_retry_at := None, updated_at := now\<rparr>)"

definition outcome :: "time \<Rightarrow> send_result res \<Rightarrow> message_row \<Rightarrow> message_row" where
  "outcome now r row = mark_outcome now r (attempts row) row"

definition outcome_event :: "send_result res \<Rightarrow> message_row \<Rightarrow> pystr" where
  "outcome_event r row =
     (case r of Inr _ \<Rightarrow> lit ''queue.sent''
      | Inl e \<Rightarrow> if is_retriable_error e \<and> attempts row < 8 then lit ''queue.retry'' else lit ''queue.failed'')"

lemma mark_outcome_id [simp]: "row_id (mark_outcome now r n x) = row_id x"
    "attempts (mark_outcome now r n x) = attempts x"
  by (simp_all add: mark_outcome_def split: sum.split)

lemma outcome_id [simp]: "row_id (outcome now r row) = row_id row"
    "attempts (outcome now r row) = attempts row"
  by (simp_all add: outcome_def)

lemma outcome_status:
  "row_status (outcome now r row) =
     (case r of Inr _ \<Rightarrow> SENT
      | Inl e \<Rightarrow> if is_retriable_error e \<and> attempts row < 8 then RETRYING else FAILED)"
  by (simp add: outcome_def mark_outcome_def split: sum.split)

lemma backoff_retriable:
  assumes "n < 8"
  shows "\<exists>d. backoff_seconds n 5 300 = Inr d \<and> round_half_even (d * 1000000) = retry_delay_us n"
proof -
  let ?k = "nat (n - 1)"
  have k: "nat ((if n < 1 then 1 else n) - 1) = ?k" by simp
  have "of_int (min (5 * 2 ^ ?k) 300) = min (of_int (5 * 2 ^ ?k)) (of_int 300 :: rat)"
    by (simp only: of_int_min)
  then have "min (5 * 2 ^ ?k) (300 :: rat) * 1000000 = of_int (retry_delay_us n)"
    by (simp add: retry_delay_us_def)
  then have "round_half_even (min (5 * 2 ^ ?k) 300 * 1000000) = retry_delay_us n"
    by (simp only: round_half_even_of_int)
  moreover have "backoff_seconds n 5 300 = Inr (min (5 * 2 ^ ?k) 300)"
    using assms unfolding backoff_seconds_def k Let_def by simp
  ultimately show ?thesis by blast
qed

text \<open>What \<open>settle\<close> does: one row changes to its outcome, one event is published.\<close>

definition settled ::
    "time \<Rightarrow> pystr \<Rightarrow> message_row \<Rightarrow> send_result res \<Rightarrow> 'w mail_world \<Rightarrow> 'w mail_world \<Rightarrow> bool" where
  "settled now ts row r w w' \<longleftrightarrow> mw_out w' = mw_out w
     \<and> (\<exists>m data. mw_hub w' = map_option (publish_sync (outcome_event r row) m data ts) (mw_hub w))
     \<and> row_changed (mw_table w) (outcome now r row) (mw_table w')"

lemma settled_marked:
  assumes "w' = publish (outcome_event r row) m data ts
      (on_table (update_row (row_id row) (mark_outcome now r (attempts row))) w)"
    and "get_message (mw_table w) (row_id row) = Some row"
  shows "settled now ts row r w w'"
proof -
  have "mw_hub w' = map_option (publish_sync (outcome_event r row) m data ts) (mw_hub w)"
    using assms(1) by (simp add: publish_def on_table_def)
  then show ?thesis
    using assms by (auto simp: settled_def row_changed_def publish_def on_table_def ids_update get_message_update outcome_def)
qed

lemmas settle_defs = settle_def Let_def outcome_event_def mark_outcome_def [abs_def]

lemma settle_effect:
  assumes run: "settle now ts row r w = (res, w')"
    and row: "get_message (mw_table w) (row_id row) = Some row"
  shows "res = Inr (case r of Inr x \<Rightarrow> Some x | Inl _ \<Rightarrow> None) \<and> settled now ts row r w w'"
proof (cases r)
  case (Inr x)
  have "settled now ts row r w w'"
    by (rule settled_marked [OF _ row]) (use run Inr in \<open>auto simp: settle_defs mark_sent_def\<close>)
  then show ?thesis using run Inr by (auto simp: settle_def Let_def)
next
  case (Inl e)
  show ?thesis
  proof (cases "is_retriable_error e \<and> attempts row < 8")
    case True
    with backoff_retriable obtain d where d: "backoff_seconds (attempts row) 5 300 = Inr d"
      "round_half_even (d * 1000000) = retry_delay_us (attempts row)" by blast
    have "settled now ts row r w w'"
      by (rule settled_marked [OF _ row])
        (use run Inl True d in \<open>auto simp: settle_defs mark_retry_def max_attempts_def\<close>)
    then show ?thesis using run Inl True d by (auto simp: settle_def Let_def max_attempts_def)
  next
    case False
    have "settled now ts row r w w'"
      by (rule settled_marked [OF _ row])
        (use run Inl False in \<open>auto simp: settle_defs mark_failed_def max_attempts_def\<close>)
    then show ?thesis using run Inl False by (auto simp: settle_def Let_def max_attempts_def)
  qed
qed

lemma settle_changes:
  assumes "settle now ts row r w = (res, w')" "get_message (mw_table w) (row_id row) = Some row"
  shows "row_changed (mw_table w) (outcome now r row) (mw_table w')" "mw_out w' = mw_out w"
    "\<exists>x. res = Inr x"
  using settle_effect [OF assms] by (simp_all add: settled_def)

lemma deliver_effect:
  assumes "deliver S config row w = (r, w')"
  shows "mw_table w' = mw_table w \<and> mw_hub w' = mw_hub w
    \<and> (case row_request S config row of Inl e \<Rightarrow> r = Inl e \<and> w' = w
       | Inr req \<Rightarrow> \<exists>x out. hand_to_driver S config req (mw_out w) = (x, out) \<and> r = Inr x \<and> mw_out w' = out)"
  using assms by (auto simp: deliver_def split: sum.splits prod.splits)

text \<open>A status a delivery may leave a row in, after so many attempts.\<close>

definition settled_status :: "message_row \<Rightarrow> bool" where
  "settled_status r \<longleftrightarrow> row_status r = SENT \<or> row_status r = FAILED
     \<or> row_status r = RETRYING \<and> attempts r < 8"

lemma outcome_settled [simp]: "settled_status (outcome now r row)"
  by (simp add: settled_status_def outcome_status split: sum.split)

text \<open>The part of a row that is the mail; only the rest of it changes.\<close>

definition row_mail :: "message_row
    \<Rightarrow> pystr option \<times> pystr option \<times> pystr option \<times> pystr \<times> pystr" where
  "row_mail r = (row_username r, row_password_enc r, mime_payload r, row_recipients r, row_sender r)"

lemma row_request_mail: "row_mail r' = row_mail r \<Longrightarrow> row_request S cfg r' = row_request S cfg r"
  by (simp add: row_mail_def row_request_def get_password_def get_mime_bytes_def row_rcpts_def)

lemma row_mail_claimed [simp]: "row_mail (claimed now r) = row_mail r"
  by (simp add: row_mail_def claimed_def)

lemma row_mail_outcome [simp]: "row_mail (outcome now x r) = row_mail r"
  by (auto simp: row_mail_def outcome_def mark_outcome_def split: sum.split)

lemma begin_None:
  assumes "begin_delivery S config True now row w = (None, w')"
    and "get_message (mw_table w) (row_id row) = Some row"
  obtains r' where "row_changed (mw_table w) r' (mw_table w')" "row_id r' = row_id row"
    "attempts r' = attempts row" "row_status r' = FAILED" "mw_out w' = mw_out w" "row_mail r' = row_mail row"
proof -
  let ?r = "row\<lparr>row_status := FAILED, last_error := Some (take 2000
    (driver_label (snd_driver S config) @ lit '' not configured'')), next_retry_at := None, updated_at := now\<rparr>"
  have w': "w' = on_table (mark_failed (row_id row)
      (driver_label (snd_driver S config) @ lit '' not configured'') now) w"
    using assms(1) by (simp add: begin_delivery_def Let_def split: if_splits)
  have "row_changed (mw_table w) ?r (mw_table w')"
    using assms(2) by (simp add: w' on_table_def mark_failed_def row_changed_def ids_update get_message_update)
  then show ?thesis by (rule that) (simp_all add: w' on_table_def row_mail_def)
qed

lemma begin_Some: "begin_delivery S config True now row w = (Some row', w') \<Longrightarrow> row' = row \<and> w' = w"
  by (simp add: begin_delivery_def Let_def split: if_splits)

lemma begin_claimed:
  "drv_configured (snd_driver S config) config \<Longrightarrow> begin_delivery S config True now row w = (Some row, w)"
  by (simp add: begin_delivery_def Let_def)

lemma begin_unconfigured:
  "\<not> drv_configured (snd_driver S config) config \<Longrightarrow>
    begin_delivery S config c now row w = (None, on_table (mark_failed (row_id row)
      (driver_label (snd_driver S config) @ lit '' not configured'') now) w)"
  by (simp add: begin_delivery_def Let_def)

lemma process_row_table:
  assumes "process_row S config True now ts row w = (res, w')"
    and row: "get_message (mw_table w) (row_id row) = Some row"
  shows "case res of Inl e \<Rightarrow> mw_table w' = mw_table w
    | Inr _ \<Rightarrow> \<exists>r'. row_changed (mw_table w) r' (mw_table w') \<and> row_id r' = row_id row
        \<and> attempts r' = attempts row \<and> settled_status r'"
proof (cases "begin_delivery S config True now row w")
  case (Pair b w1)
  show ?thesis
  proof (cases b)
    case None
    with Pair have "begin_delivery S config True now row w = (None, w1)" by simp
    then show ?thesis
    proof (rule begin_None [OF _ row])
      fix r' assume "row_changed (mw_table w) r' (mw_table w1)" "row_id r' = row_id row"
        "attempts r' = attempts row" "row_status r' = FAILED"
      moreover have "res = Inr None" "w' = w1" using assms(1) Pair None by (simp_all add: process_row_def)
      ultimately show ?thesis by (auto simp: settled_status_def)
    qed
  next
    case (Some row1)
    with Pair begin_Some have b: "begin_delivery S config True now row w = (Some row, w)" by blast
    obtain d w2 where d: "deliver S config row w = (d, w2)" by fastforce
    with deliver_effect have t2: "mw_table w2 = mw_table w" by blast
    show ?thesis
    proof (cases d)
      case (Inl e)
      with b d t2 assms(1) show ?thesis by (auto simp: process_row_def)
    next
      case (Inr r)
      with b d assms(1) have "settle now ts row r w2 = (res, w')" by (simp add: process_row_def)
      from settle_changes [OF this] row t2 show ?thesis by fastforce
    qed
  qed
qed

text \<open>Every row the queue was given can be read back, so only its own data can be unreadable.\<close>

lemma row_request_inserted:
  assumes "aead_law (snd_crypto S)" "length nonce = 12" "list_all (list_all is_scalar) (nm_recipients m)"
    and "insert_message (snd_crypto S) (snd_box S) nonce uuid now m t = Inr (row, t')"
  shows "row_request S config row = Inr \<lparr>auth_username = nm_username m, auth_password = nm_password m,
    mail_from = nm_sender m, rcpt_tos = nm_recipients m, mime_bytes = nm_mime m,
    req_default_sender = default_sender config\<rparr>"
  using inserted_row [OF assms] assms(4)
  by (auto simp: row_request_def elim: insert_message_InrD)

lemma row_request_claimed [simp]: "row_request S config (claimed now row) = row_request S config row"
  by (rule row_request_mail) simp

lemma begin_effect:
  assumes "get_message (mw_table w) (row_id row) = Some row"
    and "drv_configured (snd_driver S config) config"
  shows "\<exists>w1. let row1 = if c then row else claimed now row in
    begin_delivery S config c now row w = (Some row1, w1) \<and> mw_out w1 = mw_out w \<and> mw_hub w1 = mw_hub w
    \<and> (\<forall>j. get_message (mw_table w1) j = (if j = row_id row then Some row1 else get_message (mw_table w) j))"
  using assms
  by (auto simp: begin_delivery_def Let_def on_table_def mark_processing_def get_message_update claimed_def)

lemma claimed_row [simp]: "row_id (claimed now row) = row_id row"
    "attempts (claimed now row) = attempts row + 1" "row_status (claimed now row) = PROCESSING"
  by (simp_all add: claimed_def)

text \<open>
  C19. One delivery, on every outcome of the send: with the driver configured and the row
  readable the mail is handed over exactly once, and the row, whose attempt was counted, is SENT
  when the send succeeded; RETRYING, due after 5, 10, 20, ... and at most 300 seconds, when it
  failed with a transient error before the eighth attempt; FAILED otherwise. The error is kept
  up to 2000 characters, no other row changes, and one event of the same name is published.
\<close>

theorem process_row_settles:
  assumes row: "get_message (mw_table w) (row_id row) = Some row"
    and configured: "drv_configured (snd_driver S config) config"
    and req: "row_request S config row = Inr req"
    and sent: "hand_to_driver S config req (mw_out w) = (r, out)"
    and run: "process_row S config c now ts row w = (res, w')"
  shows "\<exists>row' kind m data. get_message (mw_table w') (row_id row) = Some row'
    \<and> attempts row' = attempts row + (if c then 0 else 1) \<and> mw_out w' = out
    \<and> res = Inr (case r of Inr x \<Rightarrow> Some x | Inl _ \<Rightarrow> None)
    \<and> (case r of
         Inr x \<Rightarrow> row_status row' = SENT \<and> last_error row' = None \<and> kind = lit ''queue.sent''
       | Inl e \<Rightarrow> last_error row' = Some (take 2000 (exn_text e))
           \<and> (if is_retriable_error e \<and> attempts row' < 8
              then row_status row' = RETRYING \<and> kind = lit ''queue.retry''
                \<and> next_retry_at row' = Some (now + min (5 * 2 ^ nat (attempts row' - 1)) 300 * 1000000)
              else row_status row' = FAILED \<and> kind = lit ''queue.failed'' \<and> next_retry_at row' = None))
    \<and> mw_hub w' = map_option (publish_sync kind m data ts) (mw_hub w)
    \<and> (\<forall>j. j = row_id row \<or> get_message (mw_table w') j = get_message (mw_table w) j)"
proof -
  define row1 where "row1 = (if c then row else claimed now row)"
  from begin_effect [OF row configured, of c now] obtain w1 where
    w1: "begin_delivery S config c now row w = (Some row1, w1)" "mw_out w1 = mw_out w" "mw_hub w1 = mw_hub w"
      "\<And>j. get_message (mw_table w1) j = (if j = row_id row then Some row1 else get_message (mw_table w) j)"
    unfolding row1_def Let_def by blast
  have row1: "row_id row1 = row_id row" "attempts row1 = attempts row + (if c then 0 else 1)"
    "row_request S config row1 = Inr req"
    using req by (simp_all add: row1_def)
  let ?w2 = "w1\<lparr>mw_out := out\<rparr>"
  have "deliver S config row1 w1 = (Inr r, ?w2)"
    using row1(3) sent w1(2) by (simp add: deliver_def)
  then have st: "settle now ts row1 r ?w2 = (res, w')"
    using run w1(1) by (simp add: process_row_def)
  have "get_message (mw_table ?w2) (row_id row1) = Some row1" using w1(4) row1(1) by simp
  from settle_effect [OF st this] obtain m data where
    res: "res = Inr (case r of Inr x \<Rightarrow> Some x | Inl _ \<Rightarrow> None)" and out: "mw_out w' = out"
    and hub: "mw_hub w' = map_option (publish_sync (outcome_event r row1) m data ts) (mw_hub w)"
    and tab: "\<And>j. get_message (mw_table w') j =
      (if j = row_id row then Some (outcome now r row1) else get_message (mw_table w) j)"
    using w1 row1 by (auto simp: settled_def row_changed_def)
  show ?thesis
    by (rule exI [of _ "outcome now r row1"], rule exI [of _ "outcome_event r row1"], rule exI [of _ m],
        rule exI [of _ data])
      (use res out hub tab row1 in \<open>auto simp: outcome_def mark_outcome_def outcome_event_def
        retry_delay_us_def split: sum.splits\<close>)
qed

text \<open>
  C20. The two ways a delivery ends without a send. Without a configured driver the claimed row
  is failed at once and nothing else happens. And when the row cannot be read (the key changed,
  the payload is damaged), \<open>process_row\<close> raises and changes nothing: the row stays in the
  status PROCESSING, in which no worker ever selects it again.
\<close>

theorem process_row_without_send:
  assumes row: "get_message (mw_table w) (row_id row) = Some row" and busy: "row_status row = PROCESSING"
    and run: "process_row S config True now ts row w = (res, w')"
    and blocked: "\<not> drv_configured (snd_driver S config) config \<or> row_request S config row = Inl e"
  shows "mw_out w' = mw_out w \<and> mw_hub w' = mw_hub w
    \<and> (if drv_configured (snd_driver S config) config
       then res = Inl e \<and> w' = w \<and> (\<forall>now'. select_next now' (mw_table w') \<noteq> Some row)
       else res = Inr None \<and> (\<exists>row'. get_message (mw_table w') (row_id row) = Some row'
         \<and> row_status row' = FAILED
         \<and> last_error row' = Some (take 2000 (driver_label (snd_driver S config) @ lit '' not configured''))))"
proof (cases "drv_configured (snd_driver S config) config")
  case True
  then have "row_request S config row = Inl e" using blocked by simp
  then have "res = Inl e" "w' = w"
    using run begin_claimed [OF True] by (auto simp: process_row_def deliver_def)
  moreover have "select_next now' (mw_table w') \<noteq> Some row" for now'
    using busy by (auto simp: is_due_def is_pending_def dest: select_next_due)
  ultimately show ?thesis using True by simp
next
  case False
  then show ?thesis
    using run begin_unconfigured [OF False] row
    by (auto simp: process_row_def on_table_def mark_failed_def get_message_update)
qed

subsection \<open>A delivery to evaluate\<close>

definition toy_sender :: "send_request list sender" where
  "toy_sender = \<lparr>snd_driver = (\<lambda>_. mock_driver (Some (\<lambda>req c. Inl (Exn ConnectionError (lit ''timed out''))))),
     snd_override = None, snd_crypto = toy_crypto, snd_box = \<lparr>box_key = []\<rparr>\<rparr>"

definition toy_row :: message_row where
  "toy_row = \<lparr>row_id = lit ''msg_1'', client_ip = [], raw_auth_user = [], sanitized_user = [],
     row_sender = lit ''a@example.com'', row_recipients = dumps_default (JList (map JStr [lit ''b@example.com''])),
     row_subject = [], row_body = [], row_status = PROCESSING, attempts = 2, last_error = None,
     mime_payload = None, row_username = None, row_password_enc = None, next_retry_at = None,
     created_at = 0, updated_at = 0\<rparr>"

definition toy_world :: "send_request list mail_world" where
  "toy_world = \<lparr>mw_table = [toy_row], mw_out = [], mw_hub = None, mw_wake = False\<rparr>"

lemma toy_facts [simp]:
  "row_id toy_row = lit ''msg_1''" "attempts toy_row = 2" "row_status toy_row = PROCESSING"
  "row_password_enc toy_row = None" "mime_payload toy_row = None" "row_username toy_row = None"
  "row_sender toy_row = lit ''a@example.com''"
  by (simp_all add: toy_row_def)

lemma toy_rcpts: "row_rcpts (toy_row\<lparr>mime_payload := p\<rparr>) = Inr [lit ''b@example.com'']"
  by (rule row_rcpts_dumps) (simp_all add: toy_row_def lit_Cons is_scalar_def)

lemma toy_timeout: "is_retriable_error (Exn ConnectionError (lit ''timed out''))"
  by code_simp

theorem process_row_settles_witness:
  "\<exists>row'. get_message (mw_table (snd (process_row toy_sender sample_config True 1000 [] toy_row toy_world)))
       (lit ''msg_1'') = Some row'
     \<and> row_status row' = RETRYING \<and> attempts row' = 2 \<and> next_retry_at row' = Some 10001000"
proof -
  obtain res w' where run: "process_row toy_sender sample_config True 1000 [] toy_row toy_world = (res, w')"
    by fastforce
  have row: "get_message (mw_table toy_world) (row_id toy_row) = Some toy_row"
    by (simp add: toy_world_def)
  have conf: "drv_configured (snd_driver toy_sender sample_config) sample_config"
    by (simp add: toy_sender_def mock_driver_def)
  obtain req where req: "row_request toy_sender sample_config toy_row = Inr req"
    using toy_rcpts [of None] by (simp add: row_request_def get_password_def get_mime_bytes_def toy_row_def)
  have "hand_to_driver toy_sender sample_config req (mw_out toy_world)
      = (Inl (Exn ConnectionError (lit ''timed out'')), [req])"
    by (simp add: hand_to_driver_def toy_sender_def mock_driver_def toy_world_def)
  from process_row_settles [OF row conf req this run] run toy_timeout show ?thesis
    by (elim exE conjE) simp
qed

theorem process_row_without_send_witness:
  "\<exists>e. process_row toy_sender sample_config True 1000 [] (toy_row\<lparr>mime_payload := Some [233]\<rparr>)
      (toy_world\<lparr>mw_table := [toy_row\<lparr>mime_payload := Some [233]\<rparr>]\<rparr>)
    = (Inl e, toy_world\<lparr>mw_table := [toy_row\<lparr>mime_payload := Some [233]\<rparr>]\<rparr>)"
proof -
  let ?row = "toy_row\<lparr>mime_payload := Some [233]\<rparr>"
  let ?w = "toy_world\<lparr>mw_table := [?row]\<rparr>"
  obtain res w' where run: "process_row toy_sender sample_config True 1000 [] ?row ?w = (res, w')"
    by fastforce
  have conf: "drv_configured (snd_driver toy_sender sample_config) sample_config"
    by (simp add: toy_sender_def mock_driver_def)
  obtain e where "row_request toy_sender sample_config ?row = Inl e"
    by (simp add: row_request_def get_password_def get_mime_bytes_def ascii_encode_def)
  from process_row_without_send [OF _ _ run disjI2 [OF this]] run conf show ?thesis by simp
qed

end
