(* ===== verification/Circuit_Breaker.thy ===== *)
theory Circuit_Breaker
  imports Py_Prelude
begin

section \<open>The outbound circuit breaker (queue/circuit\_breaker.py)\<close>

text \<open>
  \<open>CircuitBreaker\<close> as a record and its methods as functions on it. Each method runs under the
  breaker's lock, so a call is one atomic step; the reading of \<open>time.monotonic()\<close> is an
  argument. \<open>breaker_refines\<close> relates the machine to the trace of calls made on it:
  how many failures were recorded since the last success, and when the last one was.
\<close>

datatype circuit_state = CLOSED | OPEN | HALF_OPEN

definition env_int :: "environ \<Rightarrow> pystr \<Rightarrow> int \<Rightarrow> int" where
  "env_int env name dflt =
     (let raw = strip (or_empty (env name))
      in if raw = [] then dflt
         else (case py_int raw of Inl _ \<Rightarrow> dflt | Inr n \<Rightarrow> n))"

text \<open>The parser of \<open>float\<close> is an argument; \<open>None\<close> is its ValueError.\<close>

definition env_float :: "(pystr \<Rightarrow> secs option) \<Rightarrow> environ \<Rightarrow> pystr \<Rightarrow> secs \<Rightarrow> secs" where
  "env_float parse_float env name dflt =
     (let raw = strip (or_empty (env name))
      in if raw = [] then dflt
         else (case parse_float raw of None \<Rightarrow> dflt | Some x \<Rightarrow> x))"

record breaker =
  failure_threshold :: int
  cooldown_seconds :: secs
  br_failures :: int
  br_opened_at :: secs
  br_state :: circuit_state

definition fresh_breaker :: "int \<Rightarrow> secs \<Rightarrow> breaker" where
  "fresh_breaker k cd = \<lparr>failure_threshold = k, cooldown_seconds = cd, br_failures = 0,
     br_opened_at = 0, br_state = CLOSED\<rparr>"

definition init_breaker ::
    "(pystr \<Rightarrow> secs option) \<Rightarrow> environ \<Rightarrow> int option \<Rightarrow> secs option \<Rightarrow> breaker" where
  "init_breaker parse_float env threshold cooldown = fresh_breaker
     (case threshold of Some k \<Rightarrow> k
        | None \<Rightarrow> max 1 (env_int env (lit ''MSGATE_CIRCUIT_FAILURE_THRESHOLD'') 5))
     (case cooldown of Some cd \<Rightarrow> cd
        | None \<Rightarrow> max 1 (env_float parse_float env (lit ''MSGATE_CIRCUIT_COOLDOWN_SECONDS'') 60))"

definition maybe_half_open :: "secs \<Rightarrow> breaker \<Rightarrow> breaker" where
  "maybe_half_open now b =
     (if br_state b \<noteq> OPEN then b
      else if cooldown_seconds b \<le> now - br_opened_at b then b\<lparr>br_state := HALF_OPEN\<rparr>
      else b)"

definition breaker_state :: "secs \<Rightarrow> breaker \<Rightarrow> circuit_state \<times> breaker" where
  "breaker_state now b = (let b' = maybe_half_open now b in (br_state b', b'))"

definition allow :: "secs \<Rightarrow> breaker \<Rightarrow> bool \<times> breaker" where
  "allow now b = (let b' = maybe_half_open now b in (br_state b' \<noteq> OPEN, b'))"

definition record_success :: "breaker \<Rightarrow> breaker" where
  "record_success b = b\<lparr>br_failures := 0, br_state := CLOSED, br_opened_at := 0\<rparr>"

definition record_failure :: "secs \<Rightarrow> breaker \<Rightarrow> breaker" where
  "record_failure now b =
     (let b' = b\<lparr>br_failures := br_failures b + 1\<rparr>
      in if failure_threshold b' \<le> br_failures b'
         then b'\<lparr>br_state := OPEN, br_opened_at := now\<rparr> else b')"

definition queue_max_pending :: "environ \<Rightarrow> int" where
  "queue_max_pending env = max 1 (env_int env (lit ''MSGATE_QUEUE_MAX_PENDING'') 5000)"

lemmas breaker_defs [step_defs] =
  fresh_breaker_def maybe_half_open_def breaker_state_def allow_def record_success_def
  record_failure_def

subsection \<open>Calls and their trace\<close>

datatype breaker_call = Query secs | Success secs | Failure secs

fun call_time :: "breaker_call \<Rightarrow> secs" where
  "call_time (Query t) = t"
| "call_time (Success t) = t"
| "call_time (Failure t) = t"

fun breaker_step :: "breaker \<Rightarrow> breaker_call \<Rightarrow> breaker" where
  "breaker_step b (Query t) = snd (allow t b)"
| "breaker_step b (Success t) = record_success b"
| "breaker_step b (Failure t) = record_failure t b"

definition run_breaker :: "breaker \<Rightarrow> breaker_call list \<Rightarrow> breaker" where
  "run_breaker b calls = foldl breaker_step b calls"

text \<open>The specification: two functions of the trace.\<close>

fun count_failure :: "int \<Rightarrow> breaker_call \<Rightarrow> int" where
  "count_failure n (Query t) = n"
| "count_failure n (Success t) = 0"
| "count_failure n (Failure t) = n + 1"

definition consecutive_failures :: "breaker_call list \<Rightarrow> int" where
  "consecutive_failures calls = foldl count_failure 0 calls"

fun note_failure :: "secs \<Rightarrow> breaker_call \<Rightarrow> secs" where
  "note_failure t (Failure t') = t'"
| "note_failure t _ = t"

definition last_failure :: "breaker_call list \<Rightarrow> secs" where
  "last_failure calls = foldl note_failure 0 calls"

lemma run_breaker_snoc [simp]:
  "run_breaker b [] = b"
  "run_breaker b (calls @ [c]) = breaker_step (run_breaker b calls) c"
  by (simp_all add: run_breaker_def)

lemma trace_snoc [simp]:
  "consecutive_failures [] = 0"
  "consecutive_failures (calls @ [c]) = count_failure (consecutive_failures calls) c"
  "last_failure (calls @ [c]) = note_failure (last_failure calls) c"
  by (simp_all add: consecutive_failures_def last_failure_def)

text \<open>What relates a breaker to a trace whose clock is not past \<open>now\<close>.\<close>

definition breaker_refines ::
    "int \<Rightarrow> secs \<Rightarrow> breaker_call list \<Rightarrow> secs \<Rightarrow> breaker \<Rightarrow> bool" where
  "breaker_refines k cd calls now b \<longleftrightarrow>
     failure_threshold b = k \<and> cooldown_seconds b = cd
     \<and> br_failures b = consecutive_failures calls
     \<and> (if br_failures b < k then br_state b = CLOSED
        else br_state b \<noteq> CLOSED \<and> br_opened_at b = last_failure calls
             \<and> (br_state b = HALF_OPEN \<longrightarrow> cd \<le> now - br_opened_at b))"

lemma breaker_refines_later:
  "breaker_refines k cd calls t b \<Longrightarrow> t \<le> t' \<Longrightarrow> breaker_refines k cd calls t' b"
  by (auto simp: breaker_refines_def split: if_splits)

lemma breaker_refines_half_open:
  "breaker_refines k cd calls t b \<Longrightarrow> breaker_refines k cd calls t (maybe_half_open t b)"
  by (auto simp: breaker_refines_def maybe_half_open_def split: if_splits)

lemma breaker_refines_call:
  assumes "breaker_refines k cd calls t b" and "1 \<le> k" and "t \<le> call_time c"
  shows "breaker_refines k cd (calls @ [c]) (call_time c) (breaker_step b c)"
proof -
  from assms have r: "breaker_refines k cd calls (call_time c) b"
    by (auto intro: breaker_refines_later)
  show ?thesis
  proof (cases c)
    case (Query t')
    with r have "breaker_refines k cd calls t' (maybe_half_open t' b)"
      by (simp add: breaker_refines_half_open)
    with Query show ?thesis
      by (auto simp: breaker_refines_def allow_def Let_def split: if_splits)
  next
    case (Success t')
    with r assms(2) show ?thesis
      by (simp add: breaker_refines_def record_success_def)
  next
    case (Failure t')
    with r show ?thesis
      by (auto simp: breaker_refines_def record_failure_def Let_def split: if_splits)
  qed
qed

lemma run_breaker_refines:
  assumes "1 \<le> k" and "sorted (map call_time calls @ [t])"
  shows "breaker_refines k cd calls t (run_breaker (fresh_breaker k cd) calls)"
  using assms(2)
proof (induction calls arbitrary: t rule: rev_induct)
  case Nil
  with assms(1) show ?case by (simp add: breaker_refines_def fresh_breaker_def)
next
  case (snoc c calls)
  from snoc.prems have "call_time c \<le> t" and "sorted (map call_time calls @ [call_time c])"
    by (auto simp: sorted_append)
  with snoc.IH have
    "breaker_refines k cd (calls @ [c]) (call_time c)
       (breaker_step (run_breaker (fresh_breaker k cd) calls) c)"
    by (intro breaker_refines_call [OF _ assms(1), of _ _ "call_time c"]) auto
  with \<open>call_time c \<le> t\<close> show ?case
    by (auto intro: breaker_refines_later)
qed

lemma refines_maybe_half_open_state:
  assumes "breaker_refines k cd calls t b"
  shows "br_state (maybe_half_open t b) =
    (if consecutive_failures calls < k then CLOSED
     else if t - last_failure calls < cd then OPEN else HALF_OPEN)"
  using assms
  by (cases "br_state b") (auto simp: breaker_refines_def maybe_half_open_def split: if_splits)

subsection \<open>What the breaker promises\<close>

text \<open>
  C21. Whatever calls were made on a breaker of threshold at least one, under a clock that
  does not run backwards: its state is CLOSED while fewer than \<open>k\<close> failures were recorded
  since the last success, else OPEN until the cooldown has passed since the last failure, and
  HALF\_OPEN from then on. \<open>allow\<close> refuses exactly in the OPEN case.
\<close>

theorem breaker_state_of_trace:
  assumes "1 \<le> k" and "sorted (map call_time calls @ [t])"
  shows "fst (breaker_state t (run_breaker (fresh_breaker k cd) calls)) =
      (if consecutive_failures calls < k then CLOSED
       else if t - last_failure calls < cd then OPEN else HALF_OPEN)
    \<and> fst (allow t (run_breaker (fresh_breaker k cd) calls)) =
      (consecutive_failures calls < k \<or> cd \<le> t - last_failure calls)"
  using refines_maybe_half_open_state [OF run_breaker_refines [OF assms]]
  by (auto simp: breaker_state_def allow_def Let_def)

theorem breaker_state_of_trace_witness:
  "fst (breaker_state 9 (run_breaker (fresh_breaker 2 60)
      [Failure 1, Success 2, Failure 3, Query 4, Failure 5])) = OPEN
   \<and> \<not> fst (allow 9 (run_breaker (fresh_breaker 2 60)
      [Failure 1, Success 2, Failure 3, Query 4, Failure 5]))"
  using breaker_state_of_trace
    [of 2 "[Failure 1, Success 2, Failure 3, Query 4, Failure 5]" 9 60]
  by (simp add: consecutive_failures_def last_failure_def)

text \<open>
  HALF\_OPEN does not admit one probe but every caller: once a caller was let through,
  every later call of \<open>allow\<close> is let through as well, until a result is recorded.
\<close>

lemma allow_admits_every_later_caller:
  assumes "1 \<le> k" and "sorted (map call_time calls @ [t])" and "t \<le> t'"
    and "fst (allow t (run_breaker (fresh_breaker k cd) calls))"
  shows "fst (allow t' (snd (allow t (run_breaker (fresh_breaker k cd) calls))))"
proof -
  from assms(2,3) have "sorted (map call_time (calls @ [Query t]) @ [t'])"
    by (auto simp: sorted_append)
  from breaker_state_of_trace [OF assms(1) this, of cd] breaker_state_of_trace [OF assms(1,2), of cd]
    assms(3,4) show ?thesis by auto
qed

lemma allow_admits_every_later_caller_witness:
  "fst (allow 100 (run_breaker (fresh_breaker 1 60) [Failure 1]))
   \<and> fst (allow 101 (snd (allow 100 (run_breaker (fresh_breaker 1 60) [Failure 1]))))"
proof -
  have "fst (allow 100 (run_breaker (fresh_breaker 1 60) [Failure 1]))"
    by (simp add: run_breaker_def breaker_defs)
  with allow_admits_every_later_caller [of 1 "[Failure 1]" 100 101 60] show ?thesis by simp
qed

text \<open>The configured breaker has a threshold and a cooldown of at least one.\<close>

lemma init_breaker_default_bounds:
  "1 \<le> failure_threshold (init_breaker parse_float env None None)
   \<and> 1 \<le> cooldown_seconds (init_breaker parse_float env None None)"
  by (simp add: init_breaker_def fresh_breaker_def)

lemma queue_max_pending_pos: "1 \<le> queue_max_pending env"
  by (simp add: queue_max_pending_def)

lemma state_enum_example: "fst (breaker_state 61 (record_failure 1 (fresh_breaker 1 60))) = HALF_OPEN"
  by (simp add: breaker_defs)

end
