(* ===== verification/Queue_Service.thy ===== *)
theory Queue_Service
  imports Queue_Processor Circuit_Breaker
begin

section \<open>Accepting mail into the queue (queue/service.py)\<close>

text \<open>
  \<open>QueueService\<close>: \<open>check_backpressure\<close> decides whether a mail is taken at all, \<open>accept_smtp\<close>
  stores it, publishes the event and wakes the worker; \<open>list_queue\<close> is what the API and the
  dashboard read. The service keeps no state of its own: it works on the \<open>mail_world\<close> and,
  for the back-pressure, on the circuit breaker.
\<close>

record accept_result =
  acc_message_id :: pystr
  acc_status :: pystr
  acc_delivered :: bool

definition on_metrics :: "(metrics \<Rightarrow> metrics) \<Rightarrow> 'w mail_world \<Rightarrow> 'w mail_world" where
  "on_metrics f w =
     w\<lparr>mw_hub := map_option (\<lambda>h. h\<lparr>hub_metrics := map_option f (hub_metrics h)\<rparr>) (mw_hub w)\<rparr>"

definition reject_on_circuit :: "environ \<Rightarrow> bool" where
  "reject_on_circuit env \<longleftrightarrow>
     lower (strip (case env (lit ''MSGATE_SMTP_REJECT_ON_CIRCUIT'') of None \<Rightarrow> lit ''true'' | Some s \<Rightarrow> s))
       \<in> {lit ''1'', lit ''true'', lit ''yes'', lit ''on''}"

text \<open>Asking an open breaker for its state may move it to HALF_OPEN, so it is returned.\<close>

definition circuit_is_open :: "environ \<Rightarrow> secs \<Rightarrow> breaker option \<Rightarrow> bool \<times> breaker option" where
  "circuit_is_open env tick circuit =
     (case circuit of
        None \<Rightarrow> (False, None)
      | Some b \<Rightarrow>
          if reject_on_circuit env
          then (case breaker_state tick b of (s, b') \<Rightarrow> (s = OPEN, Some b'))
          else (False, Some b))"

definition reply_circuit_open :: pystr where
  "reply_circuit_open = lit ''451 temporary failure: outbound circuit open '' @ em_dash @ lit '' try later''"

definition reply_queue_full :: "int \<Rightarrow> int \<Rightarrow> pystr" where
  "reply_queue_full pending maximum = lit ''452 insufficient storage: queue full ('' @ str_int pending @ lit ''/''
     @ str_int maximum @ lit '') '' @ em_dash @ lit '' try later''"

definition check_backpressure ::
    "environ \<Rightarrow> int \<Rightarrow> secs \<Rightarrow> breaker option \<Rightarrow> 'w mail_world
      \<Rightarrow> pystr option \<times> breaker option \<times> 'w mail_world" where
  "check_backpressure env max_pending tick circuit w =
     (case circuit_is_open env tick circuit of (is_open, circuit') \<Rightarrow>
        if is_open
        then (Some reply_circuit_open, circuit', on_metrics inc_smtp_deferred w)
        else (let pending = count_pending (mw_table w)
              in if max_pending \<le> pending
                 then (Some (reply_queue_full pending max_pending), circuit', on_metrics inc_smtp_deferred w)
                 else (None, circuit', w)))"

text \<open>\<open>ins\<close> holds what the insertion takes from outside: nonce, identifier and clock.\<close>

record insert_io =
  ins_nonce :: bytes
  ins_uuid :: pystr
  ins_now :: time
  ins_ts :: pystr

definition accept_smtp ::
    "crypto \<Rightarrow> secret_box \<Rightarrow> mail_lib \<Rightarrow> insert_io \<Rightarrow> new_message \<Rightarrow> 'w mail_world
      \<Rightarrow> accept_result res \<times> 'w mail_world" where
  "accept_smtp C box L ins m w =
     (let subject = or_empty (msg_subject (parse_mime L (nm_mime m)));
          m' = m\<lparr>nm_subject := subject\<rparr>
      in case insert_message C box (ins_nonce ins) (ins_uuid ins) (ins_now ins) m' (mw_table w) of
           Inl e \<Rightarrow> (Inl e, w)
         | Inr (row, t') \<Rightarrow>
             (Inr \<lparr>acc_message_id = row_id row, acc_status = status_value (row_status row),
                acc_delivered = False\<rparr>,
              (publish (lit ''smtp.data'')
                 (lit ''SMTP accepted '' @ row_id row @ lit '' '' @ arrow @ lit '' '' @ status_value QUEUED)
                 [(lit ''message_id'', JStr (row_id row)), (lit ''mail_from'', JStr (nm_sender m)),
                  (lit ''subject'', JStr subject)] (ins_ts ins)
                 (w\<lparr>mw_table := t'\<rparr>))\<lparr>mw_wake := True\<rparr>))"

definition submit_test ::
    "crypto \<Rightarrow> secret_box \<Rightarrow> mail_lib \<Rightarrow> (email_parts \<Rightarrow> bytes) \<Rightarrow> insert_io \<Rightarrow> pystr \<Rightarrow> pystr list
      \<Rightarrow> pystr \<Rightarrow> pystr \<Rightarrow> bool \<Rightarrow> pystr \<Rightarrow> pystr \<Rightarrow> 'w mail_world \<Rightarrow> accept_result res \<times> 'w mail_world" where
  "submit_test C box L as_bytes ins sender rcpts subject body is_html username password w =
     accept_smtp C box L ins
       \<lparr>nm_client_ip = lit ''api'', nm_raw_user = username, nm_sanitized_user = username,
        nm_sender = sender, nm_recipients = rcpts, nm_subject = [],
        nm_mime = build_mime_from_test as_bytes sender rcpts subject body is_html,
        nm_username = username, nm_password = password\<rparr> w"

fun mapE :: "('a \<Rightarrow> 'b res) \<Rightarrow> 'a list \<Rightarrow> 'b list res" where
  "mapE f [] = Inr []"
| "mapE f (x # xs) = bindE (f x) (\<lambda>y. bindE (mapE f xs) (\<lambda>ys. Inr (y # ys)))"

definition list_queue ::
    "pydantic \<Rightarrow> message_status option \<Rightarrow> nat \<Rightarrow> table \<Rightarrow> message_record list res" where
  "list_queue P st limit t = mapE (row_to_record P) (list_messages st limit t)"

definition service_pending :: "table \<Rightarrow> int" where
  "service_pending t = count_pending t"

subsection \<open>Back-pressure\<close>

lemma mapE_Inr_iff: "(\<exists>ys. mapE f xs = Inr ys) \<longleftrightarrow> list_all (\<lambda>x. \<exists>y. f x = Inr y) xs"
  by (induction xs) (auto simp: bindE_Inr_iff)

lemma on_metrics_table [simp]: "mw_table (on_metrics f w) = mw_table w"
    "mw_out (on_metrics f w) = mw_out w"
  by (simp_all add: on_metrics_def)

lemma publish_table [simp]: "mw_table (publish k m d ts w) = mw_table w"
    "mw_out (publish k m d ts w) = mw_out w"
  by (simp_all add: publish_def)

lemma count_pending_append [simp]: "count_pending (t @ u) = count_pending t + count_pending u"
  by (simp add: count_pending_def)

lemma count_pending_queued: "row_status row = QUEUED \<Longrightarrow> count_pending [row] = 1"
  by (simp add: count_pending_def is_pending_def)

lemma accept_smtp_InrD:
  assumes "accept_smtp C box L ins m w = (Inr x, w')"
  obtains row where "insert_message C box (ins_nonce ins) (ins_uuid ins) (ins_now ins)
      (m\<lparr>nm_subject := or_empty (msg_subject (parse_mime L (nm_mime m)))\<rparr>) (mw_table w) = Inr (row, mw_table w')"
    "mw_table w' = mw_table w @ [row]" "row_status row = QUEUED" "acc_message_id x = row_id row"
    "mw_out w' = mw_out w" "mw_wake w'"
  using assms
  by (auto simp: accept_smtp_def Let_def split: sum.splits prod.splits elim!: insert_message_InrD)

text \<open>The row an accepted mail becomes.\<close>

lemma accept_smtp_row:
  assumes "accept_smtp C box L ins m w = (Inr x, w')"
  shows "\<exists>row. mw_table w' = mw_table w @ [row] \<and> row_status row = QUEUED \<and> row_id row = acc_message_id x
    \<and> get_message (mw_table w) (row_id row) = None
    \<and> row_sender row = nm_sender m \<and> row_username row = Some (nm_username m)"
proof -
  from assms obtain row where ins: "insert_message C box (ins_nonce ins) (ins_uuid ins) (ins_now ins)
      (m\<lparr>nm_subject := or_empty (msg_subject (parse_mime L (nm_mime m)))\<rparr>) (mw_table w) = Inr (row, mw_table w')"
    and t: "mw_table w' = mw_table w @ [row]" "row_status row = QUEUED" "acc_message_id x = row_id row"
    by (rule accept_smtp_InrD)
  from ins have "get_message (mw_table w) (row_id row) = None" "row_sender row = nm_sender m"
    "row_username row = Some (nm_username m)" by (rule insert_message_InrD, simp)+
  with t show ?thesis by simp
qed

lemma accept_smtp_Inl: "accept_smtp C box L ins m w = (Inl e, w') \<Longrightarrow> w' = w"
  by (auto simp: accept_smtp_def Let_def split: sum.splits prod.splits)

lemma accept_smtp_grow:
  "count_pending (mw_table (snd (accept_smtp C box L ins m w))) \<le> count_pending (mw_table w) + 1"
proof (cases "accept_smtp C box L ins m w")
  case (Pair r w')
  then show ?thesis
  proof (cases r)
    case (Inl e)
    with Pair accept_smtp_Inl show ?thesis by fastforce
  next
    case (Inr x)
    with Pair have "accept_smtp C box L ins m w = (Inr x, w')" by simp
    then obtain row where "mw_table w' = mw_table w @ [row]" "row_status row = QUEUED"
      by (rule accept_smtp_InrD)
    with Pair show ?thesis by (simp add: count_pending_queued)
  qed
qed

lemma check_reply [simp]: "take 3 reply_circuit_open = lit ''451''"
    "take 3 (reply_queue_full n k) = lit ''452''"
  by (simp_all add: reply_circuit_open_def reply_queue_full_def lit_def)

text \<open>
  Accepting a mail stores it before it answers: on success the table has exactly one more
  row, new, QUEUED and without an attempt, under the identifier given in the answer, and the
  worker is woken; on an exception the table, the metrics and the events are as before.
  Nothing is sent by accepting.
\<close>

lemma accept_smtp_enqueues:
  "case accept_smtp C box L ins m w of
     (Inl e, w') \<Rightarrow> w' = w
   | (Inr x, w') \<Rightarrow> (\<exists>row. mw_table w' = mw_table w @ [row] \<and> row_status row = QUEUED
       \<and> attempts row = 0 \<and> row_id row = acc_message_id x \<and> acc_message_id x = new_message_id (ins_uuid ins)
       \<and> get_message (mw_table w) (row_id row) = None \<and> row_sender row = nm_sender m
       \<and> acc_status x = lit ''queued'' \<and> \<not> acc_delivered x \<and> mw_out w' = mw_out w \<and> mw_wake w'
       \<and> (mw_hub w' = None) = (mw_hub w = None))"
  by (auto simp: accept_smtp_def Let_def publish_def status_value_def split: sum.split prod.split
      elim!: insert_message_InrD)

lemma check_backpressure_spec:
  "check_backpressure env max_pending tick circuit w =
     (let opened = (case circuit of None \<Rightarrow> False
        | Some b \<Rightarrow> reject_on_circuit env \<and> fst (breaker_state tick b) = OPEN)
      in (if opened then Some reply_circuit_open
          else if max_pending \<le> count_pending (mw_table w)
          then Some (reply_queue_full (count_pending (mw_table w)) max_pending) else None,
        snd (circuit_is_open env tick circuit),
        if opened \<or> max_pending \<le> count_pending (mw_table w) then on_metrics inc_smtp_deferred w else w))"
  by (cases circuit) (simp_all add: check_backpressure_def circuit_is_open_def Let_def split: prod.splits)

lemma check_deferred:
  assumes "check_backpressure env max_pending tick circuit w = (Some d, circuit', w')"
  shows "take 3 d \<in> {lit ''451'', lit ''452''} \<and> mw_table w' = mw_table w \<and> mw_out w' = mw_out w"
  using assms unfolding check_backpressure_spec Let_def by (auto split: if_splits)

lemma check_passed:
  assumes "check_backpressure env max_pending tick circuit w = (None, circuit', w')"
  shows "w' = w \<and> count_pending (mw_table w) < max_pending"
  using assms unfolding check_backpressure_spec Let_def by (auto split: if_splits)

text \<open>
  C22. Back-pressure: a mail is deferred with 451 exactly while the breaker reads OPEN and the
  setting asks for it, with 452 exactly when the queue holds the maximum, and each deferral is
  counted once; otherwise nothing changes, and accepting one mail after the check keeps the
  queue within its maximum.
\<close>

theorem backpressure_bounds_queue:
  "case check_backpressure env max_pending tick circuit w of (d, circuit', w1) \<Rightarrow>
     (let opened = (case circuit of None \<Rightarrow> False
        | Some b \<Rightarrow> reject_on_circuit env \<and> fst (breaker_state tick b) = OPEN)
      in (d = None) = (\<not> opened \<and> count_pending (mw_table w) < max_pending)
        \<and> mw_table w1 = mw_table w
        \<and> (case d of
             None \<Rightarrow> w1 = w
               \<and> count_pending (mw_table (snd (accept_smtp C box L ins m w1))) \<le> max_pending
           | Some reply \<Rightarrow> take 3 reply = (if opened then lit ''451'' else lit ''452'')
               \<and> w1 = on_metrics inc_smtp_deferred w))"
proof -
  define opened where "opened \<longleftrightarrow> (case circuit of None \<Rightarrow> False
    | Some b \<Rightarrow> reject_on_circuit env \<and> fst (breaker_state tick b) = OPEN)"
  show ?thesis
    using accept_smtp_grow [of C box L ins m w]
    unfolding check_backpressure_spec opened_def [symmetric] Let_def
    by (cases opened; cases "max_pending \<le> count_pending (mw_table w)") simp_all
qed

text \<open>
  C40. One mail with an empty return path blinds the queue listing: after it was accepted, the
  list (and with it the API's queue page and the dashboard) raises as long as the row is among
  the rows listed, because every row is validated as an e-mail address.
\<close>

theorem empty_sender_blocks_listing:
  assumes "parse_email P [] = None"
    and "accept_smtp C box L ins (m\<lparr>nm_sender := []\<rparr>) w = (Inr x, w')"
    and "length (mw_table w') \<le> limit"
  shows "\<exists>e. list_queue P None limit (mw_table w') = Inl e"
proof -
  from assms(2) obtain row where ins: "insert_message C box (ins_nonce ins) (ins_uuid ins) (ins_now ins)
      (m\<lparr>nm_sender := []\<rparr>\<lparr>nm_subject := or_empty (msg_subject (parse_mime L (nm_mime (m\<lparr>nm_sender := []\<rparr>))))\<rparr>)
      (mw_table w) = Inr (row, mw_table w')" and grown: "mw_table w' = mw_table w @ [row]"
    by (rule accept_smtp_InrD)
  from ins have "row_sender row = []" by (rule insert_message_InrD) simp
  with grown have row: "mw_table w' = mw_table w @ [row]" "row_sender row = []" by simp_all
  have "set (list_messages None limit (mw_table w')) = set (mw_table w')"
    using assms(3) by (simp add: list_messages_def take_all)
  moreover have "\<not> (\<exists>y. row_to_record P row = Inr y)"
    using assms(1) row(2) by (auto simp: row_to_record_def bindE_Inr_iff)
  ultimately have "\<not> (\<exists>ys. list_queue P None limit (mw_table w') = Inr ys)"
    using row(1) by (auto simp: list_queue_def mapE_Inr_iff list_all_iff)
  then show ?thesis by (cases "list_queue P None limit (mw_table w')") auto
qed

lemma accept_fresh:
  assumes "list_all is_scalar (nm_password m)"
    and "bindable (m\<lparr>nm_subject := or_empty (msg_subject (parse_mime L (nm_mime m)))\<rparr>)"
    and "get_message (mw_table w) (new_message_id (ins_uuid ins)) = None"
  shows "\<exists>x w' row. accept_smtp C box L ins m w = (Inr x, w') \<and> mw_table w' = mw_table w @ [row]"
proof -
  let ?m = "m\<lparr>nm_subject := or_empty (msg_subject (parse_mime L (nm_mime m)))\<rparr>"
  obtain row where "insert_message C box (ins_nonce ins) (ins_uuid ins) (ins_now ins) ?m (mw_table w)
      = Inr (row, mw_table w @ [row])"
    using insert_fresh [of ?m "mw_table w" "ins_uuid ins" C box "ins_nonce ins" "ins_now ins"] assms by auto
  then show ?thesis by (simp add: accept_smtp_def Let_def)
qed

definition toy_ins :: insert_io where
  "toy_ins = \<lparr>ins_nonce = replicate 12 1, ins_uuid = lit ''0123456789abcdef'', ins_now = 5, ins_ts = []\<rparr>"

definition empty_world :: "send_request list mail_world" where
  "empty_world = \<lparr>mw_table = [], mw_out = [], mw_hub = None, mw_wake = False\<rparr>"

lemma empty_world_table [simp]: "mw_table empty_world = []"
  by (simp add: empty_world_def)

theorem empty_sender_blocks_listing_witness:
  "\<exists>x w' e. accept_smtp toy_crypto \<lparr>box_key = []\<rparr> toy_lib toy_ins (toy_message_in\<lparr>nm_sender := []\<rparr>)
      empty_world = (Inr x, w') \<and> list_queue toy_pydantic None 100 (mw_table w') = Inl e"
proof -
  let ?m = "toy_message_in\<lparr>nm_sender := []\<rparr>"
  have "bindable (?m\<lparr>nm_subject := or_empty (msg_subject (parse_mime toy_lib (nm_mime ?m)))\<rparr>)"
    by (simp add: toy_message_in_def bindable_def toy_lib_def lit_def is_scalar_def)
  moreover have "list_all is_scalar (nm_password ?m)" by (simp add: lit_def is_scalar_def)
  ultimately
  obtain x w' row where run: "accept_smtp toy_crypto \<lparr>box_key = []\<rparr> toy_lib toy_ins ?m empty_world = (Inr x, w')"
    and "mw_table w' = [row]"
    using accept_fresh [of ?m toy_lib empty_world toy_ins] by (metis append_Nil empty_world_table get_message_Nil)
  then have "length (mw_table w') \<le> 100" by simp
  moreover have "parse_email toy_pydantic [] = None" by (simp add: toy_pydantic_def strip_id)
  ultimately show ?thesis using empty_sender_blocks_listing [OF _ run] run by blast
qed

end
