(* ===== verification/Queue_Worker.thy ===== *)
theory Queue_Worker
  imports Queue_Service
begin

section \<open>The queue worker (queue/worker.py)\<close>

text \<open>
  \<open>drain_step\<close> is one turn of the loop in \<open>_drain\<close>, \<open>drain\<close> the loop. A turn reads clocks,
  the stop flag and the current configuration; these are a \<open>tick\<close>, and the loop runs along
  a list of them, so that its length is the fuel. The breaker and the world are the state.
\<close>

definition worker_count :: "environ \<Rightarrow> int" where
  "worker_count env =
     (let s = strip (case env (lit ''MSGATE_QUEUE_WORKERS'') of None \<Rightarrow> lit ''2'' | Some v \<Rightarrow> v);
          raw = (if s = [] then lit ''2'' else s);
          n = (case py_int raw of Inl _ \<Rightarrow> 2 | Inr n \<Rightarrow> n)
      in max 1 (min n 32))"

record tick =
  tk_stop :: bool
  tk_allow :: secs
  tk_select :: time
  tk_claim :: time
  tk_now :: time
  tk_ts :: pystr
  tk_latency_ms :: rat
  tk_record :: secs
  tk_config :: gateway_config

datatype turn = Stopped | Paused | Idle | Worked | Raised exn

definition finish_metrics :: "rat \<Rightarrow> 'w mail_world \<Rightarrow> 'w mail_world" where
  "finish_metrics ms w = on_metrics (observe_send_latency_ms ms) (on_metrics dec_in_flight w)"

text \<open>After \<open>session.refresh(row)\<close> the status decides what the breaker is told.\<close>

definition record_outcome :: "secs \<Rightarrow> pystr \<Rightarrow> table \<Rightarrow> breaker \<Rightarrow> breaker" where
  "record_outcome now i t b =
     (case map_option row_status (get_message t i) of
        Some SENT \<Rightarrow> record_success b
      | Some FAILED \<Rightarrow> record_failure now b
      | Some RETRYING \<Rightarrow> record_failure now b
      | _ \<Rightarrow> b)"

definition drain_step ::
    "'w sender \<Rightarrow> tick \<Rightarrow> breaker \<times> 'w mail_world \<Rightarrow> turn \<times> breaker \<times> 'w mail_world" where
  "drain_step S tk st =
     (case st of (gate, w) \<Rightarrow>
        if tk_stop tk then (Stopped, gate, w)
        else (case allow (tk_allow tk) gate of (ok, gate1) \<Rightarrow>
          if \<not> ok then (Paused, gate1, w)
          else (case claim_next (tk_select tk) (tk_claim tk) (mw_table w) of
              (None, t1) \<Rightarrow> (Idle, gate1, w\<lparr>mw_table := t1\<rparr>)
            | (Some row, t1) \<Rightarrow>
                (case process_row S (tk_config tk) True (tk_now tk) (tk_ts tk) row
                        (on_metrics inc_in_flight (w\<lparr>mw_table := t1\<rparr>)) of
                   (Inl e, w2) \<Rightarrow> (Raised e, gate1, finish_metrics (tk_latency_ms tk) w2)
                 | (Inr _, w2) \<Rightarrow>
                     (let w3 = finish_metrics (tk_latency_ms tk) w2
                      in (Worked, record_outcome (tk_record tk) (row_id row) (mw_table w3) gate1, w3))))))"

text \<open>\<open>Some b\<close> is the value returned, \<open>did_work\<close>; \<open>None\<close> the ticks have run out.\<close>

fun drain ::
    "'w sender \<Rightarrow> tick list \<Rightarrow> bool \<Rightarrow> breaker \<times> 'w mail_world
      \<Rightarrow> bool res option \<times> breaker \<times> 'w mail_world" where
  "drain S [] did_work st = (None, st)"
| "drain S (tk # tks) did_work st =
     (case drain_step S tk st of
        (Worked, st') \<Rightarrow> drain S tks True st'
      | (Raised e, st') \<Rightarrow> (Some (Inl e), st')
      | (_, st') \<Rightarrow> (Some (Inr did_work), st'))"

text \<open>
  One round of \<open>_run\<close>: an exception counts as nothing drained; the boolean says whether the
  thread goes straight on, otherwise it waits for the wake-up flag, or the poll interval, and
  clears the flag.
\<close>

definition run_round ::
    "'w sender \<Rightarrow> tick list \<Rightarrow> bool \<Rightarrow> breaker \<times> 'w mail_world
      \<Rightarrow> bool option \<times> breaker \<times> 'w mail_world" where
  "run_round S tks stop_set st =
     (case drain S tks False st of
        (None, st') \<Rightarrow> (None, st')
      | (Some r, gate, w) \<Rightarrow>
          (let drained = (case r of Inl _ \<Rightarrow> False | Inr b \<Rightarrow> b)
           in if drained \<and> \<not> stop_set then (Some True, gate, w)
              else (Some False, gate, w\<lparr>mw_wake := False\<rparr>)))"

text \<open>The threads of the worker object: \<open>start\<close> and \<open>stop\<close>.\<close>

record queue_worker =
  wk_workers :: int
  wk_threads :: "pystr list"
  wk_stop :: bool
  wk_wake :: bool

definition new_worker :: "environ \<Rightarrow> int option \<Rightarrow> queue_worker" where
  "new_worker env workers =
     \<lparr>wk_workers = (case workers of None \<Rightarrow> worker_count env | Some n \<Rightarrow> n),
      wk_threads = [], wk_stop = False, wk_wake = False\<rparr>"

definition worker_start :: "queue_worker \<Rightarrow> queue_worker" where
  "worker_start q =
     (if wk_threads q \<noteq> [] then q
      else q\<lparr>wk_stop := False,
             wk_threads := map (\<lambda>i. lit ''msgate-queue-'' @ str_int i) [0 .. wk_workers q - 1]\<rparr>)"

definition worker_stop :: "queue_worker \<Rightarrow> queue_worker" where
  "worker_stop q = q\<lparr>wk_stop := True, wk_wake := True, wk_threads := []\<rparr>"

definition worker_wake :: "queue_worker \<Rightarrow> queue_worker" where
  "worker_wake q = q\<lparr>wk_wake := True\<rparr>"

lemma worker_count_bounds: "1 \<le> worker_count env \<and> worker_count env \<le> 32"
  by (simp add: worker_count_def Let_def)

subsection \<open>The load of a table\<close>

text \<open>How many attempts the rows may still take: what the loop uses up.\<close>

definition row_load :: "message_row \<Rightarrow> nat" where
  "row_load r = (if is_pending r then nat (8 - attempts r) else 0)"

definition load :: "table \<Rightarrow> nat" where
  "load t = sum_list (map row_load t)"

text \<open>The rows of the queue: keys are unique, and a waiting row has an attempt left.\<close>

definition attempts_ok :: "message_row \<Rightarrow> bool" where
  "attempts_ok r \<longleftrightarrow> 0 \<le> attempts r \<and> attempts r \<le> 8 \<and> (if is_pending r then attempts r < 8 else True)"

definition table_ok :: "table \<Rightarrow> bool" where
  "table_ok t \<longleftrightarrow> distinct_ids t \<and> list_all attempts_ok t"

lemma table_by_ids: "distinct_ids t \<Longrightarrow> t = map (\<lambda>k. the (get_message t k)) (ids t)"
  by (simp add: ids_def comp_def) (metis (mono_tags, lifting) get_message_member map_idI option.sel)

lemma in_ids: "get_message t k = Some r \<Longrightarrow> k \<in> set (ids t)"
  using get_message_None_iff [of t k] by simp

lemma load_by_ids: "distinct_ids t \<Longrightarrow> load t = sum_list (map (\<lambda>k. row_load (the (get_message t k))) (ids t))"
  unfolding load_def by (subst table_by_ids) (simp_all add: comp_def)

lemma load_decreases:
  assumes "distinct_ids t" "row_changed t r' t'" "get_message t (row_id r') = Some r"
    and "row_load r' < row_load r"
  shows "load t' < load t"
proof -
  let ?f = "\<lambda>t k. row_load (the (get_message t k))"
  have d: "distinct (ids t)" "ids t' = ids t" "distinct_ids t'"
    using assms(1,2) by (simp_all add: distinct_ids_def row_changed_ids)
  have "sum (?f t') (set (ids t)) < sum (?f t) (set (ids t))"
  proof (rule sum_strict_mono_ex1)
    show "\<forall>k\<in>set (ids t). ?f t' k \<le> ?f t k"
      using assms by (simp add: row_changed_get)
    show "\<exists>k\<in>set (ids t). ?f t' k < ?f t k"
      using assms in_ids [OF assms(3)] by (intro bexI [of _ "row_id r'"]) (simp_all add: row_changed_get)
  qed simp
  then show ?thesis
    using d by (simp add: load_by_ids assms(1) sum_list_distinct_conv_sum_set)
qed

lemma table_ok_get: "table_ok t \<Longrightarrow> get_message t k = Some r \<Longrightarrow> attempts_ok r"
  using get_message_SomeD by (fastforce simp: table_ok_def list_all_iff)

lemma table_okI:
  assumes "distinct_ids t" "\<And>k r. get_message t k = Some r \<Longrightarrow> attempts_ok r"
  shows "table_ok t"
  using assms get_message_member by (fastforce simp: table_ok_def list_all_iff)

lemma table_ok_changed [keep_inv]:
  assumes "table_ok t" "row_changed t r' t'" "attempts_ok r'"
  shows "table_ok t'"
proof (rule table_okI)
  show "distinct_ids t'" using assms by (simp add: table_ok_def distinct_ids_def row_changed_ids)
  fix k r assume "get_message t' k = Some r"
  then show "attempts_ok r"
    using assms(2,3) table_ok_get [OF assms(1)] by (auto simp: row_changed_get split: if_splits)
qed

lemma settled_attempts_ok: "settled_status r \<Longrightarrow> 0 \<le> attempts r \<Longrightarrow> attempts r \<le> 8 \<Longrightarrow> attempts_ok r"
  by (auto simp: settled_status_def attempts_ok_def is_pending_def)

lemma settled_load: "settled_status r' \<Longrightarrow> attempts r' = attempts r + 1 \<Longrightarrow> is_pending r \<Longrightarrow> attempts_ok r
    \<Longrightarrow> row_load r' < row_load r"
  by (auto simp: settled_status_def attempts_ok_def row_load_def is_pending_def)

lemma finish_metrics_table [simp]: "mw_table (finish_metrics ms w) = mw_table w"
    "mw_out (finish_metrics ms w) = mw_out w"
  by (simp_all add: finish_metrics_def)

subsection \<open>One turn\<close>

text \<open>What a turn does to the table: nothing, a claim that is stuck, or one row settled.\<close>

lemma drain_step_table:
  assumes run: "drain_step S tk (gate, w) = (k, gate', w')" and ok: "table_ok (mw_table w)"
  shows "case k of
      Worked \<Rightarrow> \<exists>r r'. get_message (mw_table w) (row_id r') = Some r \<and> is_pending r
        \<and> row_changed (mw_table w) r' (mw_table w') \<and> attempts r' = attempts r + 1 \<and> settled_status r'
    | Raised e \<Rightarrow> \<exists>r. get_message (mw_table w) (row_id r) = Some r \<and> is_pending r
        \<and> row_changed (mw_table w) (claimed (tk_claim tk) r) (mw_table w')
    | _ \<Rightarrow> mw_table w' = mw_table w"
proof -
  obtain open1 gate1 where al: "allow (tk_allow tk) gate = (open1, gate1)" by fastforce
  obtain x t1 where cl: "claim_next (tk_select tk) (tk_claim tk) (mw_table w) = (x, t1)" by fastforce
  have d: "distinct_ids (mw_table w)" using ok by (simp add: table_ok_def)
  show ?thesis
  proof (cases "tk_stop tk \<or> \<not> open1")
    case True
    then show ?thesis using run al by (auto simp: drain_step_def split: if_splits)
  next
    case open1: False
    show ?thesis
    proof (cases x)
      case None
      with claim_next_effect [OF d cl] run al cl open1 show ?thesis by (auto simp: drain_step_def)
    next
      case (Some row)
      with claim_next_effect [OF d cl] obtain r where r: "get_message (mw_table w) (row_id r) = Some r"
        "is_pending r" "row = claimed (tk_claim tk) r" "row_changed (mw_table w) row t1" by auto
      let ?w1 = "on_metrics inc_in_flight (w\<lparr>mw_table := t1\<rparr>)"
      obtain res w2 where pr: "process_row S (tk_config tk) True (tk_now tk) (tk_ts tk) row ?w1 = (res, w2)"
        by fastforce
      have "get_message (mw_table ?w1) (row_id row) = Some row"
        using r(4) by (simp add: row_changed_get)
      from process_row_table [OF pr this] have tab: "case res of Inl e \<Rightarrow> mw_table w2 = t1
        | Inr _ \<Rightarrow> \<exists>r'. row_changed t1 r' (mw_table w2) \<and> row_id r' = row_id row
            \<and> attempts r' = attempts row \<and> settled_status r'" by (cases res) simp_all
      show ?thesis
      proof (cases res)
        case (Inl e)
        then have "k = Raised e" "mw_table w' = t1"
          using run al cl open1 Some pr tab by (auto simp: drain_step_def)
        then show ?thesis using r by auto
      next
        case (Inr y)
        then have "k = Worked" "mw_table w' = mw_table w2"
          using run al cl open1 Some pr by (auto simp: drain_step_def Let_def)
        moreover obtain r' where r': "row_changed t1 r' (mw_table w2)" "row_id r' = row_id row"
            "attempts r' = attempts row" "settled_status r'" using tab Inr by auto
        moreover have "row_changed (mw_table w) r' (mw_table w2)"
          using row_changed_trans [OF r(4) r'(1)] r'(2) by simp
        moreover have "get_message (mw_table w) (row_id r') = Some r" "attempts r' = attempts r + 1"
          using r(1,3) r'(2,3) by simp_all
        ultimately show ?thesis using r(2) by (simp, blast)
      qed
    qed
  qed
qed

lemma claimed_attempts_ok: "attempts_ok r \<Longrightarrow> is_pending r \<Longrightarrow> attempts_ok (claimed now r)"
  by (simp add: attempts_ok_def is_pending_def)

lemma worked_attempts_ok:
  "attempts_ok r \<Longrightarrow> is_pending r \<Longrightarrow> settled_status r' \<Longrightarrow> attempts r' = attempts r + 1 \<Longrightarrow> attempts_ok r'"
  by (rule settled_attempts_ok) (simp_all add: attempts_ok_def)

lemma drain_step_keeps [keep_inv]:
  assumes run: "drain_step S tk (gate, w) = (k, gate', w')" and ok: "table_ok (mw_table w)"
  shows "table_ok (mw_table w')"
proof (cases k)
  case Worked
  with drain_step_table [OF run ok] obtain r r' where r: "get_message (mw_table w) (row_id r') = Some r"
    "is_pending r" "row_changed (mw_table w) r' (mw_table w')" "attempts r' = attempts r + 1"
    "settled_status r'" by auto
  show ?thesis
    by (rule table_ok_changed [OF ok r(3) worked_attempts_ok [OF table_ok_get [OF ok r(1)] r(2,5,4)]])
next
  case (Raised e)
  with drain_step_table [OF run ok] obtain r where r: "get_message (mw_table w) (row_id r) = Some r"
    "is_pending r" "row_changed (mw_table w) (claimed (tk_claim tk) r) (mw_table w')" by auto
  show ?thesis
    by (rule table_ok_changed [OF ok r(3) claimed_attempts_ok [OF table_ok_get [OF ok r(1)] r(2)]])
qed (use drain_step_table [OF run ok] ok in auto)

lemma worked_load:
  assumes run: "drain_step S tk (gate, w) = (Worked, gate', w')" and ok: "table_ok (mw_table w)"
  shows "load (mw_table w') < load (mw_table w)"
proof -
  from drain_step_table [OF run ok] obtain r r' where r: "get_message (mw_table w) (row_id r') = Some r"
    "is_pending r" "row_changed (mw_table w) r' (mw_table w')" "attempts r' = attempts r + 1"
    "settled_status r'" by auto
  have "row_load r' < row_load r"
    using settled_load [OF r(5,4,2)] table_ok_get [OF ok r(1)] by blast
  then show ?thesis
    using load_decreases [OF _ r(3) r(1)] ok by (simp add: table_ok_def)
qed

lemma drain_ends:
  "table_ok (mw_table w) \<Longrightarrow> load (mw_table w) < length tks \<Longrightarrow> \<exists>r. fst (drain S tks d (gate, w)) = Some r"
proof (induction tks arbitrary: d gate w)
  case (Cons tk tks)
  obtain k gate' w' where st: "drain_step S tk (gate, w) = (k, gate', w')" by (metis prod_cases3)
  show ?case
  proof (cases k)
    case Worked
    with st have run: "drain_step S tk (gate, w) = (Worked, gate', w')" by simp
    have "load (mw_table w') < length tks"
      using worked_load [OF run Cons.prems(1)] Cons.prems(2) by simp
    with Cons.IH drain_step_keeps [OF run Cons.prems(1)] show ?thesis using run by simp
  qed (use st in auto)
qed simp

lemma drain_keeps [keep_inv]:
  "table_ok (mw_table w) \<Longrightarrow> drain S tks d (gate, w) = (r, gate', w') \<Longrightarrow> table_ok (mw_table w')"
proof (induction tks arbitrary: d gate w)
  case (Cons tk tks)
  obtain k gate1 w1 where st: "drain_step S tk (gate, w) = (k, gate1, w1)" by (metis prod_cases3)
  with Cons drain_step_keeps [OF st Cons.prems(1)] show ?case by (cases k) auto
qed simp

text \<open>
  C11. The drain loop ends: on a table with \<open>n\<close> attempts left in its waiting rows (at most
  eight each), at most \<open>n\<close> turns do work whatever the clocks, the configuration and the driver
  do, so \<open>n + 1\<close> turns are enough for \<open>_drain\<close> to return.
\<close>

theorem drain_terminates:
  assumes "table_ok (mw_table w)" "load (mw_table w) < length tks"
  shows "\<exists>r gate' w'. drain S tks False (gate, w) = (Some r, gate', w') \<and> table_ok (mw_table w')"
proof -
  obtain r where "fst (drain S tks False (gate, w)) = Some r" using drain_ends [OF assms] by blast
  moreover obtain x gate' w' where "drain S tks False (gate, w) = (x, gate', w')" by (metis prod_cases3)
  ultimately show ?thesis using drain_keeps [OF assms(1)] by fastforce
qed

definition toy_tick :: tick where
  "toy_tick = \<lparr>tk_stop = False, tk_allow = 0, tk_select = 100, tk_claim = 100, tk_now = 100, tk_ts = [],
     tk_latency_ms = 3, tk_record = 0, tk_config = sample_config\<rparr>"

theorem drain_terminates_witness:
  "\<exists>r gate' w'. drain toy_sender (replicate 7 toy_tick) False
      (fresh_breaker 5 60, toy_world\<lparr>mw_table := [toy_row\<lparr>row_status := QUEUED\<rparr>]\<rparr>) = (Some r, gate', w')"
proof -
  let ?w = "toy_world\<lparr>mw_table := [toy_row\<lparr>row_status := QUEUED\<rparr>]\<rparr>"
  have "table_ok (mw_table ?w)"
    by (simp add: table_ok_def distinct_ids_def ids_def attempts_ok_def is_pending_def)
  moreover have "load (mw_table ?w) < length (replicate 7 toy_tick)"
    by (simp add: load_def row_load_def is_pending_def)
  ultimately show ?thesis using drain_terminates by blast
qed

end
