(* ===== verification/Queue_System.thy ===== *)
theory Queue_System
  imports Queue_Worker
begin

section \<open>Several workers on one queue\<close>

text \<open>
  The threads of \<open>QueueWorker\<close>, the SMTP side that accepts mail and a crash of the process, as
  one step relation. A worker goes through the phases of \<open>_drain\<close>: it selects a due row, claims
  it, hands it to the driver and settles it, and between any two of these every other thread may
  act. The configuration, the clocks and the driver's answers are free in every step. The log
  \<open>sys_log\<close>, kept for the statements only, has an entry for every hand-over to the driver: the
  message and whether the driver reported success.
\<close>

datatype phase = Resting | Chose pystr | Holding message_row | Handed message_row "send_result res"

record 'w system =
  sys_world :: "'w mail_world"
  sys_gate :: breaker
  sys_phase :: "nat \<Rightarrow> phase"
  sys_log :: "(pystr \<times> bool) list"

abbreviation sys_table :: "'w system \<Rightarrow> table" where
  "sys_table s \<equiv> mw_table (sys_world s)"

inductive worker_step :: "'w sender \<Rightarrow> 'w system \<Rightarrow> 'w system \<Rightarrow> bool" for S where
  Select: "sys_phase s i = Resting \<Longrightarrow> allow a (sys_gate s) = (True, gate')
    \<Longrightarrow> select_next now (sys_table s) = Some r
    \<Longrightarrow> worker_step S s (s\<lparr>sys_gate := gate', sys_phase := (sys_phase s)(i := Chose (row_id r))\<rparr>)"
| Win: "sys_phase s i = Chose k \<Longrightarrow> claim_row k now (sys_table s) = (1, t')
    \<Longrightarrow> get_message t' k = Some row
    \<Longrightarrow> worker_step S s (s\<lparr>sys_world := on_metrics inc_in_flight ((sys_world s)\<lparr>mw_table := t'\<rparr>),
          sys_phase := (sys_phase s)(i := Holding row)\<rparr>)"
| Lose: "sys_phase s i = Chose k \<Longrightarrow> claim_row k now (sys_table s) = (n, t') \<Longrightarrow> n \<noteq> 1
    \<Longrightarrow> worker_step S s (s\<lparr>sys_world := (sys_world s)\<lparr>mw_table := t'\<rparr>,
          sys_phase := (sys_phase s)(i := Resting)\<rparr>)"
| Reject: "sys_phase s i = Holding row
    \<Longrightarrow> begin_delivery S config True now row (sys_world s) = (None, w')
    \<Longrightarrow> worker_step S s (s\<lparr>sys_world := finish_metrics ms w',
          sys_gate := record_outcome b (row_id row) (mw_table w') (sys_gate s),
          sys_phase := (sys_phase s)(i := Resting)\<rparr>)"
| Deliver: "sys_phase s i = Holding row
    \<Longrightarrow> begin_delivery S config True now row (sys_world s) = (Some row1, w1)
    \<Longrightarrow> deliver S config row1 w1 = (Inr r, w')
    \<Longrightarrow> worker_step S s (s\<lparr>sys_world := w', sys_phase := (sys_phase s)(i := Handed row1 r),
          sys_log := sys_log s @ [(row_id row1, succeeded r)]\<rparr>)"
| Raise: "sys_phase s i = Holding row
    \<Longrightarrow> begin_delivery S config True now row (sys_world s) = (Some row1, w1)
    \<Longrightarrow> deliver S config row1 w1 = (Inl e, w')
    \<Longrightarrow> worker_step S s (s\<lparr>sys_world := finish_metrics ms w', sys_phase := (sys_phase s)(i := Resting)\<rparr>)"
| Settle: "sys_phase s i = Handed row r \<Longrightarrow> settle now ts row r (sys_world s) = (res, w')
    \<Longrightarrow> worker_step S s (s\<lparr>sys_world := finish_metrics ms w',
          sys_gate := record_outcome b (row_id row) (mw_table w') (sys_gate s),
          sys_phase := (sys_phase s)(i := Resting)\<rparr>)"

text \<open>What else changes what the workers share: a mail comes in, others look at the breaker or
  publish, or the process crashes.\<close>

inductive sys_step :: "'w sender \<Rightarrow> mail_lib \<Rightarrow> 'w system \<Rightarrow> 'w system \<Rightarrow> bool" for S L where
  Accept: "accept_smtp (snd_crypto S) (snd_box S) L ins m (sys_world s) = (Inr x, w')
    \<Longrightarrow> sys_step S L s (s\<lparr>sys_world := w'\<rparr>)"
| Work: "worker_step S s s' \<Longrightarrow> sys_step S L s s'"
| Gate: "sys_step S L s (s\<lparr>sys_gate := maybe_half_open a (sys_gate s)\<rparr>)"
| Elsewhere: "sys_step S L s (s\<lparr>sys_world := (sys_world s)\<lparr>mw_hub := h, mw_wake := b\<rparr>\<rparr>)"
| Crash: "sys_step S L s (s\<lparr>sys_world := (sys_world s)\<lparr>mw_out := out, mw_hub := h, mw_wake := b\<rparr>,
      sys_gate := gate', sys_phase := (\<lambda>_. Resting)\<rparr>)"

inductive sys_reachable :: "'w sender \<Rightarrow> mail_lib \<Rightarrow> 'w system \<Rightarrow> bool" for S L where
  Start: "mw_table w = [] \<Longrightarrow> sys_reachable S L
      \<lparr>sys_world = w, sys_gate = gate, sys_phase = (\<lambda>_. Resting), sys_log = []\<rparr>"
| Step: "sys_reachable S L s \<Longrightarrow> sys_step S L s s' \<Longrightarrow> sys_reachable S L s'"

text \<open>All kinds of steps in one case distinction.\<close>

lemma sys_step_cases [consumes 1, case_names Accept Select Win Lose Reject Deliver Raise Settle Gate Elsewhere Crash]:
  assumes "sys_step S L s s'"
  obtains (Accept) ins m x w' where "s' = s\<lparr>sys_world := w'\<rparr>"
      "accept_smtp (snd_crypto S) (snd_box S) L ins m (sys_world s) = (Inr x, w')"
  | (Select) i a gate' now r where "s' = s\<lparr>sys_gate := gate', sys_phase := (sys_phase s)(i := Chose (row_id r))\<rparr>"
      "sys_phase s i = Resting"
      "allow a (sys_gate s) = (True, gate')"
      "select_next now (sys_table s) = Some r"
  | (Win) i k now t' row where "s' = s\<lparr>sys_world := on_metrics inc_in_flight ((sys_world s)\<lparr>mw_table := t'\<rparr>),
          sys_phase := (sys_phase s)(i := Holding row)\<rparr>"
      "sys_phase s i = Chose k"
      "claim_row k now (sys_table s) = (1, t')"
      "get_message t' k = Some row"
  | (Lose) i k now n t' where "s' = s\<lparr>sys_world := (sys_world s)\<lparr>mw_table := t'\<rparr>,
          sys_phase := (sys_phase s)(i := Resting)\<rparr>"
      "sys_phase s i = Chose k"
      "claim_row k now (sys_table s) = (n, t')"
      "n \<noteq> 1"
  | (Reject) i row config now w' ms b where "s' = s\<lparr>sys_world := finish_metrics ms w',
          sys_gate := record_outcome b (row_id row) (mw_table w') (sys_gate s),
          sys_phase := (sys_phase s)(i := Resting)\<rparr>"
      "sys_phase s i = Holding row"
      "begin_delivery S config True now row (sys_world s) = (None, w')"
  | (Deliver) i row config now row1 w1 r w' where "s' = s\<lparr>sys_world := w', sys_phase := (sys_phase s)(i := Handed row1 r),
          sys_log := sys_log s @ [(row_id row1, succeeded r)]\<rparr>"
      "sys_phase s i = Holding row"
      "begin_delivery S config True now row (sys_world s) = (Some row1, w1)"
      "deliver S config row1 w1 = (Inr r, w')"
  | (Raise) i row config now row1 w1 e w' ms where "s' = s\<lparr>sys_world := finish_metrics ms w', sys_phase := (sys_phase s)(i := Resting)\<rparr>"
      "sys_phase s i = Holding row"
      "begin_delivery S config True now row (sys_world s) = (Some row1, w1)"
      "deliver S config row1 w1 = (Inl e, w')"
  | (Settle) i row r now ts res w' ms b where "s' = s\<lparr>sys_world := finish_metrics ms w',
          sys_gate := record_outcome b (row_id row) (mw_table w') (sys_gate s),
          sys_phase := (sys_phase s)(i := Resting)\<rparr>"
      "sys_phase s i = Handed row r"
      "settle now ts row r (sys_world s) = (res, w')"
  | (Gate) a where "s' = s\<lparr>sys_gate := maybe_half_open a (sys_gate s)\<rparr>"
  | (Elsewhere) h b where "s' = s\<lparr>sys_world := (sys_world s)\<lparr>mw_hub := h, mw_wake := b\<rparr>\<rparr>"
  | (Crash) out h b gate' where "s' = s\<lparr>sys_world := (sys_world s)\<lparr>mw_out := out, mw_hub := h, mw_wake := b\<rparr>,
      sys_gate := gate', sys_phase := (\<lambda>_. Resting)\<rparr>"
  using assms
proof (cases rule: sys_step.cases)
  case Work
  then show ?thesis by (cases rule: worker_step.cases) (erule (3) that | erule (2) that)+
qed (erule (1) that | erule that)+

subsection \<open>The invariant\<close>

definition sends :: "pystr \<Rightarrow> (pystr \<times> bool) list \<Rightarrow> nat" where
  "sends k es = length (filter (\<lambda>e. fst e = k) es)"

definition accepted :: "pystr \<Rightarrow> (pystr \<times> bool) list \<Rightarrow> nat" where
  "accepted k es = length (filter (\<lambda>e. e = (k, True)) es)"

text \<open>What the log says of a row, by its status.\<close>

definition row_log_ok :: "(pystr \<times> bool) list \<Rightarrow> message_row \<Rightarrow> bool" where
  "row_log_ok es r \<longleftrightarrow> int (sends (row_id r) es) \<le> attempts r \<and> accepted (row_id r) es \<le> 1
     \<and> (case row_status r of
          PROCESSING \<Rightarrow> True
        | SENT \<Rightarrow> accepted (row_id r) es = 1
        | _ \<Rightarrow> accepted (row_id r) es = 0)"

text \<open>The row a worker owns, and what holds while it does.\<close>

fun owned :: "phase \<Rightarrow> message_row option" where
  "owned (Holding r) = Some r"
| "owned (Handed r _) = Some r"
| "owned _ = None"

fun phase_log_ok :: "(pystr \<times> bool) list \<Rightarrow> phase \<Rightarrow> bool" where
  "phase_log_ok es (Holding r) \<longleftrightarrow> int (sends (row_id r) es) < attempts r \<and> accepted (row_id r) es = 0"
| "phase_log_ok es (Handed r x) \<longleftrightarrow> accepted (row_id r) es = (if succeeded x then 1 else 0)"
| "phase_log_ok es _ \<longleftrightarrow> True"

definition phase_ok :: "table \<Rightarrow> (pystr \<times> bool) list \<Rightarrow> phase \<Rightarrow> bool" where
  "phase_ok t es p \<longleftrightarrow> phase_log_ok es p
     \<and> (case owned p of None \<Rightarrow> True
        | Some r \<Rightarrow> get_message t (row_id r) = Some r \<and> row_status r = PROCESSING)"

definition one_owner :: "(nat \<Rightarrow> phase) \<Rightarrow> bool" where
  "one_owner ph \<longleftrightarrow> (\<forall>i j r r'. owned (ph i) = Some r \<longrightarrow> owned (ph j) = Some r' \<longrightarrow> row_id r = row_id r' \<longrightarrow> i = j)"

definition log_ok :: "table \<Rightarrow> (pystr \<times> bool) list \<Rightarrow> bool" where
  "log_ok t es \<longleftrightarrow> (\<forall>k. case get_message t k of None \<Rightarrow> sends k es = 0 | Some r \<Rightarrow> row_log_ok es r)"

definition sys_ok :: "'w system \<Rightarrow> bool" where
  "sys_ok s \<longleftrightarrow> table_ok (sys_table s) \<and> log_ok (sys_table s) (sys_log s)
     \<and> one_owner (sys_phase s) \<and> (\<forall>i. phase_ok (sys_table s) (sys_log s) (sys_phase s i))"

lemma log_append [simp]:
  "sends k (es @ [(j, b)]) = sends k es + (if k = j then 1 else 0)"
  "accepted k (es @ [(j, b)]) = accepted k es + (if k = j \<and> b then 1 else 0)"
  "sends k [] = 0" "accepted k [] = 0"
  by (auto simp: sends_def accepted_def)

lemma accepted_le_sends: "accepted k es \<le> sends k es"
  unfolding accepted_def sends_def by (induction es) auto

lemma sys_okD:
  assumes "sys_ok s"
  shows "table_ok (sys_table s)" "distinct_ids (sys_table s)" "log_ok (sys_table s) (sys_log s)"
    "one_owner (sys_phase s)" "phase_ok (sys_table s) (sys_log s) (sys_phase s i)"
  using assms by (simp_all add: sys_ok_def table_ok_def)

lemma log_okD: "log_ok t es \<Longrightarrow> get_message t k = Some r \<Longrightarrow> row_log_ok es r"
  by (auto simp: log_ok_def split: option.splits)

lemma row_log_ok_cong:
  "sends (row_id r) es' = sends (row_id r) es \<Longrightarrow> accepted (row_id r) es' = accepted (row_id r) es
    \<Longrightarrow> row_log_ok es' r = row_log_ok es r"
  by (simp add: row_log_ok_def split: message_status.split)

lemma owned_row:
  assumes "sys_ok s" "owned (sys_phase s i) = Some r"
  shows "get_message (sys_table s) (row_id r) = Some r \<and> row_status r = PROCESSING \<and> attempts_ok r
    \<and> row_log_ok (sys_log s) r"
  using sys_okD(5) [OF assms(1), of i] assms(2) log_okD [OF sys_okD(3) [OF assms(1)]]
    table_ok_get [OF sys_okD(1) [OF assms(1)]]
  by (auto simp: phase_ok_def)

lemma one_ownerD:
  "one_owner ph \<Longrightarrow> owned (ph i) = Some r \<Longrightarrow> owned (ph j) = Some r' \<Longrightarrow> row_id r = row_id r' \<Longrightarrow> i = j"
  by (simp add: one_owner_def)

lemma one_owner_update:
  assumes one: "one_owner ph" and p: "owned p = None \<or> owned p = Some r'"
    and alone: "\<And>j r. j \<noteq> i \<Longrightarrow> owned (ph j) = Some r \<Longrightarrow> row_id r \<noteq> row_id r'"
  shows "one_owner (ph(i := p))"
  unfolding one_owner_def
proof (intro allI impI)
  fix a b ra rb
  assume own: "owned ((ph(i := p)) a) = Some ra" "owned ((ph(i := p)) b) = Some rb"
    and same: "row_id ra = row_id rb"
  show "a = b"
  proof (cases "a = i \<or> b = i")
    case True
    then show ?thesis using own same p alone [of a ra] alone [of b rb] by (auto split: if_splits)
  next
    case False
    then show ?thesis using own same one_ownerD [OF one] by simp
  qed
qed

text \<open>
  The shape of every step of a worker: one row, owned by no other worker, changes, and with it
  the worker's phase and the log of that row.
\<close>

lemma sys_ok_change:
  assumes ok: "sys_ok s" and ch: "row_changed (sys_table s) r' (sys_table s')" and old: "get_message (sys_table s) (row_id r') \<noteq> None"
    and new: "attempts_ok r'" "row_log_ok (sys_log s') r'"
    and alone: "\<And>j r. j \<noteq> i \<Longrightarrow> owned (sys_phase s j) = Some r \<Longrightarrow> row_id r \<noteq> row_id r'"
    and ph: "sys_phase s' = (sys_phase s)(i := p)"
    and log: "sys_log s' = sys_log s @ es" "\<And>e. e \<in> set es \<Longrightarrow> fst e = row_id r'"
    and mine: "phase_ok (sys_table s') (sys_log s') p" "owned p = None \<or> owned p = Some r'"
  shows "sys_ok s'"
proof -
  have es: "k \<noteq> row_id r' \<Longrightarrow> sends k (sys_log s') = sends k (sys_log s)
      \<and> accepted k (sys_log s') = accepted k (sys_log s)" for k
  proof -
    assume "k \<noteq> row_id r'"
    then have "filter (\<lambda>e. fst e = k) es = []" "filter (\<lambda>e. e = (k, True)) es = []"
      using log(2) by (auto simp: filter_empty_conv)
    then show ?thesis by (simp add: log(1) sends_def accepted_def)
  qed
  have "table_ok (sys_table s')" using table_ok_changed [OF sys_okD(1) [OF ok] ch new(1)] .
  moreover have "log_ok (sys_table s') (sys_log s')"
    unfolding log_ok_def
  proof
    fix k
    show "case get_message (sys_table s') k of None \<Rightarrow> sends k (sys_log s') = 0
        | Some r \<Rightarrow> row_log_ok (sys_log s') r"
    proof (cases "k = row_id r'")
      case True
      then show ?thesis using new(2) by (simp add: row_changed_get [OF ch])
    next
      case False
      have "case get_message (sys_table s) k of None \<Rightarrow> sends k (sys_log s) = 0
        | Some r \<Rightarrow> row_log_ok (sys_log s) r" using sys_okD(3) [OF ok] by (simp add: log_ok_def)
      with False es [OF False] show ?thesis
        using row_log_ok_cong [of _ "sys_log s'" "sys_log s"]
        by (auto simp: row_changed_get [OF ch] split: option.splits dest: get_message_SomeD)
    qed
  qed
  moreover have "one_owner (sys_phase s')"
    unfolding ph using one_owner_update [OF sys_okD(4) [OF ok] mine(2) alone] .
  moreover have "phase_ok (sys_table s') (sys_log s') (sys_phase s' j)" for j
  proof (cases "j = i")
    case True
    then show ?thesis using mine(1) ph by simp
  next
    case False
    have "phase_ok (sys_table s) (sys_log s) (sys_phase s j)" by (rule sys_okD(5) [OF ok])
    then show ?thesis using False alone [OF False] es ph
      by (cases "sys_phase s j") (auto simp: phase_ok_def row_changed_get [OF ch])
  qed
  ultimately show ?thesis by (simp add: sys_ok_def)
qed

text \<open>Steps that only release rows.\<close>

lemma sys_ok_release:
  assumes ok: "sys_ok s" and same: "sys_table s' = sys_table s" "sys_log s' = sys_log s"
    and ph: "\<And>j. sys_phase s' j = sys_phase s j \<or> sys_phase s' j = Resting \<or> (\<exists>k. sys_phase s' j = Chose k)"
  shows "sys_ok s'"
proof -
  have "owned (sys_phase s' j) = Some r \<Longrightarrow> owned (sys_phase s j) = Some r" for j r
    using ph [of j] by auto
  then have "one_owner (sys_phase s')"
    using sys_okD(4) [OF ok] unfolding one_owner_def by blast
  moreover have "phase_ok (sys_table s') (sys_log s') (sys_phase s' j)" for j
    using ph [of j] sys_okD(5) [OF ok, of j] same by (auto simp: phase_ok_def)
  ultimately show ?thesis using ok same by (simp add: sys_ok_def)
qed

lemma row_changed_refl: "get_message t (row_id r) = Some r \<Longrightarrow> row_changed t r t"
  by (auto simp: row_changed_def)

lemma owner_alone:
  assumes "sys_ok s" "owned (sys_phase s i) = Some row"
  shows "j \<noteq> i \<Longrightarrow> owned (sys_phase s j) = Some r \<Longrightarrow> row_id r \<noteq> row_id row"
  using sys_okD(4) [OF assms(1)] assms(2) by (auto simp: one_owner_def)

lemma pending_unowned:
  assumes "sys_ok s" "get_message (sys_table s) k = Some row" "is_pending row"
    and "owned (sys_phase s j) = Some r"
  shows "row_id r \<noteq> k"
  using owned_row [OF assms(1,4)] assms(2,3) by (auto simp: is_pending_def)

text \<open>An owner settles or gives up its row: the row may change, its log does not.\<close>

lemma sys_ok_finish:
  assumes ok: "sys_ok s" and own: "owned (sys_phase s i) = Some row"
    and ch: "row_changed (sys_table s) r' (sys_table s')" and same: "row_id r' = row_id row"
    and new: "attempts_ok r'" "row_log_ok (sys_log s) r'"
    and s': "sys_phase s' = (sys_phase s)(i := Resting)" "sys_log s' = sys_log s"
  shows "sys_ok s'"
proof (rule sys_ok_change [OF ok ch _ new(1) _ _ s'(1)])
  show "get_message (sys_table s) (row_id r') \<noteq> None" using owned_row [OF ok own] same by simp
  show "row_log_ok (sys_log s') r'" using new(2) s'(2) by simp
  show "\<And>j r. j \<noteq> i \<Longrightarrow> owned (sys_phase s j) = Some r \<Longrightarrow> row_id r \<noteq> row_id r'"
    using owner_alone [OF ok own] same by metis
  show "sys_log s' = sys_log s @ []" using s'(2) by simp
qed (simp_all add: phase_ok_def)

lemma begin_world: "begin_delivery S config True now row w = (Some row1, w1) \<Longrightarrow> row1 = row \<and> w1 = w"
  by (rule begin_Some)

lemma log_settled:
  assumes "row_log_ok es row" "phase_log_ok es (Handed row r)"
  shows "row_log_ok es (outcome now r row)"
  using assms by (cases r) (auto simp: row_log_ok_def outcome_status)

lemma sys_ok_accept:
  assumes ok: "sys_ok s"
    and acc: "accept_smtp C box L ins m (sys_world s) = (Inr x, w')"
  shows "sys_ok (s\<lparr>sys_world := w'\<rparr>)"
proof -
  from acc obtain row where ins: "insert_message C box (ins_nonce ins) (ins_uuid ins) (ins_now ins)
      (m\<lparr>nm_subject := or_empty (msg_subject (parse_mime L (nm_mime m)))\<rparr>) (sys_table s) = Inr (row, mw_table w')"
    and t': "mw_table w' = sys_table s @ [row]" by (rule accept_smtp_InrD)
  from ins have row: "get_message (sys_table s) (row_id row) = None" "row_status row = QUEUED" "attempts row = 0"
    by (rule insert_message_InrD, simp)+
  have get: "get_message (mw_table w') k = (if k = row_id row then Some row else get_message (sys_table s) k)" for k
    using row(1) by (auto simp: t' get_message_append split: option.split)
  have "row_id row \<notin> set (ids (sys_table s))" using row(1) get_message_None_iff by blast
  then have "distinct_ids (mw_table w')"
    using sys_okD(2) [OF ok] by (simp add: t' distinct_ids_def ids_def)
  then have "table_ok (mw_table w')"
    using sys_okD(1) [OF ok] row by (simp add: table_ok_def t' attempts_ok_def)
  moreover have "log_ok (mw_table w') (sys_log s)"
    unfolding log_ok_def
  proof
    fix k
    have old: "case get_message (sys_table s) k of None \<Rightarrow> sends k (sys_log s) = 0
      | Some r \<Rightarrow> row_log_ok (sys_log s) r" using sys_okD(3) [OF ok] by (simp add: log_ok_def)
    show "case get_message (mw_table w') k of None \<Rightarrow> sends k (sys_log s) = 0
      | Some r \<Rightarrow> row_log_ok (sys_log s) r"
    proof (cases "k = row_id row")
      case True
      then have "sends (row_id row) (sys_log s) = 0" using old row(1) by simp
      moreover from this have "accepted (row_id row) (sys_log s) = 0"
        using accepted_le_sends [of "row_id row" "sys_log s"] by simp
      ultimately show ?thesis using True row by (simp add: get row_log_ok_def)
    qed (use old in \<open>simp add: get\<close>)
  qed
  moreover have "phase_ok (mw_table w') (sys_log s) (sys_phase s i)" for i
    using sys_okD(5) [OF ok, of i] row(1) by (auto simp: phase_ok_def get split: option.splits)
  ultimately show ?thesis using sys_okD(4) [OF ok] by (simp add: sys_ok_def)
qed

lemma sys_ok_win:
  assumes ok: "sys_ok s" and cl: "claim_row k now (sys_table s) = (1, t')"
    and row: "get_message t' k = Some row"
    and s': "sys_table s' = t'" "sys_phase s' = (sys_phase s)(i := Holding row)" "sys_log s' = sys_log s"
  shows "sys_ok s'"
proof -
  from messages.claim_won [OF sys_okD(2) [OF ok] cl] obtain r where
    r: "get_message (sys_table s) k = Some r" "is_pending r" "get_message t' k = Some (claimed now r)"
    and oth: "\<And>j. j \<noteq> k \<Longrightarrow> get_message t' j = get_message (sys_table s) j" by blast
  have k: "row_id r = k" using r(1) get_message_SomeD by blast
  have row': "row = claimed now r" using row r(3) by simp
  have "ids t' = ids (sys_table s)" using ids_claim [of k now "sys_table s"] cl by simp
  then have ch: "row_changed (sys_table s) row (sys_table s')"
    using r(3) oth k by (auto simp: row_changed_def s'(1) row')
  have a: "attempts_ok r" using table_ok_get [OF sys_okD(1) [OF ok] r(1)] .
  have lg: "row_log_ok (sys_log s) r" using log_okD [OF sys_okD(3) [OF ok] r(1)] .
  have acc: "accepted k (sys_log s) = 0" "int (sends k (sys_log s)) \<le> attempts r"
    using lg r(2) k by (auto simp: row_log_ok_def is_pending_def)
  show ?thesis
  proof (rule sys_ok_change [OF ok ch _ _ _ _ s'(2)])
    show "get_message (sys_table s) (row_id row) \<noteq> None" using r(1) k by (simp add: row')
    show "attempts_ok row" using claimed_attempts_ok [OF a r(2)] by (simp add: row')
    show "row_log_ok (sys_log s') row" using acc k by (simp add: row_log_ok_def row' s'(3))
    show "\<And>j r'. j \<noteq> i \<Longrightarrow> owned (sys_phase s j) = Some r' \<Longrightarrow> row_id r' \<noteq> row_id row"
      using pending_unowned [OF ok r(1,2)] k by (simp add: row')
    show "sys_log s' = sys_log s @ []" using s'(3) by simp
    show "phase_ok (sys_table s') (sys_log s') (Holding row)"
      using acc k r(3) s' by (simp add: phase_ok_def row')
  qed simp_all
qed

lemma sys_ok_deliver:
  assumes ok: "sys_ok s" and ph: "sys_phase s i = Holding row"
    and s': "sys_table s' = sys_table s" "sys_phase s' = (sys_phase s)(i := Handed row r)"
      "sys_log s' = sys_log s @ [(row_id row, succeeded r)]"
  shows "sys_ok s'"
proof -
  have own: "owned (sys_phase s i) = Some row" using ph by simp
  note row = owned_row [OF ok own]
  have lg: "int (sends (row_id row) (sys_log s)) < attempts row" "accepted (row_id row) (sys_log s) = 0"
    using sys_okD(5) [OF ok, of i] ph by (simp_all add: phase_ok_def)
  show ?thesis
  proof (rule sys_ok_change [OF ok _ _ _ _ _ s'(2,3)])
    show "row_changed (sys_table s) row (sys_table s')"
      using row_changed_refl row s'(1) by simp
    show "row_log_ok (sys_log s') row" using lg row by (simp add: row_log_ok_def s'(3))
    show "\<And>j r'. j \<noteq> i \<Longrightarrow> owned (sys_phase s j) = Some r' \<Longrightarrow> row_id r' \<noteq> row_id row"
      using owner_alone [OF ok own] .
    show "phase_ok (sys_table s') (sys_log s') (Handed row r)"
      using lg row s' by (simp add: phase_ok_def)
  qed (use row in auto)
qed

lemma sys_ok_step [keep_inv]:
  assumes "sys_step S L s s'" and ok: "sys_ok s"
  shows "sys_ok s'"
  using assms(1)
proof (cases rule: sys_step_cases)
  case (Accept ins m x w')
  show ?thesis unfolding Accept(1) by (rule sys_ok_accept [OF ok Accept(2)])
next
  case (Select i a gate' now r)
  then show ?thesis by (intro sys_ok_release [OF ok]) simp_all
next
  case (Win i k now t' row)
  show ?thesis by (rule sys_ok_win [OF ok Win(3,4)]) (simp_all add: Win(1))
next
  case (Lose i k now n t')
  have "get_message t' j = get_message (sys_table s) j" for j
    by (rule messages.claim_lost [OF sys_okD(2) [OF ok] Lose(3,4)])
  moreover have "ids t' = ids (sys_table s)" using ids_claim [of k now "sys_table s"] Lose(3) by simp
  ultimately have "t' = sys_table s" using table_by_ids [of t'] table_by_ids [OF sys_okD(2) [OF ok]]
      sys_okD(2) [OF ok] by (metis (no_types, lifting) distinct_ids_same map_cong)
  then show ?thesis using Lose by (intro sys_ok_release [OF ok]) simp_all
next
  case (Reject i row config now w' ms b)
  have own: "owned (sys_phase s i) = Some row" using Reject by simp
  note row = owned_row [OF ok own]
  from Reject(3) obtain r' where r': "row_changed (sys_table s) r' (mw_table w')" "row_id r' = row_id row"
    "attempts r' = attempts row" "row_status r' = FAILED"
    using row by (auto elim: begin_None)
  have "accepted (row_id row) (sys_log s) = 0"
    using sys_okD(5) [OF ok, of i] Reject(2) by (simp add: phase_ok_def)
  with r' row show ?thesis using Reject(1)
    by (intro sys_ok_finish [OF ok own, where r' = r'])
      (simp_all add: row_log_ok_def attempts_ok_def is_pending_def)
next
  case (Deliver i row config now row1 w1 r w')
  then have "row1 = row" "w1 = sys_world s" using begin_Some by blast+
  then show ?thesis using Deliver deliver_effect [OF Deliver(4)] by (intro sys_ok_deliver [OF ok]) simp_all
next
  case (Raise i row config now row1 w1 e w' ms)
  then have w1: "row1 = row" "w1 = sys_world s" using begin_Some by blast+
  have own: "owned (sys_phase s i) = Some row" using Raise by simp
  show ?thesis using Raise(1) w1 deliver_effect [OF Raise(4)] owned_row [OF ok own]
    by (intro sys_ok_finish [OF ok own, where r' = row]) (simp_all add: row_changed_refl)
next
  case (Settle i row r now ts res w' ms b)
  have own: "owned (sys_phase s i) = Some row" using Settle by simp
  note row = owned_row [OF ok own]
  have "row_changed (sys_table s) (outcome now r row) (mw_table w')"
    using settle_changes [OF Settle(3)] row by simp
  moreover have "row_log_ok (sys_log s) (outcome now r row)"
    using row sys_okD(5) [OF ok, of i] Settle(2) by (intro log_settled) (simp_all add: phase_ok_def)
  moreover have "attempts_ok (outcome now r row)"
    using row by (intro settled_attempts_ok) (simp_all add: attempts_ok_def)
  ultimately show ?thesis using Settle(1)
    by (intro sys_ok_finish [OF ok own, where r' = "outcome now r row"]) simp_all
next
  case (Gate a)
  then show ?thesis by (intro sys_ok_release [OF ok]) simp_all
next
  case (Elsewhere h b)
  then show ?thesis by (intro sys_ok_release [OF ok]) simp_all
next
  case (Crash out h b gate')
  then show ?thesis by (intro sys_ok_release [OF ok]) simp_all
qed

lemma sys_ok_reachable: "sys_reachable S L s \<Longrightarrow> sys_ok s"
proof (induction rule: sys_reachable.induct)
  case (Start w gate)
  then show ?case
    by (simp add: sys_ok_def table_ok_def distinct_ids_def ids_def log_ok_def one_owner_def phase_ok_def)
next
  case (Step s s')
  then show ?case by (blast intro: sys_ok_step)
qed

subsection \<open>What a step does to a row\<close>

text \<open>Nothing, or a waiting row is claimed, or the row of an owner is settled.\<close>

definition row_step :: "'w system \<Rightarrow> message_row \<Rightarrow> message_row \<Rightarrow> bool" where
  "row_step s r r' \<longleftrightarrow> r' = r \<or> is_pending r \<and> (\<exists>now. r' = claimed now r)
     \<or> row_status r = PROCESSING \<and> settled_status r' \<and> attempts r' = attempts r
       \<and> (\<exists>i. owned (sys_phase s i) = Some r)"

lemma row_step_refl [simp]: "row_step s r r"
  by (simp add: row_step_def)

lemma row_step_changed:
  assumes ok: "sys_ok s" and own: "owned (sys_phase s i) = Some row"
    and ch: "row_changed (sys_table s) r' t'" "row_id r' = row_id row" "attempts r' = attempts row" "settled_status r'"
    and get: "get_message (sys_table s) k = Some r"
  shows "\<exists>r''. get_message t' k = Some r'' \<and> row_step s r r''"
proof (cases "k = row_id row")
  case True
  then have "r = row" using owned_row [OF ok own] get by simp
  then have "row_step s r r'" using owned_row [OF ok own] own ch by (auto simp: row_step_def)
  then show ?thesis using True ch by (simp add: row_changed_get [OF ch(1)])
next
  case False
  then show ?thesis using get ch(2) by (simp add: row_changed_get [OF ch(1)])
qed

lemma step_rows:
  assumes "sys_step S L s s'" and ok: "sys_ok s" and get: "get_message (sys_table s) k = Some r"
  shows "\<exists>r'. get_message (sys_table s') k = Some r' \<and> row_step s r r'"
  using assms(1)
proof (cases rule: sys_step_cases)
  case (Accept ins m x w')
  then show ?thesis using get
    by (auto elim!: accept_smtp_InrD simp: get_message_append)
next
  case (Win i k' now t' row)
  then show ?thesis
    using get_message_claim [of k' now "sys_table s" k] get by (auto simp: row_step_def)
next
  case (Lose i k' now n t')
  then show ?thesis
    using messages.claim_lost [OF sys_okD(2) [OF ok] Lose(3,4)] get by simp
next
  case (Reject i row config now w' ms b)
  have own: "owned (sys_phase s i) = Some row" using Reject by simp
  from Reject(3) obtain r' where r': "row_changed (sys_table s) r' (mw_table w')" "row_id r' = row_id row"
    "attempts r' = attempts row" "row_status r' = FAILED"
    using owned_row [OF ok own] by (auto elim: begin_None)
  from row_step_changed [OF ok own r'(1,2,3) _ get] r'(4) show ?thesis
    using Reject(1) by (simp add: settled_status_def)
next
  case (Deliver i row config now row1 w1 x w')
  then show ?thesis using begin_Some [OF Deliver(3)] deliver_effect [OF Deliver(4)] get by simp
next
  case (Raise i row config now row1 w1 e w' ms)
  then show ?thesis using begin_Some [OF Raise(3)] deliver_effect [OF Raise(4)] get by simp
next
  case (Settle i row x now ts res w' ms b)
  have own: "owned (sys_phase s i) = Some row" using Settle by simp
  have "row_changed (sys_table s) (outcome now x row) (mw_table w')"
    using settle_changes [OF Settle(3)] owned_row [OF ok own] by simp
  from row_step_changed [OF ok own this _ _ _ get] show ?thesis using Settle(1) by simp
qed (use get in auto)

text \<open>The life of a message, as the rest of the program relies on it.\<close>

inductive lifecycle :: "message_status \<Rightarrow> message_status \<Rightarrow> bool" where
  "lifecycle QUEUED PROCESSING"
| "lifecycle RETRYING PROCESSING"
| "lifecycle PROCESSING SENT"
| "lifecycle PROCESSING FAILED"
| "lifecycle PROCESSING RETRYING"

inductive_simps lifecycle_simps: "lifecycle a b"

lemma row_step_lifecycle:
  "row_step s r r' \<Longrightarrow> row_status r' = row_status r \<and> attempts r' = attempts r
    \<or> lifecycle (row_status r) (row_status r')
      \<and> attempts r' = attempts r + (if row_status r' = PROCESSING then 1 else 0)"
  by (auto simp: row_step_def is_pending_def settled_status_def lifecycle_simps)

text \<open>
  C8. However the workers, the SMTP side and crashes interleave, the table of messages refines
  the life cycle QUEUED or RETRYING to PROCESSING to SENT, FAILED or RETRYING: a step leaves
  every stored message where it is or moves it along one of these edges, a claim counts one
  attempt and nothing else does, no message is ever removed, and SENT and FAILED are final.
\<close>

theorem system_refines_lifecycle:
  assumes "sys_reachable S L s" "sys_step S L s s'" "get_message (sys_table s) k = Some r"
  shows "\<exists>r'. get_message (sys_table s') k = Some r'
    \<and> (row_status r' = row_status r \<and> attempts r' = attempts r
       \<or> lifecycle (row_status r) (row_status r')
         \<and> attempts r' = attempts r + (if row_status r' = PROCESSING then 1 else 0))"
  using step_rows [OF assms(2) sys_ok_reachable [OF assms(1)] assms(3)] row_step_lifecycle by blast

text \<open>
  C5. Delivery is at most once, across any number of workers and crashes: the driver reports
  success for a message at most one time, a message is handed over at most eight times and
  never more often than it was claimed, the status SENT means it was delivered, and a message
  that waits or has failed was not.
\<close>

theorem delivered_at_most_once:
  assumes "sys_reachable S L s"
  shows "accepted k (sys_log s) \<le> 1 \<and> sends k (sys_log s) \<le> 8
    \<and> (case get_message (sys_table s) k of
         None \<Rightarrow> sends k (sys_log s) = 0
       | Some r \<Rightarrow> int (sends k (sys_log s)) \<le> attempts r \<and> attempts r \<le> 8
           \<and> (if row_status r = SENT then accepted k (sys_log s) = 1
              else if row_status r = PROCESSING then True else accepted k (sys_log s) = 0))"
proof -
  note ok = sys_ok_reachable [OF assms]
  show ?thesis
  proof (cases "get_message (sys_table s) k")
    case None
    have "sends k (sys_log s) = 0"
      using sys_okD(3) [OF ok] None by (auto simp: log_ok_def dest: spec [of _ k])
    then show ?thesis using None accepted_le_sends [of k "sys_log s"] by simp
  next
    case (Some r)
    have "row_log_ok (sys_log s) r" "attempts_ok r" "row_id r = k"
      using log_okD [OF sys_okD(3) [OF ok] Some] table_ok_get [OF sys_okD(1) [OF ok] Some]
        get_message_SomeD [OF Some] by simp_all
    then show ?thesis using Some
      by (cases "row_status r") (auto simp: row_log_ok_def attempts_ok_def)
  qed
qed

text \<open>
  C9. Two workers never hold the same message, and what a worker holds is what the table has,
  in the status PROCESSING.
\<close>

theorem workers_exclude_each_other:
  assumes "sys_reachable S L s"
  shows "case (owned (sys_phase s i), owned (sys_phase s j)) of
      (Some r, Some r') \<Rightarrow>
        (if i = j then get_message (sys_table s) (row_id r) = Some r \<and> row_status r = PROCESSING
         else row_id r \<noteq> row_id r')
    | _ \<Rightarrow> True"
  using owner_alone [OF sys_ok_reachable [OF assms]] owned_row [OF sys_ok_reachable [OF assms]]
  by (auto split: option.split)

subsection \<open>Stranded messages\<close>

definition stranded :: "pystr \<Rightarrow> 'w system \<Rightarrow> bool" where
  "stranded k s \<longleftrightarrow> (\<exists>r. get_message (sys_table s) k = Some r \<and> row_status r = PROCESSING)
     \<and> (\<forall>i. map_option row_id (owned (sys_phase s i)) \<noteq> Some k)"

lemma step_owners:
  assumes "sys_step S L s s'" "owned (sys_phase s' i) = Some r" and ok: "sys_ok s"
  shows "(\<exists>j. owned (sys_phase s j) = Some r)
    \<or> (\<exists>x. get_message (sys_table s) (row_id r) = Some x \<and> is_pending x)"
  using assms(1)
proof (cases rule: sys_step_cases)
  case (Win j k now t' row)
  show ?thesis
  proof (cases "i = j")
    case True
    from messages.claim_won [OF sys_okD(2) [OF ok] Win(3)] obtain x where
      x: "get_message (sys_table s) k = Some x" "is_pending x" "get_message t' k = Some (claimed now x)" by blast
    have "row_id x = k" using get_message_SomeD [OF x(1)] by simp
    with x True assms(2) Win show ?thesis by auto
  qed (use Win assms(2) in auto)
next
  case (Deliver j row config now row1 w1 x w')
  then have "owned (sys_phase s j) = Some row" by simp
  moreover have "r = row \<or> owned (sys_phase s i) = Some r"
    using Deliver begin_Some [OF Deliver(3)] assms(2) by (auto split: if_splits)
  ultimately show ?thesis by blast
qed (use assms(2) in \<open>auto split: if_splits\<close>)

lemma step_sends:
  assumes "sys_step S L s s'"
  shows "sends k (sys_log s') = sends k (sys_log s) \<or> (\<exists>i. map_option row_id (owned (sys_phase s i)) = Some k)"
  using assms
proof (cases rule: sys_step_cases)
  case (Deliver j row config now row1 w1 x w')
  then have "map_option row_id (owned (sys_phase s j)) = Some (row_id row)" by simp
  then show ?thesis using Deliver begin_Some [OF Deliver(3)] by (cases "k = row_id row") (blast, simp)
qed auto

lemma stranded_step:
  assumes "sys_step S L s s'" "sys_ok s" "stranded k s"
  shows "stranded k s' \<and> sends k (sys_log s') = sends k (sys_log s)"
proof -
  from assms(3) obtain r where r: "get_message (sys_table s) k = Some r" "row_status r = PROCESSING"
    and free: "\<And>i. map_option row_id (owned (sys_phase s i)) \<noteq> Some k" by (auto simp: stranded_def)
  have k: "row_id r = k" using get_message_SomeD [OF r(1)] by simp
  from step_rows [OF assms(1,2) r(1)] obtain r' where
    r': "get_message (sys_table s') k = Some r'" "row_step s r r'" by blast
  have "r' = r"
    using r'(2) r(2) free k unfolding row_step_def is_pending_def by fastforce
  moreover have "map_option row_id (owned (sys_phase s' i)) \<noteq> Some k" for i
  proof
    assume "map_option row_id (owned (sys_phase s' i)) = Some k"
    then obtain x where x: "owned (sys_phase s' i) = Some x" "row_id x = k" by auto
    from step_owners [OF assms(1) x(1) assms(2)] show False
      using free x(2) r by (auto simp: is_pending_def)
  qed
  ultimately show ?thesis
    using r'(1) r(2) step_sends [OF assms(1), of k] free by (auto simp: stranded_def)
qed

lemma stranded_forever:
  "(sys_step S L)\<^sup>*\<^sup>* s s' \<Longrightarrow> sys_ok s \<Longrightarrow> stranded k s
    \<Longrightarrow> sys_ok s' \<and> stranded k s' \<and> sends k (sys_log s') = sends k (sys_log s)"
proof (induction rule: rtranclp_induct)
  case (step b c)
  then show ?case using stranded_step [OF step(2)] sys_ok_step [OF step(2)] by simp
qed simp

text \<open>
  C18. A crash strands what the workers hold: once the process stops while a worker holds a
  message, the message stays in the status PROCESSING whatever happens after the restart, and is
  never handed to the driver again. Nothing in the program returns such a row to the queue.
\<close>

theorem crash_strands_message:
  assumes "sys_reachable S L s" "owned (sys_phase s i) = Some r"
    and "(sys_step S L)\<^sup>*\<^sup>* (s\<lparr>sys_world := (sys_world s)\<lparr>mw_out := out, mw_hub := h, mw_wake := b\<rparr>,
           sys_gate := gate, sys_phase := (\<lambda>_. Resting)\<rparr>) s'"
  shows "\<exists>r'. get_message (sys_table s') (row_id r) = Some r' \<and> row_status r' = PROCESSING
    \<and> sends (row_id r) (sys_log s') = sends (row_id r) (sys_log s)"
proof -
  let ?s = "s\<lparr>sys_world := (sys_world s)\<lparr>mw_out := out, mw_hub := h, mw_wake := b\<rparr>,
           sys_gate := gate, sys_phase := (\<lambda>_. Resting)\<rparr>"
  note ok = sys_ok_reachable [OF assms(1)]
  have "sys_ok ?s" by (rule sys_ok_step [OF Crash ok])
  moreover have "stranded (row_id r) ?s" using owned_row [OF ok assms(2)] by (simp add: stranded_def)
  ultimately show ?thesis using stranded_forever [OF assms(3)] by (auto simp: stranded_def)
qed

subsection \<open>The loop of one worker is a run of the system\<close>

lemma allow_gate: "allow a gate = (b, gate') \<Longrightarrow> gate' = maybe_half_open a gate"
  by (simp add: allow_def Let_def)

text \<open>A delivery of a row the worker holds, with its metrics and the record in the breaker.\<close>

definition gate_after :: "'a res \<Rightarrow> secs \<Rightarrow> pystr \<Rightarrow> table \<Rightarrow> breaker \<Rightarrow> breaker" where
  "gate_after res b k t gate = (case res of Inl _ \<Rightarrow> gate | Inr _ \<Rightarrow> record_outcome b k t gate)"

lemma gate_after_simps [simp]: "gate_after (Inl e) b k t gate = gate"
    "gate_after (Inr x) b k t gate = record_outcome b k t gate"
  by (simp_all add: gate_after_def)

lemma delivery_runs:
  assumes ph: "sys_phase s i = Holding row"
    and run: "process_row S config True now ts row (sys_world s) = (res, w2)"
  shows "\<exists>s'. (sys_step S L)\<^sup>*\<^sup>* s s' \<and> sys_world s' = finish_metrics ms w2
    \<and> sys_gate s' = gate_after res b (row_id row) (mw_table w2) (sys_gate s)
    \<and> sys_phase s' = (sys_phase s)(i := Resting)"
proof -
  obtain bg w1 where bg: "begin_delivery S config True now row (sys_world s) = (bg, w1)" by fastforce
  show ?thesis
  proof (cases bg)
    case None
    with run bg have res: "res = Inr None" "w2 = w1" by (simp_all add: process_row_def)
    let ?s' = "s\<lparr>sys_world := finish_metrics ms w2,
      sys_gate := record_outcome b (row_id row) (mw_table w2) (sys_gate s),
      sys_phase := (sys_phase s)(i := Resting)\<rparr>"
    have "sys_step S L s ?s'" by (rule Work [OF Reject [OF ph]]) (use bg None res in simp)
    then have "(sys_step S L)\<^sup>*\<^sup>* s ?s'" by (rule r_into_rtranclp)
    then show ?thesis using res(1) by (intro exI [of _ ?s']) simp
  next
    case (Some row1)
    with bg have bg': "begin_delivery S config True now row (sys_world s) = (Some row, sys_world s)"
      using begin_Some by blast
    obtain d w3 where d: "deliver S config row (sys_world s) = (d, w3)" by fastforce
    show ?thesis
    proof (cases d)
      case (Inl e)
      with run bg' d have res: "res = Inl e" "w2 = w3" by (simp_all add: process_row_def)
      let ?s' = "s\<lparr>sys_world := finish_metrics ms w2, sys_phase := (sys_phase s)(i := Resting)\<rparr>"
      have "sys_step S L s ?s'" by (rule Work [OF Raise [OF ph bg']]) (use d Inl res in simp)
      then have "(sys_step S L)\<^sup>*\<^sup>* s ?s'" by (rule r_into_rtranclp)
      then show ?thesis using res(1) by (intro exI [of _ ?s']) simp
    next
      case (Inr r)
      let ?s1 = "s\<lparr>sys_world := w3, sys_phase := (sys_phase s)(i := Handed row r),
        sys_log := sys_log s @ [(row_id row, succeeded r)]\<rparr>"
      from run bg' d Inr have st: "settle now ts row r (sys_world ?s1) = (res, w2)"
        by (simp add: process_row_def)
      have one: "sys_step S L s ?s1" by (rule Work [OF Deliver [OF ph bg']]) (use d Inr in simp)
      have two: "sys_step S L ?s1 (?s1\<lparr>sys_world := finish_metrics ms w2,
          sys_gate := record_outcome b (row_id row) (mw_table w2) (sys_gate ?s1),
          sys_phase := (sys_phase ?s1)(i := Resting)\<rparr>)"
        by (rule Work [OF Settle [OF _ st]]) simp
      have "\<exists>x. res = Inr x" using st by (auto simp: settle_def Let_def backoff_seconds_def max_attempts_def
            split: sum.splits if_splits)
      moreover have "(sys_step S L)\<^sup>*\<^sup>* s (?s1\<lparr>sys_world := finish_metrics ms w2,
          sys_gate := record_outcome b (row_id row) (mw_table w2) (sys_gate ?s1),
          sys_phase := (sys_phase ?s1)(i := Resting)\<rparr>)"
        using one two by (meson converse_rtranclp_into_rtranclp r_into_rtranclp)
      ultimately show ?thesis
        by (intro exI [of _ "?s1\<lparr>sys_world := finish_metrics ms w2,
          sys_gate := record_outcome b (row_id row) (mw_table w2) (sys_gate ?s1),
          sys_phase := (sys_phase ?s1)(i := Resting)\<rparr>"]) auto
    qed
  qed
qed

lemma drain_step_runs:
  assumes ok: "distinct_ids (sys_table s)" and ph: "sys_phase s i = Resting"
    and run: "drain_step S tk (sys_gate s, sys_world s) = (k, gate', w')"
  shows "\<exists>s'. (sys_step S L)\<^sup>*\<^sup>* s s' \<and> sys_world s' = w' \<and> sys_gate s' = gate' \<and> sys_phase s' = sys_phase s"
proof -
  obtain op gate1 where al: "allow (tk_allow tk) (sys_gate s) = (op, gate1)" by fastforce
  obtain x t1 where cl: "claim_next (tk_select tk) (tk_claim tk) (sys_table s) = (x, t1)" by fastforce
  let ?g = "s\<lparr>sys_gate := gate1\<rparr>"
  have gate: "(sys_step S L)\<^sup>*\<^sup>* s ?g"
    unfolding allow_gate [OF al] by (intro r_into_rtranclp Gate)
  show ?thesis
  proof (cases "tk_stop tk \<or> \<not> op \<or> x = None")
    case True
    then have "w' = sys_world s" "gate' = sys_gate s \<or> gate' = gate1"
      using run al cl claim_next_effect [OF ok cl] by (auto simp: drain_step_def split: if_splits)
    then show ?thesis using gate by (metis rtranclp.rtrancl_refl system.select_convs system.update_convs
          system.surjective)
  next
    case False
    then obtain row where x: "x = Some row" by auto
    from claim_next_effect [OF ok cl] x obtain r where
      sel: "select_next (tk_select tk) (sys_table s) = Some r" and r: "get_message (sys_table s) (row_id r) = Some r"
      "is_pending r" "row = claimed (tk_claim tk) r" "row_changed (sys_table s) row t1" by auto
    let ?s1 = "s\<lparr>sys_gate := gate1, sys_phase := (sys_phase s)(i := Chose (row_id r))\<rparr>"
    let ?s2 = "?s1\<lparr>sys_world := on_metrics inc_in_flight ((sys_world ?s1)\<lparr>mw_table := t1\<rparr>),
          sys_phase := (sys_phase ?s1)(i := Holding row)\<rparr>"
    have one: "sys_step S L s ?s1" by (rule Work [OF Select [OF ph _ sel]]) (use al False in simp)
    have same: "row_id row = row_id r" using r(3) by simp
    have new: "get_message t1 (row_id r) = Some row" using row_changed_get [OF r(4)] same by metis
    have "claim_row (row_id r) (tk_claim tk) (sys_table s) = (1, t1)"
      using cl x sel messages.claim_wins_iff [OF ok, of "row_id r" "tk_claim tk"] r(1,2)
      by (auto simp: claim_next_def split: prod.splits if_splits)
    then have two: "sys_step S L ?s1 ?s2"
      by (intro Work Win [OF _ _ new]) simp_all
    obtain res w2 where pr: "process_row S (tk_config tk) True (tk_now tk) (tk_ts tk) row (sys_world ?s2) = (res, w2)"
      by fastforce
    have ph2: "sys_phase ?s2 i = Holding row" by simp
    from delivery_runs [OF ph2 pr, of L "tk_latency_ms tk" "tk_record tk"] obtain s' where
      s': "(sys_step S L)\<^sup>*\<^sup>* ?s2 s'" "sys_world s' = finish_metrics (tk_latency_ms tk) w2"
        "sys_gate s' = gate_after res (tk_record tk) (row_id row) (mw_table w2) gate1"
        "sys_phase s' = (sys_phase ?s2)(i := Resting)" by auto
    have "sys_phase s' = sys_phase s" using s'(4) ph by (simp add: fun_upd_idem)
    moreover have "w' = sys_world s'" "gate' = sys_gate s'"
      using run al cl False x pr s'(2,3) by (auto simp: drain_step_def Let_def split: sum.splits)
    moreover have "(sys_step S L)\<^sup>*\<^sup>* s s'"
      using one two s'(1) by (meson converse_rtranclp_into_rtranclp)
    ultimately show ?thesis by blast
  qed
qed

lemma reachable_runs: "(sys_step S L)\<^sup>*\<^sup>* s s' \<Longrightarrow> sys_reachable S L s \<Longrightarrow> sys_reachable S L s'"
  by (induction rule: rtranclp_induct) (auto intro: sys_reachable.Step)

text \<open>
  C12. The loop \<open>_drain\<close> that one thread runs, with its breaker and its metrics, is a run of the
  system: what holds of every reachable state of the workers holds of the state it leaves.
\<close>

theorem worker_loop_is_system_run:
  assumes "sys_reachable S L s" "sys_phase s i = Resting"
    and "drain S tks d (sys_gate s, sys_world s) = (r, gate', w')"
  shows "\<exists>s'. (sys_step S L)\<^sup>*\<^sup>* s s' \<and> sys_reachable S L s' \<and> sys_world s' = w' \<and> sys_gate s' = gate'"
  using assms
proof (induction tks arbitrary: d s)
  case Nil
  then have "sys_world s = w'" "sys_gate s = gate'" by simp_all
  then show ?case using Nil(1) by blast
next
  case (Cons tk tks)
  obtain k gate1 w1 where st: "drain_step S tk (sys_gate s, sys_world s) = (k, gate1, w1)" by (metis prod_cases3)
  from drain_step_runs [OF sys_okD(2) [OF sys_ok_reachable [OF Cons.prems(1)]] Cons.prems(2) st]
  obtain s1 where s1: "(sys_step S L)\<^sup>*\<^sup>* s s1" "sys_world s1 = w1" "sys_gate s1 = gate1"
    "sys_phase s1 = sys_phase s" by blast
  note r1 = reachable_runs [OF s1(1) Cons.prems(1)]
  show ?case
  proof (cases k)
    case Worked
    then have "drain S tks True (sys_gate s1, sys_world s1) = (r, gate', w')"
      using Cons.prems(3) st s1 by simp
    from Cons.IH [OF r1 _ this] s1(4) Cons.prems(2) obtain s' where
      s': "(sys_step S L)\<^sup>*\<^sup>* s1 s'" "sys_reachable S L s'" "sys_world s' = w'" "sys_gate s' = gate'" by auto
    have "(sys_step S L)\<^sup>*\<^sup>* s s'" by (rule rtranclp_trans [OF s1(1) s'(1)])
    with s' show ?thesis by blast
  qed (use Cons.prems(3) st s1 r1 in auto)
qed

subsection \<open>Runs to evaluate\<close>

definition ok_sender :: "send_request list sender" where
  "ok_sender = toy_sender\<lparr>snd_driver := (\<lambda>_. mock_driver None)\<rparr>"

definition start_system :: "send_request list system" where
  "start_system = \<lparr>sys_world = empty_world, sys_gate = fresh_breaker 5 60,
     sys_phase = (\<lambda>_. Resting), sys_log = []\<rparr>"

lemma ok_sender_facts [simp]: "snd_crypto ok_sender = toy_crypto" "snd_box ok_sender = \<lparr>box_key = []\<rparr>"
    "snd_override ok_sender = None" "snd_driver ok_sender = (\<lambda>_. mock_driver None)"
  by (simp_all add: ok_sender_def toy_sender_def)

lemma start_reachable: "sys_reachable ok_sender toy_lib start_system"
  unfolding start_system_def by (rule Start) simp

text \<open>A message is accepted, selected, claimed and delivered.\<close>

lemma toy_queued:
  "\<exists>row w'. sys_step ok_sender toy_lib start_system (start_system\<lparr>sys_world := w'\<rparr>)
    \<and> mw_table w' = [row] \<and> row_status row = QUEUED \<and> next_retry_at row = Some 5
    \<and> (\<exists>req. row_request ok_sender sample_config row = Inr req)"
proof -
  let ?m = "toy_message_in\<lparr>nm_subject := or_empty (msg_subject (parse_mime toy_lib (nm_mime toy_message_in)))\<rparr>"
  have b: "bindable ?m" by (simp add: toy_message_in_def bindable_def toy_lib_def lit_def is_scalar_def)
  have "\<exists>x w' row. accept_smtp toy_crypto \<lparr>box_key = []\<rparr> toy_lib toy_ins toy_message_in empty_world = (Inr x, w')
      \<and> mw_table w' = mw_table empty_world @ [row]"
    by (rule accept_fresh [OF toy_message_scalar(1) b]) simp
  then obtain x w' where acc: "accept_smtp toy_crypto \<lparr>box_key = []\<rparr> toy_lib toy_ins toy_message_in empty_world
      = (Inr x, w')" by blast
  then obtain row where ins: "insert_message toy_crypto \<lparr>box_key = []\<rparr> (ins_nonce toy_ins) (ins_uuid toy_ins)
      (ins_now toy_ins) ?m (mw_table empty_world) = Inr (row, mw_table w')"
    and t: "mw_table w' = mw_table empty_world @ [row]" by (rule accept_smtp_InrD)
  have n: "length (ins_nonce toy_ins) = 12" "ins_now toy_ins = 5" by (simp_all add: toy_ins_def)
  from ins have "row_status row = QUEUED" "next_retry_at row = Some 5"
    unfolding n(2) by (rule insert_message_InrD, simp)+
  moreover have "\<exists>req. row_request ok_sender sample_config row = Inr req"
    using row_request_inserted [of ok_sender "ins_nonce toy_ins" ?m] ins n(1) by auto
  moreover have "sys_step ok_sender toy_lib start_system (start_system\<lparr>sys_world := w'\<rparr>)"
    using acc by (intro Accept [where ins = toy_ins and m = toy_message_in and x = x]) (simp add: start_system_def)
  ultimately show ?thesis using t by auto
qed

lemma claim_run:
  assumes t: "sys_table s = [row]" and ph: "sys_phase s = (\<lambda>_. Resting)"
    and al: "allow a (sys_gate s) = (True, gate')" and due: "is_due now row"
  obtains s1 s2 where "worker_step S s s1" "worker_step S s1 s2" "sys_phase s2 0 = Holding (claimed now row)"
    "sys_log s2 = sys_log s" "mw_out (sys_world s2) = mw_out (sys_world s)"
proof -
  let ?s1 = "s\<lparr>sys_gate := gate', sys_phase := (sys_phase s)(0 := Chose (row_id row))\<rparr>"
  let ?t = "[claimed now row]"
  let ?s2 = "?s1\<lparr>sys_world := on_metrics inc_in_flight ((sys_world ?s1)\<lparr>mw_table := ?t\<rparr>),
    sys_phase := (sys_phase ?s1)(0 := Holding (claimed now row))\<rparr>"
  have pend: "is_pending row" using due by (simp add: is_due_def)
  have "select_next now [row] = Some row" using due by (simp add: select_next_def pending_messages_def)
  then have one: "worker_step S s ?s1"
    using ph al by (intro Select [where a = a and now = now]) (simp_all add: t)
  have "claim_row (row_id row) now [row] = (1, ?t)" using pend by (simp add: claim_row_def claimed_def)
  then have "worker_step S ?s1 ?s2"
    by (intro Win [where k = "row_id row" and now = now]) (simp_all add: t)
  from that [OF one this] show thesis by simp
qed

lemma toy_held:
  "\<exists>s row. sys_reachable ok_sender toy_lib s \<and> sys_phase s 0 = Holding row \<and> sys_log s = []
    \<and> (\<exists>req. row_request ok_sender sample_config row = Inr req)"
proof -
  from toy_queued obtain row w' where one: "sys_step ok_sender toy_lib start_system (start_system\<lparr>sys_world := w'\<rparr>)"
    and t: "mw_table w' = [row]" and row: "row_status row = QUEUED" "next_retry_at row = Some 5"
      "\<exists>req. row_request ok_sender sample_config row = Inr req" by blast
  let ?s = "start_system\<lparr>sys_world := w'\<rparr>"
  have al: "allow 0 (sys_gate ?s) = (True, fresh_breaker 5 60)"
    by (simp add: start_system_def allow_def maybe_half_open_def fresh_breaker_def)
  have due: "is_due 5 row" using row by (simp add: is_pending_def is_due_def)
  have "sys_table ?s = [row]" "sys_phase ?s = (\<lambda>_. Resting)" using t by (simp_all add: start_system_def)
  from claim_run [OF this al due, of ok_sender] obtain s1 s2 where
    "worker_step ok_sender ?s s1" "worker_step ok_sender s1 s2"
    "sys_phase s2 0 = Holding (claimed 5 row)" "sys_log s2 = sys_log ?s" .
  moreover from this have "sys_reachable ok_sender toy_lib s2"
    using start_reachable one by (meson sys_reachable.Step Work)
  moreover have "row_request ok_sender sample_config (claimed 5 row) = row_request ok_sender sample_config row"
    by simp
  ultimately show ?thesis using row(3) by (intro exI [of _ s2] exI [of _ "claimed 5 row"]) (simp add: start_system_def)
qed

lemma toy_handed:
  "\<exists>s row x. sys_reachable ok_sender toy_lib s \<and> sys_phase s 0 = Handed row x \<and> sys_log s = [(row_id row, True)]"
proof -
  from toy_held obtain s row req where s: "sys_reachable ok_sender toy_lib s" "sys_phase s 0 = Holding row"
    "sys_log s = []" and req: "row_request ok_sender sample_config row = Inr req" by blast
  have bg: "begin_delivery ok_sender sample_config True 6 row (sys_world s) = (Some row, sys_world s)"
    by (rule begin_claimed) (simp add: mock_driver_def)
  obtain r out where h: "hand_to_driver ok_sender sample_config req (mw_out (sys_world s)) = (r, out)"
    and ok: "succeeded r" by (simp add: hand_to_driver_def mock_driver_def)
  then have "deliver ok_sender sample_config row (sys_world s) = (Inr r, (sys_world s)\<lparr>mw_out := out\<rparr>)"
    using req by (simp add: deliver_def)
  from sys_reachable.Step [OF s(1) Work [OF Deliver [OF s(2) bg this]]] s(3) ok show ?thesis
    by (intro exI conjI) (assumption, simp_all)
qed

theorem delivered_at_most_once_witness:
  "\<exists>s k. sys_reachable ok_sender toy_lib s \<and> accepted k (sys_log s) = 1 \<and> sends k (sys_log s) \<le> 8"
proof -
  from toy_handed obtain s row x where s: "sys_reachable ok_sender toy_lib s"
    "sys_phase s 0 = Handed row x" "sys_log s = [(row_id row, True)]" by blast
  have "accepted (row_id row) (sys_log s) = 1" using s(3) by (simp add: accepted_def)
  with s(1) delivered_at_most_once [OF s(1), of "row_id row"] show ?thesis by blast
qed

theorem workers_exclude_each_other_witness:
  "\<exists>s r. sys_reachable ok_sender toy_lib s \<and> sys_phase s 0 = Holding r
    \<and> get_message (sys_table s) (row_id r) = Some r \<and> row_status r = PROCESSING"
proof -
  from toy_held obtain s row where s: "sys_reachable ok_sender toy_lib s" "sys_phase s 0 = Holding row" by blast
  with workers_exclude_each_other [OF s(1), of 0 0] show ?thesis by auto
qed

theorem system_refines_lifecycle_witness:
  "\<exists>s s' k r. sys_reachable ok_sender toy_lib s \<and> sys_step ok_sender toy_lib s s'
    \<and> get_message (sys_table s) k = Some r \<and> row_status r = PROCESSING
    \<and> (\<exists>r'. get_message (sys_table s') k = Some r' \<and> row_status r' \<in> {PROCESSING, SENT, FAILED, RETRYING})"
proof -
  from toy_handed obtain s row x where s: "sys_reachable ok_sender toy_lib s" "sys_phase s 0 = Handed row x"
    by blast
  obtain res w' where "settle 6 [] row x (sys_world s) = (res, w')" by fastforce
  from Work [OF Settle [OF s(2) this]] obtain s' where st: "sys_step ok_sender toy_lib s s'" by blast
  have row: "get_message (sys_table s) (row_id row) = Some row" "row_status row = PROCESSING"
    using owned_row [OF sys_ok_reachable [OF s(1)], of 0] s(2) by simp_all
  from system_refines_lifecycle [OF s(1) st row(1)] row(2)
  have "\<exists>r'. get_message (sys_table s') (row_id row) = Some r' \<and> row_status r' \<in> {PROCESSING, SENT, FAILED, RETRYING}"
    by (auto simp: lifecycle_simps)
  with s(1) st row show ?thesis by blast
qed

theorem crash_strands_message_witness:
  "\<exists>s r. sys_reachable ok_sender toy_lib s \<and> sys_phase s 0 = Holding r
    \<and> (\<exists>r'. get_message (sys_table s) (row_id r) = Some r' \<and> row_status r' = PROCESSING)"
proof -
  from toy_held obtain s row where s: "sys_reachable ok_sender toy_lib s" "sys_phase s 0 = Holding row" by blast
  then have "owned (sys_phase s 0) = Some row" by simp
  from crash_strands_message [OF s(1) this rtranclp.rtrancl_refl] s show ?thesis by auto
qed

theorem worker_loop_is_system_run_witness:
  "\<exists>s'. sys_reachable ok_sender toy_lib s'
    \<and> (sys_gate s', sys_world s') = snd (drain ok_sender [toy_tick, toy_tick] False (fresh_breaker 5 60, empty_world))"
proof -
  obtain r gate' w' where run: "drain ok_sender [toy_tick, toy_tick] False
      (sys_gate start_system, sys_world start_system) = (r, gate', w')" by (metis prod_cases3)
  have "sys_phase start_system 0 = Resting" by (simp add: start_system_def)
  from worker_loop_is_system_run [OF start_reachable this run] run show ?thesis
    by (auto simp: start_system_def simp del: drain.simps)
qed

end
