(* ===== verification/Queue_Delivery.thy ===== *)
theory Queue_Delivery
  imports Queue_System
begin

section \<open>From the SMTP answer to the mail server\<close>

text \<open>
  The queue as a whole, the service, the table, the loop of a worker, the processor and the
  breaker composed. \<open>backlog\<close> is the abstraction: the mails that wait, oldest first. While the
  backend accepts, a drain empties it in that order; while the backend refuses, a drain gives up
  after as many mails as the breaker tolerates.
\<close>

definition backlog :: "table \<Rightarrow> message_row list" where
  "backlog t = sort_key created_at (filter is_pending t)"

subsection \<open>The backlog and the table\<close>

lemma row_changed_map:
  assumes "distinct_ids t" "row_changed t r' t'"
  shows "t' = map (\<lambda>x. if row_id x = row_id r' then r' else x) t"
proof -
  have same: "ids t' = ids t" using assms(2) by (rule row_changed_ids)
  then have "t' = map (\<lambda>k. the (get_message t' k)) (ids t)"
    using table_by_ids [of t'] assms(1) by (simp add: distinct_ids_def)
  also have "\<dots> = map (\<lambda>x. the (get_message t' (row_id x))) t" by (simp add: ids_def comp_def)
  also have "\<dots> = map (\<lambda>x. if row_id x = row_id r' then r' else x) t"
    using assms get_message_member by (auto simp: row_changed_get)
  finally show ?thesis .
qed

lemma set_backlog [simp]: "set (backlog t) = {r \<in> set t. is_pending r}"
  by (simp add: backlog_def)

lemma backlog_distinct: "distinct_ids t \<Longrightarrow> distinct (map row_id (backlog t))"
proof -
  assume "distinct_ids t"
  then have "distinct t" "inj_on row_id (set t)"
    by (simp_all add: distinct_ids_def ids_def distinct_map)
  then show ?thesis
    by (auto simp: backlog_def distinct_map intro: inj_on_subset)
qed

lemma backlog_next:
  assumes d: "distinct_ids t" and bl: "backlog t = r # rs"
    and ch: "row_changed t r' t'" "row_id r' = row_id r" "\<not> is_pending r'"
  shows "backlog t' = rs"
proof -
  have "filter is_pending t' = filter (\<lambda>x. row_id x \<noteq> row_id r) (filter is_pending t)"
    using ch(2,3) by (subst row_changed_map [OF d ch(1)], induction t) auto
  then have "backlog t' = filter (\<lambda>x. row_id x \<noteq> row_id r) (backlog t)"
    by (simp add: backlog_def filter_sort)
  also have "\<dots> = rs"
    using backlog_distinct [OF d] by (auto simp: bl filter_id_conv) (metis imageI)
  finally show ?thesis .
qed

lemma select_backlog:
  assumes "list_all (is_due now) (backlog t)"
  shows "select_next now t = (case backlog t of [] \<Rightarrow> None | r # _ \<Rightarrow> Some r)"
proof -
  have "\<And>r. r \<in> set t \<Longrightarrow> is_due now r = is_pending r"
    using assms by (auto simp: list_all_iff is_due_def)
  then have "filter (is_due now) t = filter is_pending t" by (intro filter_cong) simp_all
  then show ?thesis
    by (simp add: select_next_def pending_messages_def backlog_def [symmetric] split: list.split)
qed

lemma backlog_Cons: "distinct_ids t \<Longrightarrow> backlog t = r # rs \<Longrightarrow> get_message t (row_id r) = Some r \<and> is_pending r"
  using get_message_member [of t r] set_backlog [of t] by auto

text \<open>The row at the head is the one a worker claims.\<close>

lemma claim_head:
  assumes "distinct_ids t" "list_all (is_due now) (backlog t)"
  shows "case backlog t of
      [] \<Rightarrow> claim_next now now' t = (None, t)
    | r # _ \<Rightarrow> \<exists>t'. claim_next now now' t = (Some (claimed now' r), t') \<and> row_changed t (claimed now' r) t'"
proof -
  obtain x t' where cl: "claim_next now now' t = (x, t')" by fastforce
  show ?thesis
  proof (cases "backlog t")
    case Nil
    then show ?thesis using select_backlog [OF assms(2)] by (simp add: claim_next_def)
  next
    case (Cons r rs)
    then have sel: "select_next now t = Some r" using select_backlog [OF assms(2)] by simp
    have "r \<in> set t \<and> is_due now r" using select_next_due [OF sel] by blast
    then have "x \<noteq> None" using claim_next_effect [OF assms(1) cl] by (cases x) auto
    then show ?thesis using claim_next_effect [OF assms(1) cl] sel cl Cons by auto
  qed
qed

subsection \<open>One turn, with the answer of the driver\<close>

definition answered :: "secs \<Rightarrow> send_result res \<Rightarrow> breaker \<Rightarrow> breaker" where
  "answered now r b = (case r of Inr _ \<Rightarrow> record_success b | Inl _ \<Rightarrow> record_failure now b)"

lemma record_outcome_answered:
  "get_message t i = Some (outcome now r row) \<Longrightarrow> record_outcome tick i t b = answered tick r b"
  by (auto simp: record_outcome_def answered_def outcome_status split: sum.split)

lemma drain_step_head:
  assumes d: "distinct_ids (mw_table w)" and bl: "backlog (mw_table w) = r # rs"
    and due: "list_all (is_due (tk_select tk)) (r # rs)"
    and go: "\<not> tk_stop tk" "allow (tk_allow tk) gate = (True, gate1)"
    and conf: "drv_configured (snd_driver S (tk_config tk)) (tk_config tk)"
    and req: "row_request S (tk_config tk) r = Inr req"
    and sent: "hand_to_driver S (tk_config tk) req (mw_out w) = (x, out)"
  shows "\<exists>w'. drain_step S tk (gate, w) = (Worked, answered (tk_record tk) x gate1, w')
    \<and> mw_out w' = out
    \<and> row_changed (mw_table w) (outcome (tk_now tk) x (claimed (tk_claim tk) r)) (mw_table w')"
proof -
  let ?row = "claimed (tk_claim tk) r"
  from claim_head [OF d, of "tk_select tk" "tk_claim tk"] bl due obtain t1
    where cl: "claim_next (tk_select tk) (tk_claim tk) (mw_table w) = (Some ?row, t1)"
      and ch: "row_changed (mw_table w) ?row t1" by auto
  let ?w1 = "on_metrics inc_in_flight (w\<lparr>mw_table := t1\<rparr>)"
  let ?w2 = "?w1\<lparr>mw_out := out\<rparr>"
  have del: "deliver S (tk_config tk) ?row ?w1 = (Inr x, ?w2)"
    using req sent by (simp add: deliver_def)
  obtain res w3 where st: "settle (tk_now tk) (tk_ts tk) ?row x ?w2 = (res, w3)" by fastforce
  have row: "get_message (mw_table ?w2) (row_id ?row) = Some ?row"
    using row_changed_get [OF ch] by simp
  note eff = settle_changes [OF st row]
  obtain y where y: "res = Inr y" using eff(3) by blast
  have pr: "process_row S (tk_config tk) True (tk_now tk) (tk_ts tk) ?row ?w1 = (Inr y, w3)"
    using begin_claimed [OF conf] del st y by (simp add: process_row_def)
  have ch3: "row_changed (mw_table w) (outcome (tk_now tk) x ?row) (mw_table w3)"
    using row_changed_trans [OF ch eff(1) [simplified]] by simp
  then have "record_outcome (tk_record tk) (row_id ?row) (mw_table w3) gate1 = answered (tk_record tk) x gate1"
    by (intro record_outcome_answered [where now = "tk_now tk" and row = ?row]) (simp add: row_changed_get)
  then have "drain_step S tk (gate, w)
      = (Worked, answered (tk_record tk) x gate1, finish_metrics (tk_latency_ms tk) w3)"
    using go cl pr by (simp add: drain_step_def)
  then show ?thesis using ch3 eff(2) by simp
qed

lemma drain_step_empty:
  assumes "distinct_ids (mw_table w)" "backlog (mw_table w) = []"
    and "\<not> tk_stop tk" "allow (tk_allow tk) gate = (True, gate1)"
  shows "drain_step S tk (gate, w) = (Idle, gate1, w)"
  using claim_head [OF assms(1), of "tk_select tk" "tk_claim tk"] assms(2-) by (simp add: drain_step_def)

subsection \<open>While the backend accepts\<close>

text \<open>The driver called with one request after the other: what it leaves, and whether it took all.\<close>

definition relay :: "'w sender \<Rightarrow> gateway_config \<Rightarrow> send_request list \<Rightarrow> 'w \<Rightarrow> 'w" where
  "relay S cfg reqs out = fold (\<lambda>req out. snd (hand_to_driver S cfg req out)) reqs out"

fun takes_all :: "'w sender \<Rightarrow> gateway_config \<Rightarrow> send_request list \<Rightarrow> 'w \<Rightarrow> bool" where
  "takes_all S cfg [] out = True"
| "takes_all S cfg (req # reqs) out =
     (case hand_to_driver S cfg req out of (x, out') \<Rightarrow> succeeded x \<and> takes_all S cfg reqs out')"

text \<open>The turns of a drain with one configuration, at times when all the given rows are due.\<close>

definition turn_for :: "gateway_config \<Rightarrow> message_row list \<Rightarrow> tick \<Rightarrow> bool" where
  "turn_for cfg rows tk \<longleftrightarrow> \<not> tk_stop tk \<and> tk_config tk = cfg \<and> list_all (is_due (tk_select tk)) rows"

text \<open>The row of a mail that was delivered.\<close>

definition delivered_row :: "message_row \<Rightarrow> message_row \<Rightarrow> bool" where
  "delivered_row r r' \<longleftrightarrow> row_status r' = SENT \<and> attempts r' = attempts r + 1 \<and> last_error r' = None
     \<and> mime_payload r' = mime_payload r \<and> row_recipients r' = row_recipients r"

fun became :: "message_row option \<Rightarrow> message_row option \<Rightarrow> bool" where
  "became None r' = (r' = None)"
| "became (Some r) None = False"
| "became (Some r) (Some r') = (if is_pending r then delivered_row r r' else r' = r)"

definition all_delivered :: "table \<Rightarrow> table \<Rightarrow> bool" where
  "all_delivered t t' \<longleftrightarrow> ids t' = ids t \<and> (\<forall>k. became (get_message t k) (get_message t' k))"

lemma allow_closed: "br_state gate = CLOSED \<Longrightarrow> allow now gate = (True, gate)"
  by (simp add: allow_def maybe_half_open_def)

lemma answered_accepted [simp]: "br_state (answered now (Inr x) gate) = CLOSED"
  by (simp add: answered_def record_success_def)

lemma all_delivered_refl: "backlog t = [] \<Longrightarrow> all_delivered t t"
  unfolding all_delivered_def
proof (intro conjI allI)
  fix k assume "backlog t = []"
  then show "became (get_message t k) (get_message t k)"
    using set_backlog [of t] by (cases "get_message t k") (auto dest: get_message_SomeD)
qed simp

lemma delivered_outcome: "delivered_row r (outcome now (Inr x) (claimed now' r))"
  by (simp add: delivered_row_def outcome_def mark_outcome_def claimed_def)

lemma all_delivered_at: "all_delivered t t' \<Longrightarrow> became (get_message t k) (get_message t' k)"
  by (simp add: all_delivered_def)

lemma became_SomeD: "became (Some r) y \<Longrightarrow> \<exists>r'. y = Some r' \<and> (if is_pending r then delivered_row r r' else r' = r)"
  by (cases y) auto

lemma all_delivered_step:
  assumes "row_changed t r1 t1" "get_message t (row_id r1) = Some r" "is_pending r"
    and "delivered_row r r1" "all_delivered t1 t2"
  shows "all_delivered t t2"
proof -
  have busy: "\<not> is_pending r1" using assms(4) by (simp add: delivered_row_def is_pending_def)
  have "became (get_message t k) (get_message t2 k)" for k
  proof (cases "k = row_id r1")
    case True
    then have "get_message t2 k = Some r1"
      using became_SomeD [of r1] all_delivered_at [OF assms(5), of k] busy row_changed_get [OF assms(1), of k]
      by auto
    then show ?thesis using True assms(2-4) by simp
  next
    case False
    then show ?thesis
      using all_delivered_at [OF assms(5), of k] row_changed_get [OF assms(1), of k] by simp
  qed
  then show ?thesis
    using assms(5) row_changed_ids [OF assms(1)] by (simp add: all_delivered_def)
qed

lemma turn_for_tl: "turn_for cfg (r # rs) tk \<Longrightarrow> turn_for cfg rs tk"
  by (simp add: turn_for_def)

lemma drain_relays:
  assumes "distinct_ids (mw_table w)" "br_state gate = CLOSED"
    and "drv_configured (snd_driver S cfg) cfg"
    and "mapE (row_request S cfg) (backlog (mw_table w)) = Inr reqs" "takes_all S cfg reqs (mw_out w)"
    and "list_all (turn_for cfg (backlog (mw_table w))) tks" "length reqs < length tks"
  shows "\<exists>gate' w'. drain S tks d (gate, w) = (Some (Inr (d \<or> reqs \<noteq> [])), gate', w')
    \<and> mw_out w' = relay S cfg reqs (mw_out w) \<and> br_state gate' = CLOSED
    \<and> backlog (mw_table w') = [] \<and> all_delivered (mw_table w) (mw_table w')"
  using assms
proof (induction reqs arbitrary: tks d gate w)
  case Nil
  then have bl: "backlog (mw_table w) = []"
    by (cases "backlog (mw_table w)") (auto simp: bindE_Inr_iff)
  obtain tk tks' where tks: "tks = tk # tks'" using Nil.prems(7) by (cases tks) auto
  then have "\<not> tk_stop tk" using Nil.prems(6) by (simp add: turn_for_def)
  from drain_step_empty [OF Nil.prems(1) bl this allow_closed [OF Nil.prems(2)]]
  have "drain S tks d (gate, w) = (Some (Inr d), gate, w)" by (simp add: tks)
  then show ?case using Nil.prems(2) bl all_delivered_refl by (simp add: relay_def)
next
  case (Cons req reqs)
  then obtain r rs where bl: "backlog (mw_table w) = r # rs" and rq: "row_request S cfg r = Inr req"
    and rqs: "mapE (row_request S cfg) rs = Inr reqs"
    by (cases "backlog (mw_table w)") (auto simp: bindE_Inr_iff)
  obtain tk tks' where tks: "tks = tk # tks'" using Cons.prems(7) by (cases tks) auto
  have tk: "\<not> tk_stop tk" "tk_config tk = cfg" "list_all (is_due (tk_select tk)) (r # rs)"
    and rest: "list_all (turn_for cfg (r # rs)) tks'"
    using Cons.prems(6) unfolding tks bl by (auto simp: turn_for_def [of cfg "r # rs" tk])
  obtain x out where sent: "hand_to_driver S cfg req (mw_out w) = (Inr x, out)"
    and more: "takes_all S cfg reqs out"
    using Cons.prems(5) by (auto simp: succeeded_def split: prod.splits sum.splits)
  let ?r = "outcome (tk_now tk) (Inr x) (claimed (tk_claim tk) r)"
  let ?g = "answered (tk_record tk) (Inr x) gate"
  from drain_step_head [OF Cons.prems(1) bl tk(3,1) allow_closed [OF Cons.prems(2)], of S req "Inr x" out]
  obtain w1 where st: "drain_step S tk (gate, w) = (Worked, ?g, w1)" and out: "mw_out w1 = out"
    and ch: "row_changed (mw_table w) ?r (mw_table w1)"
    using Cons.prems(3) rq sent tk(2) by auto
  have dl: "delivered_row r ?r" by (rule delivered_outcome)
  then have bl1: "backlog (mw_table w1) = rs"
    by (intro backlog_next [OF Cons.prems(1) bl ch]) (simp_all add: delivered_row_def is_pending_def)
  have d1: "distinct_ids (mw_table w1)"
    using Cons.prems(1) row_changed_ids [OF ch] by (simp add: distinct_ids_def)
  have "list_all (turn_for cfg rs) tks'"
    using rest turn_for_tl by (auto simp: list_all_iff)
  with Cons.IH [OF d1, of ?g tks' True] Cons.prems(3,7) rqs more bl1 out tks
  obtain gate' w' where "drain S tks' True (?g, w1) = (Some (Inr True), gate', w')"
    "mw_out w' = relay S cfg reqs out" "br_state gate' = CLOSED" "backlog (mw_table w') = []"
    and rest: "all_delivered (mw_table w1) (mw_table w')" by auto
  moreover have "all_delivered (mw_table w) (mw_table w')"
    using all_delivered_step [OF ch _ _ _ rest] backlog_Cons [OF Cons.prems(1) bl] dl by simp
  ultimately show ?case using st sent by (simp add: tks relay_def)
qed

subsection \<open>The gateway as a relay\<close>

fun accept_mails ::
    "crypto \<Rightarrow> secret_box \<Rightarrow> mail_lib \<Rightarrow> (insert_io \<times> new_message) list \<Rightarrow> 'w mail_world \<Rightarrow> 'w mail_world option" where
  "accept_mails C box L [] w = Some w"
| "accept_mails C box L ((ins, m) # ms) w =
     (case accept_smtp C box L ins m w of
        (Inl e, w') \<Rightarrow> None
      | (Inr x, w') \<Rightarrow> accept_mails C box L ms w')"

text \<open>What the driver should be asked to send for a mail that came in.\<close>

definition mail_request :: "gateway_config \<Rightarrow> new_message \<Rightarrow> send_request" where
  "mail_request cfg m = \<lparr>auth_username = nm_username m, auth_password = nm_password m,
     mail_from = nm_sender m, rcpt_tos = nm_recipients m, mime_bytes = nm_mime m,
     req_default_sender = default_sender cfg\<rparr>"

text \<open>What the random source and the session guarantee of a mail.\<close>

definition mail_ok :: "insert_io \<times> new_message \<Rightarrow> bool" where
  "mail_ok im \<longleftrightarrow> length (ins_nonce (fst im)) = 12 \<and> list_all (list_all is_scalar) (nm_recipients (snd im))"

definition row_of_mail :: "'w sender \<Rightarrow> gateway_config \<Rightarrow> insert_io \<times> new_message \<Rightarrow> message_row \<Rightarrow> bool" where
  "row_of_mail S cfg im r \<longleftrightarrow> is_pending r \<and> attempts r = 0 \<and> row_id r = new_message_id (ins_uuid (fst im))
     \<and> created_at r = ins_now (fst im) \<and> next_retry_at r = Some (ins_now (fst im))
     \<and> row_request S cfg r = Inr (mail_request cfg (snd im))"

lemma accepted_row_of_mail:
  assumes "aead_law (snd_crypto S)" "mail_ok (ins, m)"
    and acc: "accept_smtp (snd_crypto S) (snd_box S) L ins m w = (Inr x, w1)"
  shows "\<exists>r. row_of_mail S cfg (ins, m) r \<and> mw_table w1 = mw_table w @ [r] \<and> mw_out w1 = mw_out w
    \<and> get_message (mw_table w) (row_id r) = None"
proof -
  let ?m = "m\<lparr>nm_subject := or_empty (msg_subject (parse_mime L (nm_mime m)))\<rparr>"
  from acc obtain r where put: "insert_message (snd_crypto S) (snd_box S) (ins_nonce ins) (ins_uuid ins) (ins_now ins)
      ?m (mw_table w) = Inr (r, mw_table w1)" and t: "mw_table w1 = mw_table w @ [r]" "mw_out w1 = mw_out w"
    by (rule accept_smtp_InrD)
  from put have row: "get_message (mw_table w) (row_id r) = None" "row_status r = QUEUED" "attempts r = 0"
    "row_id r = new_message_id (ins_uuid ins)" "next_retry_at r = Some (ins_now ins)" "created_at r = ins_now ins"
    by (rule insert_message_InrD, simp)+
  have "row_request S cfg r = Inr (mail_request cfg m)"
    using row_request_inserted [OF assms(1) _ _ put] assms(2) by (simp add: mail_ok_def mail_request_def)
  then have "row_of_mail S cfg (ins, m) r" using row by (simp add: row_of_mail_def is_pending_def)
  then show ?thesis using row(1) t by blast
qed

lemma accept_mails_rows:
  assumes "aead_law (snd_crypto S)" "list_all mail_ok ms"
    and "accept_mails (snd_crypto S) (snd_box S) L ms w = Some w1" "distinct_ids (mw_table w)"
  shows "\<exists>rs. mw_table w1 = mw_table w @ rs \<and> list_all2 (row_of_mail S cfg) ms rs
    \<and> mw_out w1 = mw_out w \<and> distinct_ids (mw_table w1)"
  using assms
proof (induction ms arbitrary: w)
  case (Cons im ms)
  obtain ins m where im: "im = (ins, m)" by fastforce
  obtain x w2 where acc: "accept_smtp (snd_crypto S) (snd_box S) L ins m w = (Inr x, w2)"
    and rest: "accept_mails (snd_crypto S) (snd_box S) L ms w2 = Some w1"
    using Cons.prems(3) by (auto simp: im split: prod.splits sum.splits)
  from accepted_row_of_mail [OF Cons.prems(1) _ acc] Cons.prems(2) obtain r where
    r: "row_of_mail S cfg im r" "mw_table w2 = mw_table w @ [r]" "mw_out w2 = mw_out w"
      "get_message (mw_table w) (row_id r) = None" by (auto simp: im)
  have "distinct_ids (mw_table w2)"
    using Cons.prems(4) r(2,4) get_message_None_iff [of "mw_table w"] by (simp add: distinct_ids_def ids_def)
  with Cons.IH [OF Cons.prems(1) _ rest] Cons.prems(2) obtain rs where
    "mw_table w1 = mw_table w2 @ rs" "list_all2 (row_of_mail S cfg) ms rs" "mw_out w1 = mw_out w2"
    "distinct_ids (mw_table w1)" by auto
  with r show ?case by (intro exI [of _ "r # rs"]) simp
qed simp

lemma sort_key_id: "sorted (map f xs) \<Longrightarrow> sort_key f xs = xs"
  by (induction xs) (simp_all add: insort_is_Cons)

lemma backlog_append:
  assumes "backlog t = []" "list_all is_pending rs" "sorted (map created_at rs)"
  shows "backlog (t @ rs) = rs"
proof -
  have "filter is_pending t = []"
    using assms(1) set_backlog [of t] by (auto simp: filter_empty_conv)
  then show ?thesis
    using assms(2,3) by (simp add: backlog_def sort_key_id list_all_iff)
qed

lemma rows_of_mails:
  assumes "list_all2 (row_of_mail S cfg) ms rs"
  shows "list_all is_pending rs" "map created_at rs = map (\<lambda>im. ins_now (fst im)) ms"
    "mapE (row_request S cfg) rs = Inr (map (\<lambda>im. mail_request cfg (snd im)) ms)"
    "list_all (\<lambda>im. ins_now (fst im) \<le> now) ms \<Longrightarrow> list_all (is_due now) rs" "length rs = length ms"
  using assms by (induction ms rs rule: list_all2_induct) (auto simp: row_of_mail_def is_due_def)

text \<open>
  C4. Seen from outside the gateway is a relay that keeps the order: the mails it answered with
  success, one after the other onto an empty backlog, are handed to the driver in that order,
  each exactly once and each with the sender, recipients, credentials and MIME bytes the client
  gave, whenever a worker drains the queue and the backend takes them; nothing is left waiting
  and every mail is SENT at its first attempt. The drain returns, and the breaker is closed.
\<close>

theorem gateway_relays_in_order:
  assumes "aead_law (snd_crypto S)" "list_all mail_ok ms"
    and "distinct_ids (mw_table w)" "count_pending (mw_table w) = 0"
    and "accept_mails (snd_crypto S) (snd_box S) L ms w = Some w1"
    and "sorted (map (\<lambda>im. ins_now (fst im)) ms)"
    and "list_all (\<lambda>tk. \<not> tk_stop tk \<and> tk_config tk = cfg \<and> list_all (\<lambda>im. ins_now (fst im) \<le> tk_select tk) ms) tks"
    and "length ms < length tks"
    and "br_state gate = CLOSED" "drv_configured (snd_driver S cfg) cfg"
    and "takes_all S cfg (map (\<lambda>im. mail_request cfg (snd im)) ms) (mw_out w)"
  shows "\<exists>gate' w'. drain S tks False (gate, w1) = (Some (Inr (ms \<noteq> [])), gate', w')
    \<and> mw_out w' = fold (\<lambda>req out. snd (hand_to_driver S cfg req out))
        (map (\<lambda>im. mail_request cfg (snd im)) ms) (mw_out w)
    \<and> count_pending (mw_table w') = 0 \<and> br_state gate' = CLOSED
    \<and> list_all (\<lambda>im. case get_message (mw_table w') (new_message_id (ins_uuid (fst im))) of
          None \<Rightarrow> False | Some r \<Rightarrow> row_status r = SENT \<and> attempts r = 1) ms"
proof -
  from accept_mails_rows [OF assms(1,2,5,3), of cfg] obtain rs where
    t1: "mw_table w1 = mw_table w @ rs" "mw_out w1 = mw_out w" "distinct_ids (mw_table w1)"
    and rows: "list_all2 (row_of_mail S cfg) ms rs" by blast
  note of = rows_of_mails [OF rows]
  have empty: "backlog t = [] \<longleftrightarrow> count_pending t = 0" for t
    by (metis backlog_def count_pending_def length_0_conv length_sort of_nat_eq_0_iff)
  have bl: "backlog (mw_table w1) = rs"
    unfolding t1(1) using empty assms(4,6) of(1,2) by (intro backlog_append) simp_all
  have turns: "list_all (turn_for cfg rs) tks"
    using assms(7) of(4) by (auto simp: list_all_iff [of _ tks] turn_for_def)
  from drain_relays [OF t1(3) assms(9,10), of "map (\<lambda>im. mail_request cfg (snd im)) ms" tks False]
  obtain gate' w' where run: "drain S tks False (gate, w1) = (Some (Inr (ms \<noteq> [])), gate', w')"
    "mw_out w' = relay S cfg (map (\<lambda>im. mail_request cfg (snd im)) ms) (mw_out w)" "br_state gate' = CLOSED"
    "backlog (mw_table w') = []" and dl: "all_delivered (mw_table w1) (mw_table w')"
    using bl of(3) turns assms(8,11) t1(2) by auto
  have "case get_message (mw_table w') (new_message_id (ins_uuid (fst im))) of
      None \<Rightarrow> False | Some r \<Rightarrow> row_status r = SENT \<and> attempts r = 1" if im: "im \<in> set ms" for im
  proof -
    from rows im obtain r where r: "r \<in> set rs" "row_of_mail S cfg im r"
      by (metis list_all2_conv_all_nth in_set_conv_nth)
    then have "get_message (mw_table w1) (row_id r) = Some r"
      using get_message_member [OF t1(3)] t1(1) by simp
    then have "became (Some r) (get_message (mw_table w') (row_id r))"
      using all_delivered_at [OF dl] by metis
    then show ?thesis
      using became_SomeD r(2) by (fastforce simp: row_of_mail_def delivered_row_def)
  qed
  then show ?thesis using run empty by (auto simp: relay_def list_all_iff)
qed

definition toy_mails :: "(insert_io \<times> new_message) list" where
  "toy_mails = [(toy_ins, toy_message_in),
     (toy_ins\<lparr>ins_uuid := lit ''fedcba9876543210'', ins_now := 6\<rparr>, toy_message_in\<lparr>nm_mime := [67]\<rparr>)]"

lemma toy_mails_accepted:
  "\<exists>w1. accept_mails toy_crypto \<lparr>box_key = []\<rparr> toy_lib toy_mails empty_world = Some w1"
proof -
  let ?b = "\<lambda>m. m\<lparr>nm_subject := or_empty (msg_subject (parse_mime toy_lib (nm_mime m)))\<rparr>"
  let ?i = "toy_ins\<lparr>ins_uuid := lit ''fedcba9876543210'', ins_now := 6\<rparr>"
  let ?m = "toy_message_in\<lparr>nm_mime := [67]\<rparr>"
  have b: "bindable (?b toy_message_in)" "bindable (?b ?m)"
    by (simp_all add: toy_message_in_def bindable_def toy_lib_def lit_def is_scalar_def)
  have "get_message (mw_table empty_world) (new_message_id (ins_uuid toy_ins)) = None" by simp
  from accept_fresh [OF toy_message_scalar(1) b(1) this] obtain x w1 row where
    one: "accept_smtp toy_crypto \<lparr>box_key = []\<rparr> toy_lib toy_ins toy_message_in empty_world = (Inr x, w1)"
    and t1: "mw_table w1 = [row]" by (metis append_Nil empty_world_table)
  have "row_id row = new_message_id (ins_uuid toy_ins)"
    using accepted_row_of_mail [of ok_sender toy_ins toy_message_in toy_lib empty_world x w1] one t1
    by (auto simp: mail_ok_def toy_ins_def row_of_mail_def)
  moreover have "new_message_id (ins_uuid toy_ins) \<noteq> new_message_id (ins_uuid ?i)"
    by (simp add: toy_ins_def new_message_id_def lit_def)
  ultimately have "get_message (mw_table w1) (new_message_id (ins_uuid ?i)) = None" by (simp add: t1)
  moreover have "list_all is_scalar (nm_password ?m)" by (simp add: lit_def is_scalar_def)
  ultimately obtain x2 w2 where "accept_smtp toy_crypto \<lparr>box_key = []\<rparr> toy_lib ?i ?m w1 = (Inr x2, w2)"
    using accept_fresh [OF _ b(2)] by blast
  then show ?thesis using one by (simp add: toy_mails_def)
qed

theorem gateway_relays_in_order_witness:
  "\<exists>w1 gate' w'. accept_mails toy_crypto \<lparr>box_key = []\<rparr> toy_lib toy_mails empty_world = Some w1
    \<and> drain ok_sender [toy_tick, toy_tick, toy_tick] False (fresh_breaker 5 60, w1) = (Some (Inr True), gate', w')
    \<and> map mime_bytes (mw_out w') = [[65, 66], [67]]"
proof -
  obtain w1 where acc: "accept_mails toy_crypto \<lparr>box_key = []\<rparr> toy_lib toy_mails empty_world = Some w1"
    using toy_mails_accepted by blast
  have m: "list_all mail_ok toy_mails" "sorted (map (\<lambda>im. ins_now (fst im)) toy_mails)"
    "list_all (\<lambda>tk. \<not> tk_stop tk \<and> tk_config tk = sample_config
      \<and> list_all (\<lambda>im. ins_now (fst im) \<le> tk_select tk) toy_mails) [toy_tick, toy_tick, toy_tick]"
    by (simp_all add: toy_mails_def mail_ok_def toy_ins_def toy_tick_def)
  have hand: "hand_to_driver ok_sender sample_config req out = (x, out') \<Longrightarrow> succeeded x \<and> out' = out @ [req]"
    for req out x out' by (auto simp: hand_to_driver_def mock_driver_def)
  have up: "takes_all ok_sender sample_config reqs out" for reqs out
    by (induction reqs arbitrary: out) (auto dest: hand split: prod.split)
  have e: "distinct_ids (mw_table empty_world)" "count_pending (mw_table empty_world) = 0"
    "mw_out empty_world = []" "toy_mails \<noteq> []" "length toy_mails < length [toy_tick, toy_tick, toy_tick]"
    by (simp_all add: empty_world_def distinct_ids_def ids_def count_pending_def toy_mails_def)
  have snd: "snd (hand_to_driver ok_sender sample_config req out) = out @ [req]" for req out
    by (simp add: hand_to_driver_def mock_driver_def)
  have g: "br_state (fresh_breaker 5 60) = CLOSED" "drv_configured (snd_driver ok_sender sample_config) sample_config"
    by (simp_all add: fresh_breaker_def mock_driver_def)
  from gateway_relays_in_order [of ok_sender toy_mails empty_world toy_lib w1 sample_config
      "[toy_tick, toy_tick, toy_tick]" "fresh_breaker 5 60"] acc m e(1,2,4,5) g up
  obtain gate' w' where run: "drain ok_sender [toy_tick, toy_tick, toy_tick] False (fresh_breaker 5 60, w1)
      = (Some (Inr True), gate', w')"
    and out: "mw_out w' = fold (\<lambda>req out. snd (hand_to_driver ok_sender sample_config req out))
      (map (\<lambda>im. mail_request sample_config (snd im)) toy_mails) (mw_out empty_world)" by auto
  have "map mime_bytes (mw_out w') = [[65, 66], [67]]"
    unfolding out by (simp add: snd e(3) toy_mails_def mail_request_def)
  then show ?thesis using acc run by (intro exI conjI)
qed

subsection \<open>While the backend refuses\<close>

definition total_attempts :: "table \<Rightarrow> int" where
  "total_attempts t = sum_list (map attempts t)"

lemma total_attempts_changed:
  assumes d: "distinct_ids t" and ch: "row_changed t r' t'" and old: "get_message t (row_id r') = Some r"
  shows "total_attempts t' = total_attempts t + (attempts r' - attempts r)"
proof -
  have "total_attempts (map (\<lambda>x. if row_id x = row_id r' then r' else x) t)
      = total_attempts t + (case get_message t (row_id r') of None \<Rightarrow> 0 | Some r \<Rightarrow> attempts r' - attempts r)"
    using d
  proof (induction t)
    case (Cons a t)
    have tail: "distinct_ids t" "row_id a \<notin> set (ids t)" using Cons.prems by (simp_all add: distinct_ids_def ids_def)
    show ?case
    proof (cases "row_id a = row_id r'")
      case True
      then have "get_message t (row_id r') = None" using tail(2) get_message_None_iff by metis
      then show ?thesis using Cons.IH [OF tail(1)] True by (simp add: total_attempts_def)
    qed (use Cons.IH [OF tail(1)] in \<open>simp add: total_attempts_def\<close>)
  qed (simp add: total_attempts_def)
  then show ?thesis using row_changed_map [OF d ch] old by simp
qed

text \<open>No hand-over to the driver succeeds.\<close>

definition backend_down :: "'w sender \<Rightarrow> bool" where
  "backend_down S \<longleftrightarrow> (\<forall>cfg req out. \<not> succeeded (fst (hand_to_driver S cfg req out)))"

lemma process_row_down:
  assumes "backend_down S" "process_row S cfg True now ts row w = (Inr y, w')"
    and "get_message (mw_table w) (row_id row) = Some row"
  shows "\<exists>r'. get_message (mw_table w') (row_id row) = Some r' \<and> row_status r' \<in> {FAILED, RETRYING}"
proof (cases "drv_configured (snd_driver S cfg) cfg")
  case True
  note b = begin_claimed [OF True, of now row w]
  show ?thesis
  proof (cases "row_request S cfg row")
    case (Inl e)
    then show ?thesis using assms(2) b by (simp add: process_row_def deliver_def)
  next
    case (Inr req)
    obtain r out where sent: "hand_to_driver S cfg req (mw_out w) = (r, out)" by fastforce
    then have "\<not> succeeded r" using assms(1) unfolding backend_down_def by (metis fst_conv)
    then have "row_status (outcome now r row) \<in> {FAILED, RETRYING}"
      by (auto simp: outcome_status succeeded_def split: sum.splits)
    moreover have "settle now ts row r (w\<lparr>mw_out := out\<rparr>) = (Inr y, w')"
      using assms(2) b Inr sent by (simp add: process_row_def deliver_def)
    ultimately show ?thesis
      using settle_changes(1) [of now ts row r "w\<lparr>mw_out := out\<rparr>"] assms(3) by (auto simp: row_changed_get)
  qed
next
  case False
  then show ?thesis
    using assms(2,3) begin_unconfigured [OF False]
    by (auto simp: process_row_def on_table_def mark_failed_def get_message_update)
qed

lemma drain_step_down:
  assumes down: "backend_down S" and closed: "br_state gate = CLOSED" and ok: "table_ok (mw_table w)"
    and run: "drain_step S tk (gate, w) = (Worked, gate', w')"
  shows "gate' = record_failure (tk_record tk) gate"
proof -
  from run allow_closed [OF closed, of "tk_allow tk"] obtain row t1 y w2 where
    cl: "claim_next (tk_select tk) (tk_claim tk) (mw_table w) = (Some row, t1)"
    and pr: "process_row S (tk_config tk) True (tk_now tk) (tk_ts tk) row
        (on_metrics inc_in_flight (w\<lparr>mw_table := t1\<rparr>)) = (Inr y, w2)"
    and gate': "gate' = record_outcome (tk_record tk) (row_id row) (mw_table w2) gate"
    by (auto simp: drain_step_def Let_def split: if_splits prod.splits option.splits sum.splits)
  have "distinct_ids (mw_table w)" using ok by (simp add: table_ok_def)
  from claim_next_effect [OF this cl] have "row_changed (mw_table w) row t1" by auto
  then have "get_message t1 (row_id row) = Some row" by (simp add: row_changed_get)
  with process_row_down [OF down pr] obtain r' where
    "get_message (mw_table w2) (row_id row) = Some r'" "row_status r' \<in> {FAILED, RETRYING}" by auto
  then show ?thesis using gate' by (auto simp: record_outcome_def)
qed

lemma drain_step_attempts:
  assumes run: "drain_step S tk (gate, w) = (k, gate', w')" and ok: "table_ok (mw_table w)"
  shows "total_attempts (mw_table w') = total_attempts (mw_table w)
    + (case k of Worked \<Rightarrow> 1 | Raised e \<Rightarrow> 1 | _ \<Rightarrow> 0)"
proof -
  have d: "distinct_ids (mw_table w)" using ok by (simp add: table_ok_def)
  note tab = drain_step_table [OF run ok]
  show ?thesis
  proof (cases k)
    case Worked
    with tab obtain r r' where "get_message (mw_table w) (row_id r') = Some r"
      "row_changed (mw_table w) r' (mw_table w')" "attempts r' = attempts r + 1" by auto
    then show ?thesis using total_attempts_changed [OF d] Worked by simp
  next
    case (Raised e)
    with tab obtain r where "get_message (mw_table w) (row_id (claimed (tk_claim tk) r)) = Some r"
      "row_changed (mw_table w) (claimed (tk_claim tk) r) (mw_table w')" by auto
    then show ?thesis using total_attempts_changed [OF d] Raised by fastforce
  qed (use tab in simp_all)
qed

text \<open>The cool-down outlasts the drain.\<close>

definition within_cooldown :: "secs \<Rightarrow> tick list \<Rightarrow> bool" where
  "within_cooldown cd tks \<longleftrightarrow> list_all (\<lambda>tk. list_all (\<lambda>tk'. tk_allow tk' - tk_record tk < cd) tks) tks"

lemma drain_open:
  assumes "br_state gate = OPEN" "tk_allow tk - br_opened_at gate < cooldown_seconds gate"
  shows "drain S (tk # tks) d (gate, w) = (Some (Inr d), gate, w)"
  using assms by (simp add: drain_step_def allow_def maybe_half_open_def)

lemma drain_down:
  assumes "backend_down S" "table_ok (mw_table w)" "br_state gate = CLOSED"
    and "br_failures gate < failure_threshold gate" "within_cooldown (cooldown_seconds gate) tks"
    and "nat (failure_threshold gate - br_failures gate) < length tks"
  shows "\<exists>r gate' w'. drain S tks d (gate, w) = (Some r, gate', w')
    \<and> total_attempts (mw_table w') \<le> total_attempts (mw_table w)
        + (failure_threshold gate - br_failures gate) + (case r of Inl _ \<Rightarrow> 1 | Inr _ \<Rightarrow> 0)"
  using assms(2-)
proof (induction tks arbitrary: d gate w)
  case (Cons tk tks)
  obtain k gate1 w1 where st: "drain_step S tk (gate, w) = (k, gate1, w1)" by (metis prod_cases3)
  note att = drain_step_attempts [OF st Cons.prems(1)]
  show ?case
  proof (cases k)
    case Worked
    with st have run: "drain_step S tk (gate, w) = (Worked, gate1, w1)" by simp
    note gate1 = drain_step_down [OF assms(1) Cons.prems(2,1) run]
    have att1: "total_attempts (mw_table w1) = total_attempts (mw_table w) + 1" using att Worked by simp
    show ?thesis
    proof (cases "failure_threshold gate \<le> br_failures gate + 1")
      case True
      then have opened: "br_state gate1 = OPEN" "br_opened_at gate1 = tk_record tk"
        "cooldown_seconds gate1 = cooldown_seconds gate" by (simp_all add: gate1 record_failure_def)
      obtain tk2 tks2 where tks: "tks = tk2 # tks2"
        using Cons.prems(3,5) by (cases tks) auto
      then have "tk_allow tk2 - br_opened_at gate1 < cooldown_seconds gate1"
        using Cons.prems(4) opened by (simp add: within_cooldown_def)
      then have "drain S (tk # tks) d (gate, w) = (Some (Inr True), gate1, w1)"
        using drain_open [OF opened(1)] run by (simp add: tks)
      then show ?thesis using att1 Cons.prems(3) by simp
    next
      case False
      then have g: "br_state gate1 = CLOSED" "br_failures gate1 = br_failures gate + 1"
        "failure_threshold gate1 = failure_threshold gate" "cooldown_seconds gate1 = cooldown_seconds gate"
        using Cons.prems(2) by (simp_all add: gate1 record_failure_def)
      have "within_cooldown (cooldown_seconds gate1) tks"
        using Cons.prems(4) g(4) by (simp add: within_cooldown_def list_all_iff)
      moreover have "nat (failure_threshold gate1 - br_failures gate1) < length tks"
        using Cons.prems(3,5) False unfolding g(2,3) by simp
      ultimately
      obtain r gate' w' where "drain S tks True (gate1, w1) = (Some r, gate', w')"
        "total_attempts (mw_table w') \<le> total_attempts (mw_table w1)
          + (failure_threshold gate1 - br_failures gate1) + (case r of Inl _ \<Rightarrow> 1 | Inr _ \<Rightarrow> 0)"
        using Cons.IH [OF drain_step_keeps [OF run Cons.prems(1)] g(1), of True] False g(2,3) by auto
      then show ?thesis using run att1 g(2,3) by simp
    qed
  qed (use st att Cons.prems(3) in auto)
qed simp



end
