(* ===== verification/Smtp_Auth.thy ===== *)
theory Smtp_Auth
  imports Queue_Service Kv_Store
begin

section \<open>SMTP AUTH (auth/sanitize.py, smtp/authenticator.py)\<close>

text \<open>
  \<open>sanitize_username\<close> turns the identity of an SMTP client into an Exchange user name. The
  authenticator keeps what a peer presented under the peer's address, with no session in the
  key and no check against Exchange; it interprets \<open>kv_store_del\<close>. Log lines are left out.
\<close>

record sanitized_auth =
  sa_raw :: pystr
  sa_username :: pystr
  sa_domain :: "pystr option"
  sa_ews_username :: pystr

text \<open>\<open>repr\<close> of a string, with the characters that are escaped up to Latin-1 and the surrogates.\<close>

definition repr_char :: "int \<Rightarrow> int \<Rightarrow> pystr" where
  "repr_char q c =
     (if c = q \<or> c = 92 then [92, c] else if c = 9 then [92, 116] else if c = 10 then [92, 110]
      else if c = 13 then [92, 114]
      else if c < 32 \<or> 127 \<le> c \<and> c \<le> 160 \<or> c = 173
      then [92, 120, hex_digit (c div 16), hex_digit (c mod 16)]
      else if 55296 \<le> c \<and> c < 57344 then [92, 117] @ hex4 c else [c])"

definition py_repr :: "pystr \<Rightarrow> pystr" where
  "py_repr s = (let q = (if 39 \<in> set s \<and> 34 \<notin> set s then 34 else 39)
     in q # concat (map (repr_char q) s) @ [q])"

definition down_level :: "pystr \<Rightarrow> pystr \<Rightarrow> pystr" where
  "down_level domain user = domain @ 92 # user"

text \<open>One round of the loop over the two separators.\<close>

definition try_separator :: "pystr \<Rightarrow> pystr \<Rightarrow> int \<Rightarrow> sanitized_auth option" where
  "try_separator raw v sep =
     (if sep \<in> set v \<and> 64 \<notin> set v
      then (case partition_at sep v of (d, _, u) \<Rightarrow>
        let domain = strip d; user = strip u
        in if domain \<noteq> [] \<and> user \<noteq> [] \<and> 92 \<notin> set user \<and> 47 \<notin> set user
           then Some \<lparr>sa_raw = raw, sa_username = user, sa_domain = Some domain,
                  sa_ews_username = down_level domain user\<rparr>
           else None)
      else None)"

definition sanitize_username :: "pystr \<Rightarrow> pystr option \<Rightarrow> sanitized_auth res" where
  "sanitize_username raw default_domain =
     (let v = strip raw
      in if v = [] then Inl (Exn ValueError (lit ''empty username''))
         else (case (try_separator raw v 92, try_separator raw v 47) of
             (Some a, _) \<Rightarrow> Inr a
           | (None, Some a) \<Rightarrow> Inr a
           | (None, None) \<Rightarrow>
               if 64 \<in> set v
               then (case partition_at 64 v of (u, _, d) \<Rightarrow>
                 let user = strip u; domain = strip d
                 in if user = [] \<or> domain = []
                    then Inl (Exn ValueError (lit ''invalid UPN username: '' @ py_repr raw))
                    else Inr \<lparr>sa_raw = raw, sa_username = user, sa_domain = Some domain,
                           sa_ews_username = v\<rparr>)
               else if truthy default_domain
               then Inr \<lparr>sa_raw = raw, sa_username = v, sa_domain = default_domain,
                      sa_ews_username = down_level (or_empty default_domain) v\<rparr>
               else Inr \<lparr>sa_raw = raw, sa_username = v, sa_domain = None, sa_ews_username = v\<rparr>))"

subsection \<open>The authenticator\<close>

record session_auth =
  sess_sanitized :: sanitized_auth
  sess_password :: pystr

record authenticator =
  au_default_domain :: "pystr option"
  au_by_peer :: "session_auth dict"

definition new_authenticator :: "pystr option \<Rightarrow> authenticator" where
  "new_authenticator domain = \<lparr>au_default_domain = domain, au_by_peer = []\<rparr>"

definition remember :: "pystr \<Rightarrow> session_auth \<Rightarrow> authenticator \<Rightarrow> authenticator" where
  "remember peer a au = au\<lparr>au_by_peer := AList.update peer a (au_by_peer au)\<rparr>"

definition get_auth :: "authenticator \<Rightarrow> pystr \<Rightarrow> session_auth option" where
  "get_auth au peer = map_of (au_by_peer au) peer"

definition clear_auth :: "pystr \<Rightarrow> authenticator \<Rightarrow> authenticator" where
  "clear_auth peer au = au\<lparr>au_by_peer := AList.delete peer (au_by_peer au)\<rparr>"

interpretation peers: kv_store_del get_auth remember clear_auth
  by unfold_locales (auto simp: get_auth_def remember_def clear_auth_def)

text \<open>\<open>None\<close> as the login is an \<open>auth_data\<close> that is no \<open>LoginPassword\<close>.\<close>

definition authenticate ::
    "pystr \<Rightarrow> pystr option \<Rightarrow> (bytes \<times> bytes) option \<Rightarrow> pystr \<Rightarrow> authenticator \<times> 'w mail_world
      \<Rightarrow> bool \<times> authenticator \<times> 'w mail_world" where
  "authenticate peer mechanism login ts st =
     (case st of (au, w) \<Rightarrow>
       let mech = upper (or_empty mechanism)
       in if mech \<notin> {lit ''PLAIN'', lit ''LOGIN''}
          then (False, au, publish (lit ''auth.fail'')
             (lit ''Unsupported '' @ (case mechanism of None \<Rightarrow> lit ''None'' | Some m \<Rightarrow> m))
             [(lit ''peer'', JStr peer)] ts w)
          else (case login of
              None \<Rightarrow> (False, au, w)
            | Some (l, p) \<Rightarrow>
                let raw = utf8_decode_replace l; password = utf8_decode_replace p
                in (case sanitize_username raw (au_default_domain au) of
                    Inl e \<Rightarrow> (False, au, publish (lit ''auth.fail'') (exn_text e)
                       [(lit ''peer'', JStr peer), (lit ''raw'', JStr raw)] ts w)
                  | Inr a \<Rightarrow>
                      (True, remember peer \<lparr>sess_sanitized = a, sess_password = password\<rparr> au,
                       publish (lit ''auth.ok'')
                         (lit ''AUTH '' @ mech @ lit '' '' @ sa_raw a @ lit '' '' @ arrow @ lit '' ''
                           @ sa_ews_username a)
                         [(lit ''peer'', JStr peer), (lit ''raw'', JStr (sa_raw a)),
                          (lit ''ews_user'', JStr (sa_ews_username a))] ts w))))"

subsection \<open>What the sanitizer accepts\<close>

text \<open>A part of a name: not empty, not padded, and without the three separators.\<close>

definition plain_part :: "pystr \<Rightarrow> bool" where
  "plain_part s \<longleftrightarrow> s \<noteq> [] \<and> \<not> is_space (hd s) \<and> \<not> is_space (last s) \<and> set s \<inter> {64, 92, 47} = {}"

lemma plain_partD:
  assumes "plain_part s"
  shows "s \<noteq> []" "strip s = s" "64 \<notin> set s" "92 \<notin> set s" "47 \<notin> set s" "\<not> is_space (hd s)" "\<not> is_space (last s)"
  using assms strip_id [of s] by (auto simp: plain_part_def)

lemma strip_joined: "plain_part d \<Longrightarrow> plain_part u \<Longrightarrow> strip (d @ c # u) = d @ c # u"
  by (rule strip_id) (simp add: plain_partD)

lemma try_joined:
  assumes "plain_part d" "plain_part u" "c \<in> {92, 47}"
  shows "try_separator raw (d @ c # u) c = Some \<lparr>sa_raw = raw, sa_username = u, sa_domain = Some d,
    sa_ews_username = down_level d u\<rparr>"
  using assms plain_partD [OF assms(1)] plain_partD [OF assms(2)]
  by (auto simp: try_separator_def partition_at_append Let_def)

lemma try_absent: "c \<notin> set v \<or> 64 \<in> set v \<Longrightarrow> try_separator raw v c = None"
  by (auto simp: try_separator_def)

lemma sanitize_joined:
  assumes "plain_part d" "plain_part u" "c \<in> {92, 47}"
  shows "sanitize_username (d @ c # u) dd = Inr \<lparr>sa_raw = d @ c # u, sa_username = u, sa_domain = Some d,
    sa_ews_username = down_level d u\<rparr>"
proof -
  note d = plain_partD [OF assms(1)] and u = plain_partD [OF assms(2)]
  show ?thesis
  proof (cases "c = 92")
    case True
    then show ?thesis
      using strip_joined [OF assms(1,2), of c] try_joined [OF assms(1,2), of 92 "d @ c # u"]
      by (simp add: sanitize_username_def Let_def)
  next
    case False
    then have c: "c = 47" using assms(3) by simp
    have "try_separator (d @ c # u) (d @ c # u) 92 = None" using c d u by (intro try_absent) simp
    then show ?thesis
      using strip_joined [OF assms(1,2), of c] try_joined [OF assms(1,2), of 47 "d @ c # u"] c
      by (simp add: sanitize_username_def Let_def)
  qed
qed

lemma sanitize_upn:
  assumes "plain_part u" "plain_part d"
  shows "sanitize_username (u @ 64 # d) dd = Inr \<lparr>sa_raw = u @ 64 # d, sa_username = u, sa_domain = Some d,
    sa_ews_username = u @ 64 # d\<rparr>"
  using strip_joined [OF assms, of 64] plain_partD [OF assms(1)] plain_partD [OF assms(2)]
  by (simp add: sanitize_username_def Let_def try_absent partition_at_append)

lemma sanitize_plain:
  assumes "plain_part u"
  shows "sanitize_username u dd = Inr (if truthy dd
    then \<lparr>sa_raw = u, sa_username = u, sa_domain = dd, sa_ews_username = down_level (or_empty dd) u\<rparr>
    else \<lparr>sa_raw = u, sa_username = u, sa_domain = None, sa_ews_username = u\<rparr>)"
  using plain_partD [OF assms] by (simp add: sanitize_username_def Let_def try_absent)

text \<open>
  The spellings of one account agree: \<open>DOMAIN\user\<close>, \<open>DOMAIN/user\<close> and, with the default
  domain DOMAIN, the plain \<open>user\<close> give the same user, domain and Exchange name \<open>DOMAIN\user\<close>;
  \<open>user@domain\<close> keeps its own name; and sanitizing the Exchange name again changes nothing.
\<close>

lemma sanitize_spellings_agree:
  assumes "plain_part d" "plain_part u"
  shows "let result = (\<lambda>raw ews. Inr \<lparr>sa_raw = raw, sa_username = u, sa_domain = Some d, sa_ews_username = ews\<rparr>);
             name = d @ 92 # u
         in sanitize_username name dd = result name name
          \<and> sanitize_username (d @ 47 # u) dd = result (d @ 47 # u) name
          \<and> sanitize_username u (Some d) = result u name
          \<and> sanitize_username (u @ 64 # d) dd = result (u @ 64 # d) (u @ 64 # d)"
  using sanitize_joined [OF assms, of 92 dd] sanitize_joined [OF assms, of 47 dd]
    sanitize_plain [OF assms(2), of "Some d"] sanitize_upn [OF assms(2,1), of dd] plain_partD(1) [OF assms(1)]
  by (simp add: Let_def down_level_def)

lemma sanitize_spellings_agree_witness:
  "sanitize_username (lit ''CORP/ann'') None = Inr \<lparr>sa_raw = lit ''CORP/ann'', sa_username = lit ''ann'',
     sa_domain = Some (lit ''CORP''), sa_ews_username = lit ''CORP'' @ 92 # lit ''ann''\<rparr>"
proof -
  have "plain_part (lit ''CORP'')" "plain_part (lit ''ann'')"
    by (simp_all add: plain_part_def lit_def is_space_def)
  from sanitize_spellings_agree [OF this, of None] show ?thesis
    by (simp add: Let_def) (simp add: lit_def)
qed

text \<open>The only inputs that are refused.\<close>

lemma sanitize_refuses:
  "(\<exists>e. sanitize_username raw dd = Inl e) \<longleftrightarrow> strip raw = []
     \<or> 64 \<in> set (strip raw) \<and> (case partition_at 64 (strip raw) of (u, _, d) \<Rightarrow> strip u = [] \<or> strip d = [])"
  by (auto simp: sanitize_username_def Let_def try_separator_def split: option.splits prod.splits)

end
