(* ===== verification/Ip_Access.thy ===== *)
theory Ip_Access
  imports Json_Text
begin

section \<open>The IP allowlist (smtp/access.py)\<close>

text \<open>
  \<open>ip_allowed\<close> and what it takes from Python's \<open>ipaddress\<close>: the parsers of addresses and of
  networks (\<open>strict=False\<close>), equality and membership, with addresses as words of their width.
  A parser that raises an \<open>AddressValueError\<close> or \<open>NetmaskValueError\<close> gives \<open>None\<close>; all the
  code sees of them is the \<open>ValueError\<close> they are.
\<close>

unbundle bit_operations_syntax

subsection \<open>Addresses\<close>

definition parse_octet :: "pystr \<Rightarrow> int option" where
  "parse_octet s =
     (if s = [] \<or> \<not> list_all is_digit s \<or> 3 < length s \<or> s \<noteq> [48] \<and> hd s = 48
         \<or> 255 < digits_value s
      then None else Some (digits_value s))"

definition bytes_to_int :: "int list \<Rightarrow> int" where
  "bytes_to_int bs = foldl (\<lambda>v b. 256 * v + b) 0 bs"

definition v4_from_string :: "pystr \<Rightarrow> 32 word option" where
  "v4_from_string s =
     (let octets = split_at 46 s
      in if length octets \<noteq> 4 then None
         else (case those (map parse_octet octets) of
             None \<Rightarrow> None | Some bs \<Rightarrow> Some (word_of_int (bytes_to_int bs))))"

definition v4_address :: "pystr \<Rightarrow> 32 word option" where
  "v4_address s = (if 47 \<in> set s then None else v4_from_string s)"

definition parse_hextet :: "pystr \<Rightarrow> int option" where
  "parse_hextet s =
     (if s = [] \<or> 4 < length s then None
      else (case those (map hex_value s) of
          None \<Rightarrow> None | Some ds \<Rightarrow> Some (foldl (\<lambda>v d. 16 * v + d) 0 ds)))"

definition hextets :: "128 word \<Rightarrow> pystr list \<Rightarrow> 128 word option" where
  "hextets ip parts =
     (case those (map parse_hextet parts) of
        None \<Rightarrow> None
      | Some hs \<Rightarrow> Some (foldl (\<lambda>v h. push_bit 16 v OR word_of_int h) ip hs))"

text \<open>\<open>'%x' % n\<close>\<close>

fun hex_text :: "nat \<Rightarrow> pystr" where
  "hex_text n = (if n < 16 then [hex_digit (int n)] else hex_text (n div 16) @ [hex_digit (int (n mod 16))])"

declare hex_text.simps [simp del]

text \<open>An IPv4 suffix is replaced by two hexadecimal parts.\<close>

definition v6_parts :: "pystr \<Rightarrow> pystr list option" where
  "v6_parts s =
     (let parts = split_at 58 s
      in if length parts < 3 then None
         else if 46 \<in> set (last parts)
         then (case v4_address (last parts) of
             None \<Rightarrow> None
           | Some w \<Rightarrow> Some (butlast parts @ [hex_text (unat w div 65536), hex_text (unat w mod 65536)]))
         else Some parts)"

definition v6_from_parts :: "pystr list \<Rightarrow> 128 word option" where
  "v6_from_parts parts =
     (let n = length parts;
          skips = filter (\<lambda>i. parts ! i = []) [1 ..< n - 1]
      in if 9 < n \<or> 1 < length skips then None
         else (case skips of
             [] \<Rightarrow> if n = 8 then hextets 0 parts else None
           | k # _ \<Rightarrow>
               (let hi = (if hd parts = [] then k - 1 else k);
                    lo = (if last parts = [] then n - k - 2 else n - k - 1)
                in if hd parts = [] \<and> hi \<noteq> 0 \<or> last parts = [] \<and> lo \<noteq> 0 \<or> 8 < hi + lo + 1 then None
                   else (case hextets 0 (take hi parts) of
                       None \<Rightarrow> None
                     | Some ip \<Rightarrow> hextets (push_bit (16 * (8 - (hi + lo))) ip) (drop (n - lo) parts)))))"

definition v6_from_string :: "pystr \<Rightarrow> 128 word option" where
  "v6_from_string s = (case v6_parts s of None \<Rightarrow> None | Some parts \<Rightarrow> v6_from_parts parts)"

definition split_scope_id :: "pystr \<Rightarrow> (pystr \<times> pystr option) option" where
  "split_scope_id s =
     (case partition_at 37 s of (a, sep, scope) \<Rightarrow>
        if \<not> sep then Some (a, None)
        else if scope = [] \<or> 37 \<in> set scope then None else Some (a, Some scope))"

definition v6_address :: "pystr \<Rightarrow> (128 word \<times> pystr option) option" where
  "v6_address s =
     (if 47 \<in> set s then None
      else (case split_scope_id s of
          None \<Rightarrow> None
        | Some (a, scope) \<Rightarrow> map_option (\<lambda>w. (w, scope)) (v6_from_string a)))"

datatype ip_addr = V4 "32 word" | V6 "128 word \<times> pystr option"

definition ip_address :: "pystr \<Rightarrow> ip_addr option" where
  "ip_address s = (case v4_address s of
     Some w \<Rightarrow> Some (V4 w) | None \<Rightarrow> map_option V6 (v6_address s))"

subsection \<open>Networks\<close>

definition netmask :: "nat \<Rightarrow> 'a::len word" where
  "netmask p = (- 1) XOR drop_bit p (- 1)"

definition trailing_zeroes :: "32 word \<Rightarrow> nat" where
  "trailing_zeroes w = length (takeWhile (\<lambda>i. \<not> bit w i) [0 ..< 32])"

definition prefix_from_ip_int :: "32 word \<Rightarrow> nat option" where
  "prefix_from_ip_int w =
     (let tz = trailing_zeroes w; p = 32 - tz
      in if drop_bit tz w = mask p then Some p else None)"

definition prefix_from_string :: "nat \<Rightarrow> pystr \<Rightarrow> nat option" where
  "prefix_from_string maximum s =
     (if s = [] \<or> \<not> list_all is_digit s \<or> int maximum < digits_value s then None
      else Some (nat (digits_value s)))"

definition v4_prefix :: "pystr \<Rightarrow> nat option" where
  "v4_prefix s =
     (case prefix_from_string 32 s of
        Some p \<Rightarrow> Some p
      | None \<Rightarrow> (case v4_from_string s of
          None \<Rightarrow> None
        | Some w \<Rightarrow> (case prefix_from_ip_int w of
            Some p \<Rightarrow> Some p | None \<Rightarrow> prefix_from_ip_int (NOT w))))"

datatype ip_net = Net4 "32 word" nat | Net6 "128 word" nat

definition v4_network :: "pystr \<Rightarrow> pystr option \<Rightarrow> ip_net option" where
  "v4_network a m =
     (case (v4_address a, case m of None \<Rightarrow> Some 32 | Some s \<Rightarrow> v4_prefix s) of
        (Some w, Some p) \<Rightarrow> Some (Net4 (w AND netmask p) p) | _ \<Rightarrow> None)"

definition v6_network :: "pystr \<Rightarrow> pystr option \<Rightarrow> ip_net option" where
  "v6_network a m =
     (case (v6_address a, case m of None \<Rightarrow> Some 128 | Some s \<Rightarrow> prefix_from_string 128 s) of
        (Some (w, _), Some p) \<Rightarrow> Some (Net6 (w AND netmask p) p) | _ \<Rightarrow> None)"

definition ip_network :: "pystr \<Rightarrow> ip_net option" where
  "ip_network s =
     (case split_at 47 s of
        [a] \<Rightarrow> (case v4_network a None of Some n \<Rightarrow> Some n | None \<Rightarrow> v6_network a None)
      | [a, m] \<Rightarrow> (case v4_network a (Some m) of Some n \<Rightarrow> Some n | None \<Rightarrow> v6_network a (Some m))
      | _ \<Rightarrow> None)"

fun in_network :: "ip_addr \<Rightarrow> ip_net \<Rightarrow> bool" where
  "in_network (V4 w) (Net4 n p) = (w AND netmask p = n)"
| "in_network (V6 (w, _)) (Net6 n p) = (w AND netmask p = n)"
| "in_network _ _ = False"

subsection \<open>The allowlist\<close>

definition entry_matches :: "ip_addr \<Rightarrow> pystr \<Rightarrow> bool" where
  "entry_matches addr entry =
     (let e = strip entry
      in if e = [] then False
         else if 47 \<in> set e
         then (case ip_network e of None \<Rightarrow> False | Some n \<Rightarrow> in_network addr n)
         else (case ip_address e of None \<Rightarrow> False | Some a \<Rightarrow> addr = a))"

definition ip_allowed :: "pystr \<Rightarrow> pystr list \<Rightarrow> bool" where
  "ip_allowed client_ip allowed =
     (case ip_address client_ip of None \<Rightarrow> False | Some addr \<Rightarrow> list_ex (entry_matches addr) allowed)"

subsection \<open>Dotted addresses are read back\<close>

text \<open>\<open>str(IPv4Address)\<close>\<close>

definition octets_of :: "32 word \<Rightarrow> nat list" where
  "octets_of w = [unat w div 16777216, unat w div 65536 mod 256, unat w div 256 mod 256, unat w mod 256]"

definition dotted :: "32 word \<Rightarrow> pystr" where
  "dotted w = join_with [46] (map digits (octets_of w))"

lemma digit_not: "c \<in> set (digits n) \<Longrightarrow> 48 \<le> c \<and> c \<le> 57"
  using digits_are_digits [of c n] by (simp add: is_digit_def)

lemma length_digits: "n < 10 ^ k \<Longrightarrow> 0 < k \<Longrightarrow> length (digits n) \<le> k"
proof (induction k arbitrary: n)
  case (Suc k)
  show ?case
  proof (cases "n < 10")
    case False
    then have "0 < k" using Suc.prems by (cases k) auto
    moreover have "n div 10 < 10 ^ k" using Suc.prems by (simp add: less_mult_imp_div_less mult.commute)
    ultimately show ?thesis using Suc.IH [of "n div 10"] False by (simp add: digits.simps [of n])
  qed (simp add: digits.simps [of n])
qed simp

lemma parse_octet_digits: "n < 256 \<Longrightarrow> parse_octet (digits n) = Some (int n)"
  using length_digits [of n 3] digits_are_digits [of _ n] hd_digits [of n]
  by (auto simp: parse_octet_def list_all_iff digits.simps [of 0])

lemma octets_small: "b \<in> set (octets_of w) \<Longrightarrow> b < 256"
proof -
  have "unat w < 2 ^ LENGTH(32)" by (rule unsigned_less)
  then show "b \<in> set (octets_of w) \<Longrightarrow> b < 256" by (auto simp: octets_of_def)
qed

lemma octets_value: "bytes_to_int (map int (octets_of w)) = uint w"
proof -
  have sum: "256 * (256 * (256 * (n div 16777216) + n div 65536 mod 256) + n div 256 mod 256) + n mod 256 = n"
    for n :: nat
  proof -
    have "n div 65536 = 256 * (n div 16777216) + n div 65536 mod 256"
      using mult_div_mod_eq [of 256 "n div 65536"] by (simp add: div_mult2_eq [symmetric])
    moreover have "n div 256 = 256 * (n div 65536) + n div 256 mod 256"
      using mult_div_mod_eq [of 256 "n div 256"] by (simp add: div_mult2_eq [symmetric])
    ultimately show ?thesis using mult_div_mod_eq [of 256 n] by simp
  qed
  let ?n = "unat w"
  have "bytes_to_int (map int (octets_of w)) =
      int (256 * (256 * (256 * (?n div 16777216) + ?n div 65536 mod 256) + ?n div 256 mod 256) + ?n mod 256)"
    unfolding bytes_to_int_def octets_of_def list.map foldl_Cons foldl_Nil of_nat_add of_nat_mult by simp
  then show ?thesis unfolding sum by simp
qed

lemma dotted_back: "v4_address (dotted w) = Some w"
proof -
  have no: "c \<notin> set (digits n)" if "c < 48" for c n using digit_not [of c n] that by auto
  have "split_at 46 (dotted w) = map digits (octets_of w)"
    unfolding dotted_def by (rule split_at_join) (simp_all add: octets_of_def no)
  moreover have "map parse_octet (map digits (octets_of w)) = map Some (map int (octets_of w))"
    using octets_small parse_octet_digits by simp
  moreover have "those (map Some xs) = Some xs" for xs :: "int list" by (induction xs) simp_all
  ultimately have "v4_from_string (dotted w) = Some (word_of_int (uint w))"
    by (simp only: v4_from_string_def Let_def octets_value option.case length_map)
      (simp add: octets_of_def)
  moreover have "47 \<notin> set (dotted w)" by (simp add: dotted_def octets_of_def no)
  ultimately show ?thesis by (simp add: v4_address_def)
qed

subsection \<open>Masks\<close>

lemma bit_netmask: "bit (netmask p :: 'a::len word) n \<longleftrightarrow> n < LENGTH('a) \<and> LENGTH('a) \<le> n + p"
  by (auto simp: netmask_def bit_simps)

text \<open>Two addresses agree under the mask when they agree in the first \<open>p\<close> bits.\<close>

lemma netmask_agree:
  fixes v w :: "'a::len word"
  assumes "p \<le> LENGTH('a)"
  shows "v AND netmask p = w AND netmask p \<longleftrightarrow> drop_bit (LENGTH('a) - p) v = drop_bit (LENGTH('a) - p) w"
proof
  assume l: "v AND netmask p = w AND netmask p"
  show "drop_bit (LENGTH('a) - p) v = drop_bit (LENGTH('a) - p) w"
  proof (rule bit_word_eqI)
    fix n assume "n < LENGTH('a)"
    have "bit (v AND netmask p) (LENGTH('a) - p + n) = bit (w AND netmask p) (LENGTH('a) - p + n)"
      by (simp only: l)
    then show "bit (drop_bit (LENGTH('a) - p) v) n = bit (drop_bit (LENGTH('a) - p) w) n"
      using assms bit_imp_le_length by (auto simp: bit_simps bit_netmask)
  qed
next
  assume r: "drop_bit (LENGTH('a) - p) v = drop_bit (LENGTH('a) - p) w"
  show "v AND netmask p = w AND netmask p"
  proof (rule bit_word_eqI)
    fix n assume n: "n < LENGTH('a)"
    have "bit (drop_bit (LENGTH('a) - p) v) (n - (LENGTH('a) - p))
        = bit (drop_bit (LENGTH('a) - p) w) (n - (LENGTH('a) - p))" by (simp only: r)
    then show "bit (v AND netmask p) n = bit (w AND netmask p) n"
      using n by (auto simp: bit_simps bit_netmask)
  qed
qed

subsection \<open>What the allowlist means\<close>

datatype allow_entry = Host "32 word" | Net "32 word" nat

fun entry_text :: "allow_entry \<Rightarrow> pystr" where
  "entry_text (Host n) = dotted n"
| "entry_text (Net n p) = dotted n @ 47 # digits p"

fun covers :: "allow_entry \<Rightarrow> 32 word \<Rightarrow> bool" where
  "covers (Host n) a \<longleftrightarrow> a = n"
| "covers (Net n p) a \<longleftrightarrow> drop_bit (32 - p) a = drop_bit (32 - p) n"

fun entry_valid :: "allow_entry \<Rightarrow> bool" where
  "entry_valid (Host n) \<longleftrightarrow> True"
| "entry_valid (Net n p) \<longleftrightarrow> p \<le> 32"

lemma dotted_chars: "c \<in> set (dotted w) \<Longrightarrow> c = 46 \<or> 48 \<le> c \<and> c \<le> 57"
  by (auto simp: dotted_def octets_of_def dest: digit_not)

lemma dotted_not_Nil [simp]: "dotted w \<noteq> []"
  by (simp add: dotted_def octets_of_def)

lemma entry_chars: "c \<in> set (entry_text e) \<Longrightarrow> 46 \<le> c \<and> c \<le> 57"
  by (cases e) (auto dest!: dotted_chars digit_not)

lemma strip_entry: "strip (entry_text e) = entry_text e"
proof (rule strip_id)
  have "entry_text e \<noteq> []" by (cases e) simp_all
  then show "entry_text e = [] \<or> \<not> is_space (hd (entry_text e)) \<and> \<not> is_space (last (entry_text e))"
    using entry_chars [of "hd (entry_text e)" e] entry_chars [of "last (entry_text e)" e]
    by (simp add: is_space_def)
qed

lemma prefix_from_digits: "p \<le> 32 \<Longrightarrow> prefix_from_string 32 (digits p) = Some p"
  using digits_are_digits by (auto simp: prefix_from_string_def list_all_iff)

lemma no_slash: "47 \<notin> set (dotted n)"
  using dotted_chars by fastforce

lemma net_read:
  assumes "p \<le> 32"
  shows "ip_network (dotted n @ 47 # digits p) = Some (Net4 (n AND netmask p) p)"
proof -
  have "47 \<notin> set (digits p)" using digit_not by fastforce
  then have "split_at 47 (dotted n @ 47 # digits p) = [dotted n, digits p]"
    using no_slash by (simp add: split_at_append split_at_single)
  then show ?thesis
    using prefix_from_digits [OF assms] dotted_back [of n]
    by (simp add: ip_network_def v4_network_def v4_prefix_def)
qed

lemma entry_matches_covers:
  assumes "entry_valid e"
  shows "entry_matches (V4 a) (entry_text e) = covers e a"
proof (cases e)
  case (Host n)
  then show ?thesis
    using strip_entry [of e] no_slash [of n] dotted_back [of n]
    by (simp add: entry_matches_def ip_address_def)
next
  case (Net n p)
  then have p: "p \<le> 32" using assms by simp
  have "entry_text e \<noteq> []" "47 \<in> set (entry_text e)" using Net by simp_all
  then show ?thesis
    using strip_entry [of e] net_read [OF p, of n] netmask_agree [of p a n] p Net
    by (simp add: entry_matches_def)
qed

text \<open>
  C26. The allowlist admits by CIDR prefix: a peer with an IPv4 address is allowed exactly when
  some entry covers it, a host by equality, a network \<open>n/p\<close> when the first \<open>p\<close> bits agree
  (host bits set in the entry do not matter); entries that are no address or network, and blank
  ones, admit nobody and disturb nobody; a peer that has no IP address is never allowed.
\<close>

theorem ip_allowed_by_prefix:
  assumes "list_all entry_valid entries" "list_all (\<lambda>t. \<forall>a. \<not> entry_matches a t) junk"
  shows "ip_allowed (dotted a) (junk @ map entry_text entries) = list_ex (\<lambda>e. covers e a) entries
    \<and> (ip_address peer = None \<longrightarrow> \<not> ip_allowed peer allowed)"
proof -
  have "list_ex (entry_matches (V4 a)) (map entry_text entries) = list_ex (\<lambda>e. covers e a) entries"
    using assms(1) by (induction entries) (auto simp: entry_matches_covers)
  moreover have "\<not> list_ex (entry_matches (V4 a)) junk"
    using assms(2) by (auto simp: list_ex_iff list_all_iff)
  ultimately show ?thesis using dotted_back [of a] by (simp add: ip_allowed_def ip_address_def)
qed

lemma dotted_examples: "dotted 167838211 = lit ''10.1.2.3''" "dotted 3232235521 = lit ''192.168.0.1''"
    "entry_text (Net 167772169 8) = lit ''10.0.0.9/8''"
  by (simp_all add: dotted_def octets_of_def digits.simps lit_def)

theorem ip_allowed_by_prefix_witness:
  "ip_allowed (lit ''10.1.2.3'') [lit '' '', lit ''10.0.0.9/8'']
   \<and> \<not> ip_allowed (lit ''192.168.0.1'') [lit '' '', lit ''10.0.0.9/8'']"
proof -
  have v: "list_all entry_valid [Net 167772169 8]" by simp
  have j: "list_all (\<lambda>t. \<forall>a. \<not> entry_matches a t) [lit '' '']"
    by (simp add: entry_matches_def strip_def lstrip_def rstrip_where_def lit_def is_space_def)
  have bits: "drop_bit 24 (167838211 :: 32 word) = drop_bit 24 167772169"
    "drop_bit 24 (3232235521 :: 32 word) \<noteq> drop_bit 24 167772169" by simp_all
  show ?thesis
    using ip_allowed_by_prefix [OF v j, of 167838211] ip_allowed_by_prefix [OF v j, of 3232235521] bits
    by (simp only: dotted_examples list.map append.simps) simp
qed

end
