(* ===== verification/Smtp_Handler.thy ===== *)
theory Smtp_Handler
  imports Smtp_Auth Ip_Access
begin

section \<open>The SMTP handler (smtp/handler.py, smtp/server.py)\<close>

text \<open>
  \<open>handle_data\<close> is \<open>MsgateHandler.handle_DATA\<close> with every early return: relay check, missing
  Exchange configuration, back-pressure, missing anonymous credentials, failed insertion. The
  session enters only by the address of its peer. Where the SMTP library hands over text
  instead of bytes (\<open>Decoded\<close>), it is encoded with replacement.
\<close>

datatype smtp_content = Raw bytes | Decoded pystr

record envelope =
  env_mail_from :: "pystr option"
  env_rcpt_tos :: "pystr list"
  env_content :: "smtp_content option"

definition utf8_encode_replace :: "pystr \<Rightarrow> bytes" where
  "utf8_encode_replace s = to_bytes (concat (map (\<lambda>c. if is_scalar c then utf8_cp c else [63]) s))"

definition content_bytes :: "smtp_content option \<Rightarrow> bytes" where
  "content_bytes c = (case c of None \<Rightarrow> [] | Some (Raw bs) \<Rightarrow> bs | Some (Decoded s) \<Rightarrow> utf8_encode_replace s)"

definition handle_rcpt :: "pystr \<Rightarrow> envelope \<Rightarrow> pystr \<times> envelope" where
  "handle_rcpt address e = (lit ''250 OK'', e\<lparr>env_rcpt_tos := env_rcpt_tos e @ [address]\<rparr>)"

definition reply_relay_denied :: pystr where
  "reply_relay_denied = lit ''550 relay not permitted: AUTH required or IP allowlisted''"

definition reply_no_ews :: pystr where
  "reply_no_ews = lit ''451 temporary failure: EWS not configured''"

definition reply_no_credentials :: pystr where
  "reply_no_credentials = lit ''451 temporary failure: EWS credentials not configured''"

definition reply_failed :: "exn \<Rightarrow> pystr" where
  "reply_failed e = lit ''451 temporary failure: '' @ exn_text e"

definition reply_accepted :: pystr where
  "reply_accepted = lit ''250 Message accepted for delivery''"

text \<open>What the handler is built with, and the process environment.\<close>

record smtp_gateway =
  sg_crypto :: crypto
  sg_box :: secret_box
  sg_lib :: mail_lib
  sg_env :: environ
  sg_max_pending :: int

text \<open>\<open>QueueService.__init__\<close>: the limit is the one given, or that of the environment.\<close>

definition new_service :: "crypto \<Rightarrow> secret_box \<Rightarrow> mail_lib \<Rightarrow> environ \<Rightarrow> int option \<Rightarrow> smtp_gateway" where
  [simp]: "new_service C box L env max_pending =
     \<lparr>sg_crypto = C, sg_box = box, sg_lib = L, sg_env = env,
      sg_max_pending = (case max_pending of Some n \<Rightarrow> n | None \<Rightarrow> queue_max_pending env)\<rparr>"

text \<open>The Exchange user, password, raw and sanitized name a mail is queued with.\<close>

definition mail_identity :: "session_auth option \<Rightarrow> ews_config \<Rightarrow> (pystr \<times> pystr \<times> pystr \<times> pystr) option" where
  "mail_identity auth cfg =
     (case auth of
        Some a \<Rightarrow> Some (sa_ews_username (sess_sanitized a), sess_password a, sa_raw (sess_sanitized a),
                     sa_username (sess_sanitized a))
      | None \<Rightarrow>
          if \<not> truthy (ews_username cfg) \<or> \<not> truthy (ews_password cfg) then None
          else Some (or_empty (ews_username cfg), or_empty (ews_password cfg), [], or_empty (ews_username cfg)))"

definition smtp_message ::
    "pystr \<Rightarrow> envelope \<Rightarrow> pystr \<times> pystr \<times> pystr \<times> pystr \<Rightarrow> new_message" where
  "smtp_message peer e who = (case who of (user, password, raw, name) \<Rightarrow>
     \<lparr>nm_client_ip = peer, nm_raw_user = raw, nm_sanitized_user = name,
      nm_sender = or_empty (env_mail_from e), nm_recipients = env_rcpt_tos e,
      nm_subject = [], nm_mime = content_bytes (env_content e),
      nm_username = user, nm_password = password\<rparr>)"

definition handle_data ::
    "smtp_gateway \<Rightarrow> gateway_config \<Rightarrow> authenticator \<Rightarrow> pystr \<Rightarrow> envelope \<Rightarrow> secs \<Rightarrow> insert_io
      \<Rightarrow> breaker option \<times> 'w mail_world \<Rightarrow> pystr \<times> breaker option \<times> 'w mail_world" where
  "handle_data G config au peer e tick ins st =
     (case st of (circuit, w) \<Rightarrow>
       let auth = get_auth au peer; allowed = ip_allowed peer (allowed_ips (smtp config))
       in if auth = None \<and> \<not> allowed then (reply_relay_denied, circuit, w)
          else (case ews config of
              None \<Rightarrow> (reply_no_ews, circuit, w)
            | Some cfg \<Rightarrow>
                (case check_backpressure (sg_env G) (sg_max_pending G) tick circuit w of
                   (Some deferred, circuit1, w1) \<Rightarrow> (deferred, circuit1, w1)
                 | (None, circuit1, w1) \<Rightarrow>
                     (case mail_identity auth cfg of
                        None \<Rightarrow> (reply_no_credentials, circuit1, w1)
                      | Some who \<Rightarrow>
                          (case accept_smtp (sg_crypto G) (sg_box G) (sg_lib G) ins (smtp_message peer e who) w1 of
                             (Inl exc, w2) \<Rightarrow> (reply_failed exc, circuit1, w2)
                           | (Inr _, w2) \<Rightarrow> (reply_accepted, circuit1, w2))))))"

text \<open>What \<open>create_controller\<close> passes to the SMTP library, and the authenticator it makes.\<close>

record controller =
  ctl_hostname :: pystr
  ctl_port :: int
  ctl_auth_required :: bool
  ctl_auth_require_tls :: bool
  ctl_decode_data :: bool

definition create_controller :: "gateway_config \<Rightarrow> controller \<times> authenticator" where
  "create_controller config =
     (\<lparr>ctl_hostname = bind_address (smtp config), ctl_port = smtp_port (smtp config),
       ctl_auth_required = False, ctl_auth_require_tls = False, ctl_decode_data = False\<rparr>,
      new_authenticator (case ews config of None \<Rightarrow> None | Some cfg \<Rightarrow> ews_domain cfg))"

subsection \<open>Replies\<close>

lemma reply_codes [simp]:
  "take 3 reply_relay_denied = lit ''550''" "take 3 reply_no_ews = lit ''451''"
  "take 3 reply_no_credentials = lit ''451''" "take 3 (reply_failed e) = lit ''451''"
  "take 3 reply_accepted = lit ''250''"
  by (simp_all add: reply_relay_denied_def reply_no_ews_def reply_no_credentials_def reply_failed_def
      reply_accepted_def lit_def)

lemma accepted_row:
  assumes "accept_smtp C box L ins (smtp_message peer e (user, password, raw, name)) w = (Inr x, w')"
  shows "\<exists>row. mw_table w' = mw_table w @ [row] \<and> row_status row = QUEUED
    \<and> get_message (mw_table w) (row_id row) = None
    \<and> row_sender row = or_empty (env_mail_from e) \<and> row_username row = Some user"
  using accept_smtp_row [OF assms] by (auto simp: smtp_message_def)

text \<open>A mail that passes the relay check, and one that passes the back-pressure too.\<close>

lemma handle_data_relayed:
  assumes "get_auth au peer \<noteq> None \<or> ip_allowed peer (allowed_ips (smtp config))" "ews config = Some cfg"
    and "check_backpressure (sg_env G) (sg_max_pending G) tick circuit w = (d, c1, w1)"
  shows "handle_data G config au peer e tick ins (circuit, w) =
    (case d of Some deferred \<Rightarrow> (deferred, c1, w1)
     | None \<Rightarrow> (case mail_identity (get_auth au peer) cfg of
         None \<Rightarrow> (reply_no_credentials, c1, w1)
       | Some who \<Rightarrow> (case accept_smtp (sg_crypto G) (sg_box G) (sg_lib G) ins (smtp_message peer e who) w1 of
             (Inl exc, w2) \<Rightarrow> (reply_failed exc, c1, w2)
           | (Inr _, w2) \<Rightarrow> (reply_accepted, c1, w2))))"
proof -
  have go: "(get_auth au peer = None \<and> \<not> ip_allowed peer (allowed_ips (smtp config))) = False"
    using assms(1) by simp
  show ?thesis
    unfolding handle_data_def Let_def prod.case go if_False assms(2,3) option.case by (cases d) simp_all
qed

lemma handle_data_spec:
  "case handle_data G config au peer e tick ins (circuit, w) of (reply, circuit', w') \<Rightarrow>
     (if take 3 reply = lit ''250''
      then ((\<exists>a. get_auth au peer = Some a) \<or> ip_allowed peer (allowed_ips (smtp config)))
        \<and> count_pending (mw_table w) < sg_max_pending G
        \<and> fst (check_backpressure (sg_env G) (sg_max_pending G) tick circuit w) = None
        \<and> (\<exists>cfg user password raw name row. ews config = Some cfg
             \<and> mail_identity (get_auth au peer) cfg = Some (user, password, raw, name)
             \<and> mw_table w' = mw_table w @ [row] \<and> row_status row = QUEUED
             \<and> get_message (mw_table w) (row_id row) = None
             \<and> row_sender row = or_empty (env_mail_from e) \<and> row_username row = Some user)
      else mw_table w' = mw_table w
        \<and> take 3 reply \<in> {lit ''550'', lit ''451'', lit ''452''})"
proof -
  let ?relay = "get_auth au peer = None \<and> \<not> ip_allowed peer (allowed_ips (smtp config))"
  obtain d c1 w1 where ch: "check_backpressure (sg_env G) (sg_max_pending G) tick circuit w = (d, c1, w1)"
    by (metis prod_cases3)
  show ?thesis
  proof (cases "?relay \<or> ews config = None")
    case True
    then show ?thesis by (auto simp: handle_data_def Let_def)
  next
    case False
    then obtain cfg where cfg: "ews config = Some cfg" and go: "\<not> ?relay" by auto
    show ?thesis
    proof (cases d)
      case (Some reply)
      have "handle_data G config au peer e tick ins (circuit, w) = (reply, c1, w1)"
        using handle_data_relayed [OF _ cfg ch] go Some by simp
      then show ?thesis using check_deferred ch Some by fastforce
    next
      case None
      note ok = check_passed [OF ch [unfolded None]]
      show ?thesis
      proof (cases "mail_identity (get_auth au peer) cfg")
        case None': None
        then show ?thesis using handle_data_relayed [OF _ cfg ch] go None ok by simp
      next
        case (Some who)
        obtain user password raw name where who: "who = (user, password, raw, name)" by (cases who)
        obtain r w2 where acc: "accept_smtp (sg_crypto G) (sg_box G) (sg_lib G) ins (smtp_message peer e who) w = (r, w2)"
          by fastforce
        show ?thesis
        proof (cases r)
          case (Inl exc)
          then have "handle_data G config au peer e tick ins (circuit, w) = (reply_failed exc, c1, w)"
            using handle_data_relayed [OF _ cfg ch] go None ok Some acc accept_smtp_Inl [of _ _ _ _ _ w exc w2]
            by auto
          then show ?thesis by simp
        next
          case (Inr x)
          have "handle_data G config au peer e tick ins (circuit, w) = (reply_accepted, c1, w2)"
            using handle_data_relayed [OF _ cfg ch] go None ok Some acc Inr by simp
          then show ?thesis
            using accepted_row acc [unfolded who Inr] go cfg ch None ok Some who by simp
        qed
      qed
    qed
  qed
qed

text \<open>
  C24. A mail is taken over exactly when the client is told so: the handler answers 250 just in
  case the peer authenticated or is on the allowlist, Exchange is configured, neither the
  breaker nor the queue limit defers, and one new row with the envelope's sender and the
  identity of the peer is in the table, QUEUED. After any other answer, which is a 4xx or 5xx
  code, the table is as it was.
\<close>

theorem smtp_250_iff_queued:
  "case handle_data G config au peer e tick ins (circuit, w) of (reply, circuit', w') \<Rightarrow>
     (if take 3 reply = lit ''250''
      then ((\<exists>a. get_auth au peer = Some a) \<or> ip_allowed peer (allowed_ips (smtp config)))
        \<and> count_pending (mw_table w) < sg_max_pending G
        \<and> fst (check_backpressure (sg_env G) (sg_max_pending G) tick circuit w) = None
        \<and> (\<exists>cfg user password raw name row. ews config = Some cfg
             \<and> mail_identity (get_auth au peer) cfg = Some (user, password, raw, name)
             \<and> mw_table w' = mw_table w @ [row] \<and> row_status row = QUEUED
             \<and> get_message (mw_table w) (row_id row) = None
             \<and> row_sender row = or_empty (env_mail_from e) \<and> row_username row = Some user)
      else mw_table w' = mw_table w
        \<and> take 3 reply \<in> {lit ''550'', lit ''451'', lit ''452''})"
  by (rule handle_data_spec)

lemma not_550:
  assumes "get_auth au peer \<noteq> None \<or> ip_allowed peer (allowed_ips (smtp config))"
    and "handle_data G config au peer e tick ins (circuit, w) = (reply, circuit', w')"
  shows "take 3 reply \<noteq> lit ''550''"
proof (cases "ews config")
  case None
  then have "reply = reply_no_ews" using assms by (auto simp: handle_data_def Let_def)
  then show ?thesis by simp
next
  case (Some cfg)
  obtain d c1 w1 where ch: "check_backpressure (sg_env G) (sg_max_pending G) tick circuit w = (d, c1, w1)"
    by (metis prod_cases3)
  show ?thesis
  proof (cases d)
    case None
    then have "reply = reply_no_credentials \<or> reply = reply_accepted \<or> (\<exists>e. reply = reply_failed e)"
      using handle_data_relayed [OF assms(1) Some ch] assms(2) by (auto split: option.splits sum.splits prod.splits)
    then show ?thesis by auto
  next
    case (Some r)
    then have "reply = r" using handle_data_relayed [OF assms(1) \<open>ews config = Some cfg\<close> ch] assms(2) by simp
    then show ?thesis using check_deferred ch Some by fastforce
  qed
qed

subsection \<open>Credentials by address\<close>

lemma authenticate_True:
  assumes "authenticate peer mechanism login ts (au, w) = (True, au', w')"
  obtains l p a where "login = Some (l, p)" "sanitize_username (utf8_decode_replace l) (au_default_domain au) = Inr a"
    "au' = remember peer \<lparr>sess_sanitized = a, sess_password = utf8_decode_replace p\<rparr> au"
    "upper (or_empty mechanism) \<in> {lit ''PLAIN'', lit ''LOGIN''}"
  using assms by (auto simp: authenticate_def Let_def split: if_splits option.splits sum.splits)

text \<open>
  C25. AUTH belongs to the address, not to the session: after any client authenticated from an
  address, every later mail from that address, of whatever connection and with no AUTH of its
  own, is let in without the allowlist and is queued under the name presented last; no other
  address is affected. Nothing is checked against Exchange, and nothing expires.
\<close>

theorem auth_holds_for_address:
  assumes "authenticate peer mechanism (Some (l, p)) ts (au, w0) = (True, au', w1)"
    and "sanitize_username (utf8_decode_replace l) (au_default_domain au) = Inr a"
  shows "case handle_data G config au' peer e tick ins (circuit, w) of (reply, circuit', w') \<Rightarrow>
      take 3 reply \<noteq> lit ''550''
      \<and> (if take 3 reply = lit ''250''
         then \<exists>row. mw_table w' = mw_table w @ [row] \<and> row_username row = Some (sa_ews_username a) else True)
      \<and> (\<forall>peer'. peer' = peer \<or> get_auth au' peer' = get_auth au peer')"
proof -
  let ?sa = "\<lparr>sess_sanitized = a, sess_password = utf8_decode_replace p\<rparr>"
  have au': "au' = remember peer ?sa au"
    using assms by (auto elim!: authenticate_True)
  have got: "get_auth au' peer = Some ?sa" and others: "\<And>peer'. peer' \<noteq> peer \<Longrightarrow> get_auth au' peer' = get_auth au peer'"
    unfolding au' by (simp_all add: peers.lookup_put)
  obtain reply c' w' where run: "handle_data G config au' peer e tick ins (circuit, w) = (reply, c', w')"
    by (metis prod_cases3)
  have "take 3 reply \<noteq> lit ''550''" using not_550 [OF _ run] got by simp
  moreover have "take 3 reply = lit ''250'' \<Longrightarrow> \<exists>row. mw_table w' = mw_table w @ [row]
      \<and> row_username row = Some (sa_ews_username a)"
    using handle_data_spec [where G = G and config = config and au = au' and peer = peer and e = e and tick = tick
        and ins = ins and circuit = circuit and w = w] run got
    by (auto simp: mail_identity_def)
  ultimately show ?thesis using run others by auto
qed

definition toy_gateway :: smtp_gateway where
  "toy_gateway = new_service toy_crypto \<lparr>box_key = []\<rparr> toy_lib (\<lambda>_. None) (Some 100)"

definition toy_envelope :: envelope where
  "toy_envelope = \<lparr>env_mail_from = Some (lit ''a@example.com''), env_rcpt_tos = [lit ''b@example.com''],
     env_content = Some (Raw [65])\<rparr>"

theorem auth_holds_for_address_witness:
  "\<exists>au' w1. authenticate (lit ''192.0.2.7'') (Some (lit ''plain'')) (Some ([97], [98])) []
        (new_authenticator None, empty_world) = (True, au', w1)
     \<and> take 3 (fst (handle_data toy_gateway sample_config au' (lit ''192.0.2.7'') toy_envelope 0 toy_ins
          (None, empty_world))) \<noteq> lit ''550''"
proof -
  have d: "utf8_decode_replace [97] = [97]" by (simp add: utf8_decode_replace_def of_bytes_def)
  have "plain_part [97]" by (simp add: plain_part_def is_space_def)
  from sanitize_plain [OF this, of None] have s: "sanitize_username (utf8_decode_replace [97])
      (au_default_domain (new_authenticator None)) = Inr \<lparr>sa_raw = [97], sa_username = [97], sa_domain = None,
        sa_ews_username = [97]\<rparr>" by (simp add: d new_authenticator_def)
  have "upper (lit ''plain'') = lit ''PLAIN''" by (simp add: upper_def upper_cp_def lit_def)
  with s obtain au' w1 where run: "authenticate (lit ''192.0.2.7'') (Some (lit ''plain'')) (Some ([97], [98])) []
      (new_authenticator None, empty_world) = (True, au', w1)" by (simp add: authenticate_def Let_def)
  from auth_holds_for_address [OF run s, where G = toy_gateway and config = sample_config and e = toy_envelope
      and tick = 0 and ins = toy_ins and circuit = None and w = empty_world] run
  show ?thesis by (auto split: prod.splits)
qed

end
