(* ===== verification/End_To_End.thy ===== *)
theory End_To_End
  imports Queue_Delivery Smtp_Handler
begin

section \<open>From the SMTP client to Exchange\<close>

text \<open>
  The parts put together, as \<open>app/bootstrap.py\<close> wires them: the SMTP side with its authenticator,
  the queue with any number of workers, the Exchange driver with its state. \<open>gateway_step\<close> is one
  step of any of them; networks and Exchange servers answer what they like in every step, and the
  process may crash and start again at any time. What was answered with 250 (\<open>gw_taken\<close>) is kept
  for the statements only; what Exchange was handed is never forgotten either. The abstract
  specification is a list: the mails Exchange took are a list of different mails of clients.
\<close>

definition ews_sender :: "crypto \<Rightarrow> secret_box \<Rightarrow> ews_io \<Rightarrow> ews_io \<Rightarrow> ews_state sender" where
  "ews_sender C box io io' = \<lparr>snd_driver = resolve_driver io io', snd_override = None,
     snd_crypto = C, snd_box = box\<rparr>"

abbreviation gateway_sender :: "smtp_gateway \<Rightarrow> ews_io \<Rightarrow> ews_io \<Rightarrow> ews_state sender" where
  "gateway_sender G \<equiv> ews_sender (sg_crypto G) (sg_box G)"

text \<open>The mail a DATA command asks to be queued, when it gets that far.\<close>

definition data_mail :: "gateway_config \<Rightarrow> authenticator \<Rightarrow> pystr \<Rightarrow> envelope \<Rightarrow> new_message option" where
  "data_mail config au peer e =
     (case ews config of None \<Rightarrow> None
      | Some cfg \<Rightarrow> map_option (smtp_message peer e) (mail_identity (get_auth au peer) cfg))"

text \<open>What a reply takes over.\<close>

definition taken_by :: "pystr \<Rightarrow> insert_io \<Rightarrow> new_message option \<Rightarrow> (insert_io \<times> new_message) list" where
  "taken_by reply ins m = (case m of None \<Rightarrow> []
     | Some m \<Rightarrow> if take 3 reply = lit ''250'' then [(ins, m)] else [])"

definition test_mail ::
    "(email_parts \<Rightarrow> bytes) \<Rightarrow> pystr \<Rightarrow> pystr list \<Rightarrow> pystr \<Rightarrow> pystr \<Rightarrow> bool \<Rightarrow> pystr \<Rightarrow> pystr \<Rightarrow> new_message" where
  "test_mail as_bytes sender rcpts subject body is_html username password =
     \<lparr>nm_client_ip = lit ''api'', nm_raw_user = username, nm_sanitized_user = username,
      nm_sender = sender, nm_recipients = rcpts, nm_subject = [],
      nm_mime = build_mime_from_test as_bytes sender rcpts subject body is_html,
      nm_username = username, nm_password = password\<rparr>"

lemma submit_test_accepts:
  "submit_test C box L as_bytes ins sender rcpts subject body is_html username password w
     = accept_smtp C box L ins (test_mail as_bytes sender rcpts subject body is_html username password) w"
  by (simp add: submit_test_def test_mail_def)

record gateway =
  gw_sys :: "ews_state system"
  gw_auth :: authenticator
  gw_taken :: "(insert_io \<times> new_message) list"

abbreviation gw_world :: "gateway \<Rightarrow> ews_state mail_world" where
  "gw_world g \<equiv> sys_world (gw_sys g)"

abbreviation gw_table :: "gateway \<Rightarrow> table" where
  "gw_table g \<equiv> mw_table (gw_world g)"

inductive gateway_step :: "smtp_gateway \<Rightarrow> gateway \<Rightarrow> gateway \<Rightarrow> bool" for G where
  Auth: "authenticate peer mechanism login ts (gw_auth g, gw_world g) = (ok, au', w')
    \<Longrightarrow> gateway_step G g (g\<lparr>gw_sys := (gw_sys g)\<lparr>sys_world := w'\<rparr>, gw_auth := au'\<rparr>)"
| Data: "handle_data G config (gw_auth g) peer e tick ins (Some (sys_gate (gw_sys g)), gw_world g)
      = (reply, Some gate', w')
    \<Longrightarrow> list_all mail_ok (taken_by reply ins (data_mail config (gw_auth g) peer e))
    \<Longrightarrow> gateway_step G g (g\<lparr>gw_sys := (gw_sys g)\<lparr>sys_world := w', sys_gate := gate'\<rparr>,
          gw_taken := gw_taken g @ taken_by reply ins (data_mail config (gw_auth g) peer e)\<rparr>)"
| Submit: "submit_test (sg_crypto G) (sg_box G) (sg_lib G) as_bytes ins sender rcpts subject body is_html
      username password (gw_world g) = (Inr x, w')
    \<Longrightarrow> m = test_mail as_bytes sender rcpts subject body is_html username password
    \<Longrightarrow> mail_ok (ins, m)
    \<Longrightarrow> gateway_step G g (g\<lparr>gw_sys := (gw_sys g)\<lparr>sys_world := w'\<rparr>, gw_taken := gw_taken g @ [(ins, m)]\<rparr>)"
| Thread: "worker_step (gateway_sender G io io') (gw_sys g) s'
    \<Longrightarrow> io_lib io = sg_lib G \<Longrightarrow> io_lib io' = sg_lib G
    \<Longrightarrow> gateway_step G g (g\<lparr>gw_sys := s'\<rparr>)"
| Health: "check_backend_health (resolve_driver io io' config) config (mw_out (gw_world g)) = (h, out)
    \<Longrightarrow> gateway_step G g (g\<lparr>gw_sys := (gw_sys g)\<lparr>sys_world := (gw_world g)\<lparr>mw_out := out\<rparr>\<rparr>\<rparr>)"
| Look: "gateway_step G g (g\<lparr>gw_sys := (gw_sys g)\<lparr>sys_gate := maybe_half_open a (sys_gate (gw_sys g)),
      sys_world := (gw_world g)\<lparr>mw_hub := h, mw_wake := b\<rparr>\<rparr>\<rparr>)"
| Restart: "gateway_step G g (g\<lparr>gw_sys := (gw_sys g)\<lparr>sys_world := (gw_world g)\<lparr>mw_hub := h, mw_wake := b,
        mw_out := \<lparr>es_tls = tls, es_accounts = [], es_handed = es_handed (mw_out (gw_world g))\<rparr>\<rparr>,
        sys_gate := gate', sys_phase := (\<lambda>_. Resting)\<rparr>,
      gw_auth := new_authenticator domain\<rparr>)"

inductive gateway_reachable :: "smtp_gateway \<Rightarrow> gateway \<Rightarrow> bool" for G where
  Start: "mw_table w = [] \<Longrightarrow> es_accounts (mw_out w) = [] \<Longrightarrow> es_handed (mw_out w) = []
    \<Longrightarrow> gateway_reachable G
      \<lparr>gw_sys = \<lparr>sys_world = w, sys_gate = gate, sys_phase = (\<lambda>_. Resting), sys_log = []\<rparr>,
       gw_auth = new_authenticator domain, gw_taken = []\<rparr>"
| Step: "gateway_reachable G g \<Longrightarrow> gateway_step G g g' \<Longrightarrow> gateway_reachable G g'"

subsection \<open>The abstract view\<close>

definition exchange_took :: "gateway \<Rightarrow> (ssl_context option \<times> account \<times> ews_message \<times> exn option) list" where
  "exchange_took g = filter (\<lambda>h. handed_outcome h = None) (es_handed (mw_out (gw_world g)))"

definition mail_id :: "insert_io \<times> new_message \<Rightarrow> pystr" where
  "mail_id im = new_message_id (ins_uuid (fst im))"

text \<open>
  What was handed over is this mail: the translation of its bytes, from and to the envelope's
  addresses, under the login it was queued with, to the primary or the failover server of a
  configuration.
\<close>

definition copy_of :: "smtp_gateway \<Rightarrow> insert_io \<times> new_message
    \<Rightarrow> ssl_context option \<times> account \<times> ews_message \<times> exn option \<Rightarrow> bool" where
  "copy_of G im h \<longleftrightarrow> (\<exists>config cfg. (ews config = Some cfg \<or> ews_failover config = Some cfg)
     \<and> handed_ok (sg_lib G) cfg (mail_request config (snd im)) h)"

definition carries :: "smtp_gateway \<Rightarrow> insert_io \<times> new_message \<Rightarrow> message_row \<Rightarrow> bool" where
  "carries G im r \<longleftrightarrow> (\<forall>io io' config.
     row_request (gateway_sender G io io') config r = Inr (mail_request config (snd im)))"

definition stored :: "smtp_gateway \<Rightarrow> (insert_io \<times> new_message) list \<Rightarrow> table \<Rightarrow> bool" where
  "stored G ims t \<longleftrightarrow> map mail_id ims = ids t
     \<and> (\<forall>im\<in>set ims. \<exists>r. get_message t (mail_id im) = Some r \<and> carries G im r)"

definition took_ids :: "(pystr \<times> bool) list \<Rightarrow> pystr list" where
  "took_ids es = map fst (filter snd es)"

definition delivered_as ::
    "smtp_gateway \<Rightarrow> (insert_io \<times> new_message) list \<Rightarrow> pystr
      \<Rightarrow> ssl_context option \<times> account \<times> ews_message \<times> exn option \<Rightarrow> bool" where
  "delivered_as G ims k h \<longleftrightarrow> (\<exists>im\<in>set ims. mail_id im = k \<and> copy_of G im h)"

definition gw_ok :: "smtp_gateway \<Rightarrow> gateway \<Rightarrow> bool" where
  "gw_ok G g \<longleftrightarrow> sys_ok (gw_sys g) \<and> store_ok (es_accounts (mw_out (gw_world g)))
     \<and> stored G (gw_taken g) (gw_table g)
     \<and> list_all2 (delivered_as G (gw_taken g)) (took_ids (sys_log (gw_sys g))) (exchange_took g)"

subsection \<open>What a thread does to a mail\<close>

text \<open>Rows change, their mails do not.\<close>

definition mails_kept :: "table \<Rightarrow> table \<Rightarrow> bool" where
  "mails_kept t t' \<longleftrightarrow> ids t' = ids t
     \<and> (\<forall>k. map_option row_mail (get_message t' k) = map_option row_mail (get_message t k))"

lemma mails_kept_refl [simp]: "mails_kept t t"
  by (simp add: mails_kept_def)

lemma mails_kept_changed:
  "row_changed t r' t' \<Longrightarrow> get_message t (row_id r') = Some r \<Longrightarrow> row_mail r' = row_mail r \<Longrightarrow> mails_kept t t'"
  by (auto simp: mails_kept_def row_changed_def)

lemma stored_kept:
  assumes "stored G ims t" "mails_kept t t'"
  shows "stored G ims t'"
proof -
  have "\<exists>r'. get_message t' k = Some r' \<and> carries G im r'"
    if "get_message t k = Some r" "carries G im r" for k r im
  proof -
    have "map_option row_mail (get_message t' k) = Some (row_mail r)"
      using that(1) assms(2) by (simp add: mails_kept_def)
    then obtain r' where "get_message t' k = Some r'" and r': "row_mail r' = row_mail r" by auto
    then show ?thesis using that(2) by (simp add: carries_def row_request_mail [OF r'])
  qed
  then show ?thesis using assms unfolding stored_def mails_kept_def by metis
qed

lemma begin_None_mail:
  assumes "begin_delivery S config True now row w = (None, w')"
    and "get_message (mw_table w) (row_id row) = Some row"
  shows "mails_kept (mw_table w) (mw_table w') \<and> mw_out w' = mw_out w"
  using assms by (rule begin_None) (use assms(2) in \<open>auto intro: mails_kept_changed\<close>)

text \<open>One step of a thread: it keeps the mails, and it hands over a stored one or nothing.\<close>

lemma worker_keeps_mails:
  assumes "worker_step S s s'" and ok: "sys_ok s"
  shows "mails_kept (sys_table s) (sys_table s')"
  using assms(1)
proof (cases rule: worker_step.cases)
  case (Win i k now t' row)
  have t': "t' = snd (claim_row k now (sys_table s))" using Win(3) by simp
  have "map_option row_mail (get_message t' j) = map_option row_mail (get_message (sys_table s) j)" for j
    unfolding t' get_message_claim
    by (cases "j = k"; cases "get_message (sys_table s) k") (simp_all split: if_split)
  then show ?thesis using Win(1) t' by (simp add: mails_kept_def)
next
  case (Lose i k now n t')
  have "get_message t' j = get_message (sys_table s) j" for j
    by (rule messages.claim_lost [OF sys_okD(2) [OF ok] Lose(3,4)])
  moreover have "ids t' = ids (sys_table s)" using ids_claim [of k now "sys_table s"] Lose(3) by simp
  ultimately show ?thesis using Lose(1) by (simp add: mails_kept_def)
next
  case (Reject i row config now w' ms b)
  then have "owned (sys_phase s i) = Some row" by simp
  from begin_None_mail [OF Reject(3)] owned_row [OF ok this] show ?thesis using Reject(1) by simp
next
  case (Deliver i row config now row1 w1 x w')
  then show ?thesis using begin_Some [OF Deliver(3)] deliver_effect [OF Deliver(4)] by simp
next
  case (Raise i row config now row1 w1 e w' ms)
  then show ?thesis using begin_Some [OF Raise(3)] deliver_effect [OF Raise(4)] by simp
next
  case (Settle i row x now ts res w' ms b)
  then have own: "owned (sys_phase s i) = Some row" by simp
  have "row_changed (sys_table s) (outcome now x row) (mw_table w')"
    using settle_changes [OF Settle(3)] owned_row [OF ok own] by simp
  then have "mails_kept (sys_table s) (mw_table w')"
    by (rule mails_kept_changed) (use owned_row [OF ok own] in simp_all)
  then show ?thesis using Settle(1) by simp
qed simp_all

lemma worker_hands:
  assumes "worker_step S s s'" and ok: "sys_ok s"
  obtains (silent) "sys_log s' = sys_log s" "mw_out (sys_world s') = mw_out (sys_world s)"
  | (mail) row req config x where "sys_log s' = sys_log s @ [(row_id row, succeeded x)]"
      "get_message (sys_table s) (row_id row) = Some row" "row_request S config row = Inr req"
      "hand_to_driver S config req (mw_out (sys_world s)) = (x, mw_out (sys_world s'))"
  using assms(1)
proof (cases rule: worker_step.cases)
  case (Reject i row config now w' ms b)
  then have "owned (sys_phase s i) = Some row" by simp
  then have "mw_out w' = mw_out (sys_world s)"
    using begin_None_mail [OF Reject(3)] owned_row [OF ok] by blast
  then show ?thesis using silent Reject(1) by simp
next
  case (Deliver i row config now row1 w1 x w')
  then have "owned (sys_phase s i) = Some row" and b: "row1 = row" "w1 = sys_world s"
    using begin_Some [OF Deliver(3)] by simp_all
  then have row: "get_message (sys_table s) (row_id row) = Some row" using owned_row [OF ok] by blast
  from deliver_effect [OF Deliver(4)] b obtain req where "row_request S config row = Inr req"
    "hand_to_driver S config req (mw_out (sys_world s)) = (x, mw_out w')"
    by (auto split: sum.splits)
  then show ?thesis using row Deliver(1) b(1) by (intro mail [of row x config req]) simp_all
next
  case (Raise i row config now row1 w1 e w' ms)
  then have "mw_out w' = mw_out (sys_world s)"
    using begin_Some [OF Raise(3)] deliver_effect [OF Raise(4)] by (auto split: sum.splits)
  then show ?thesis using silent Raise(1) by simp
next
  case (Settle i row x now ts res w' ms b)
  then have "owned (sys_phase s i) = Some row" by simp
  then have "mw_out w' = mw_out (sys_world s)"
    using settle_changes(2) [OF Settle(3)] owned_row [OF ok] by blast
  then show ?thesis using silent Settle(1) by simp
qed (use silent in simp)+

subsection \<open>What the driver does to the state of the Exchange client\<close>

lemma build_account_store:
  assumes "build_account N X L u pw cfg mf ds st = (r, st')" "store_ok (es_accounts st)"
  shows "store_ok (es_accounts st')"
  using build_account_ok [of N X L "toy_request\<lparr>auth_username := u, auth_password := pw\<rparr>" cfg mf ds st r st'] assms
  by simp

lemma health_quiet:
  assumes "check_backend_health (resolve_driver io io' config) config st = (h, st')" "store_ok (es_accounts st)"
  shows "store_ok (es_accounts st') \<and> es_handed st' = es_handed st"
proof (cases "backend config")
  case EWS
  have ews: "check_ews io cfg u pw st = (h, st') \<Longrightarrow> store_ok (es_accounts st') \<and> es_handed st' = es_handed st"
    for cfg u pw
    using assms(2) by (auto simp: check_ews_def dest!: build_account_store split: prod.splits sum.splits)
  show ?thesis
    using assms EWS ews
    by (auto simp: check_backend_health_def resolve_driver_def ews_driver_def ews_health_def split: if_splits option.splits)
qed (use assms in \<open>auto simp: check_backend_health_def resolve_driver_def graph_driver_def stub_driver_def
       gmail_driver_def Let_def split: if_splits\<close>)

lemma only_last:
  assumes "list_all (\<lambda>h. \<not> P h) (butlast hs)" "ok = (hs \<noteq> [] \<and> P (last hs))"
  shows "filter P hs = (if ok then [last hs] else [])"
proof (cases hs rule: rev_cases)
  case (snoc ys y)
  then have "filter P ys = []" using assms(1) by (simp add: filter_empty_conv list_all_iff)
  then show ?thesis using snoc assms(2) by simp
qed (use assms in simp)

lemma ews_sender_hands:
  assumes "hand_to_driver (ews_sender C box io io') config req out = (x, out')" "store_ok (es_accounts out)"
    and "io_lib io = L" "io_lib io' = L"
  shows "\<exists>hs. store_ok (es_accounts out') \<and> es_handed out' = es_handed out @ hs
    \<and> filter (\<lambda>h. handed_outcome h = None) hs = (if succeeded x then [last hs] else [])
    \<and> (succeeded x \<longrightarrow> (\<exists>cfg. (ews config = Some cfg \<or> ews_failover config = Some cfg)
         \<and> handed_ok L cfg req (last hs)))"
proof (cases "backend config")
  case EWS
  then have "ews_send io io' req config out = (x, out')"
    using assms(1) by (simp add: hand_to_driver_def ews_sender_def resolve_driver_def ews_driver_def)
  from ews_send_hands_over [OF this assms(2)] obtain hs where
    hs: "store_ok (es_accounts out')" "es_handed out' = es_handed out @ hs"
      "list_all (\<lambda>h. handed_outcome h \<noteq> None) (butlast hs)"
      "succeeded x = (hs \<noteq> [] \<and> handed_outcome (last hs) = None)"
    and to: "case x of Inl _ \<Rightarrow> True | Inr y \<Rightarrow>
         (\<exists>cfg. ews config = Some cfg \<and> result_driver y = Some (lit ''ews'') \<and> handed_ok (io_lib io) cfg req (last hs))
         \<or> (\<exists>cfg. ews_failover config = Some cfg \<and> result_driver y = Some (lit ''ews+failover'')
            \<and> handed_ok (io_lib io') cfg req (last hs))" by blast
  have "succeeded x \<Longrightarrow> \<exists>cfg. (ews config = Some cfg \<or> ews_failover config = Some cfg) \<and> handed_ok L cfg req (last hs)"
    using to assms(3,4) by (cases x) auto
  moreover have "filter (\<lambda>h. handed_outcome h = None) hs = (if succeeded x then [last hs] else [])"
    using hs(3,4) by (intro only_last) simp_all
  ultimately show ?thesis using hs(1,2) by blast
qed (use assms in \<open>auto simp: hand_to_driver_def ews_sender_def resolve_driver_def graph_driver_def stub_driver_def
       gmail_driver_def Let_def\<close>)

subsection \<open>What the SMTP side takes\<close>

lemma authenticate_quiet:
  "authenticate peer mechanism login ts (au, w) = (ok, au', w') \<Longrightarrow> mw_table w' = mw_table w \<and> mw_out w' = mw_out w"
  by (auto simp: authenticate_def Let_def split: if_splits option.splits sum.splits)

lemma handle_data_takes:
  assumes "handle_data G config au peer e tick ins (circuit, w) = (reply, circuit', w')"
  shows "if take 3 reply = lit ''250''
    then \<exists>m x. data_mail config au peer e = Some m
      \<and> accept_smtp (sg_crypto G) (sg_box G) (sg_lib G) ins m w = (Inr x, w')
    else mw_table w' = mw_table w \<and> mw_out w' = mw_out w"
proof (cases "(get_auth au peer = None \<and> \<not> ip_allowed peer (allowed_ips (smtp config))) \<or> ews config = None")
  case True
  then show ?thesis using assms by (auto simp: handle_data_def Let_def split: if_splits)
next
  case False
  then obtain cfg where cfg: "ews config = Some cfg"
    and go: "get_auth au peer \<noteq> None \<or> ip_allowed peer (allowed_ips (smtp config))" by auto
  obtain d c1 w1 where ch: "check_backpressure (sg_env G) (sg_max_pending G) tick circuit w = (d, c1, w1)"
    by (metis prod_cases3)
  note run = assms [unfolded handle_data_relayed [OF go cfg ch]]
  show ?thesis
  proof (cases d)
    case (Some deferred)
    then show ?thesis using run check_deferred [OF ch [unfolded Some]] by auto
  next
    case None
    have w1: "w1 = w" using check_passed [OF ch [unfolded None]] by simp
    show ?thesis
      using run None w1 cfg
      by (auto simp: data_mail_def dest: accept_smtp_Inl split: option.splits prod.splits sum.splits)
  qed
qed

subsection \<open>The invariant of the gateway\<close>

lemma gw_okD:
  assumes "gw_ok G g"
  shows "sys_ok (gw_sys g)" "store_ok (es_accounts (mw_out (gw_world g)))" "stored G (gw_taken g) (gw_table g)"
    "list_all2 (delivered_as G (gw_taken g)) (took_ids (sys_log (gw_sys g))) (exchange_took g)"
  using assms by (simp_all add: gw_ok_def)

lemma took_ids_snoc [simp]: "took_ids [] = []" "took_ids (es @ [(k, b)]) = took_ids es @ (if b then [k] else [])"
  by (simp_all add: took_ids_def)

text \<open>A step that hands nothing over and changes no row.\<close>

lemma gw_ok_quiet:
  assumes ok: "gw_ok G g"
    and "gw_table g' = gw_table g" "sys_log (gw_sys g') = sys_log (gw_sys g)" "gw_taken g' = gw_taken g"
    and "\<And>j. sys_phase (gw_sys g') j = sys_phase (gw_sys g) j \<or> sys_phase (gw_sys g') j = Resting"
    and "store_ok (es_accounts (mw_out (gw_world g')))"
    and "es_handed (mw_out (gw_world g')) = es_handed (mw_out (gw_world g))"
  shows "gw_ok G g'"
proof -
  have "sys_ok (gw_sys g')"
    by (rule sys_ok_release [OF gw_okD(1) [OF ok]]) (use assms(2,3,5) in auto)
  then show ?thesis using gw_okD [OF ok] assms by (simp add: gw_ok_def exchange_took_def)
qed

lemma delivered_as_more: "set ims \<subseteq> set ims' \<Longrightarrow> delivered_as G ims k h \<Longrightarrow> delivered_as G ims' k h"
  by (auto simp: delivered_as_def)

text \<open>A mail is taken over.\<close>

lemma accepted_carries:
  assumes law: "aead_law (sg_crypto G)" and m: "mail_ok im"
    and acc: "accept_smtp (sg_crypto G) (sg_box G) L (fst im) (snd im) w = (Inr x, w')"
  obtains r where "mw_table w' = mw_table w @ [r]" "carries G im r" "row_id r = mail_id im"
    "get_message (mw_table w) (mail_id im) = None" "mw_out w' = mw_out w"
proof -
  have row: "\<exists>r. row_of_mail (gateway_sender G io io') cfg im r \<and> mw_table w' = mw_table w @ [r]
      \<and> mw_out w' = mw_out w \<and> get_message (mw_table w) (row_id r) = None" for io io' cfg
    using accepted_row_of_mail [of "gateway_sender G io io'" "fst im" "snd im" L w x w' cfg] law m acc
    by (simp add: ews_sender_def)
  from row [of undefined undefined undefined] obtain r where r: "mw_table w' = mw_table w @ [r]"
    "mw_out w' = mw_out w" "get_message (mw_table w) (row_id r) = None" "row_id r = mail_id im"
    by (auto simp: row_of_mail_def mail_id_def)
  moreover have "row_request (gateway_sender G io io') cfg r = Inr (mail_request cfg (snd im))" for io io' cfg
    using row [of io io' cfg] r(1) by (auto simp: row_of_mail_def)
  then have "carries G im r" by (simp add: carries_def)
  ultimately show ?thesis using that by simp
qed

lemma gw_ok_take:
  assumes law: "aead_law (sg_crypto G)" and ok: "gw_ok G g" and m: "mail_ok im"
    and acc: "accept_smtp (sg_crypto G) (sg_box G) L (fst im) (snd im) (gw_world g) = (Inr x, w')"
  shows "gw_ok G (g\<lparr>gw_sys := (gw_sys g)\<lparr>sys_world := w', sys_gate := gate'\<rparr>, gw_taken := gw_taken g @ [im]\<rparr>)"
proof -
  from accepted_carries [OF law m acc] obtain r where r: "mw_table w' = gw_table g @ [r]" "carries G im r"
    "row_id r = mail_id im" "get_message (gw_table g) (mail_id im) = None" "mw_out w' = mw_out (gw_world g)" .
  note okD = gw_okD [OF ok]
  have "sys_ok ((gw_sys g)\<lparr>sys_world := w'\<rparr>)" by (rule sys_ok_accept [OF okD(1) acc])
  then have "sys_ok ((gw_sys g)\<lparr>sys_world := w', sys_gate := gate'\<rparr>)"
    by (rule sys_ok_release) simp_all
  moreover have get: "get_message (mw_table w') k = (if k = mail_id im then Some r else get_message (gw_table g) k)" for k
    using r(3,4) by (auto simp: r(1) get_message_append split: option.split)
  have ids: "ids (mw_table w') = ids (gw_table g) @ [mail_id im]" using r(1,3) by (simp add: ids_def)
  have "stored G (gw_taken g @ [im]) (mw_table w')"
    using okD(3) r(2,4) ids by (auto simp: stored_def get)
  moreover have "list_all2 (delivered_as G (gw_taken g @ [im])) (took_ids (sys_log (gw_sys g))) (exchange_took g)"
    using okD(4) by (rule list_all2_mono) (auto intro: delivered_as_more [rotated])
  ultimately show ?thesis using okD(2) r(5) by (simp add: gw_ok_def exchange_took_def)
qed

text \<open>A thread takes a step.\<close>

lemma gw_ok_thread:
  assumes ok: "gw_ok G g" and st: "worker_step (gateway_sender G io io') (gw_sys g) s'"
    and lib: "io_lib io = sg_lib G" "io_lib io' = sg_lib G"
  shows "gw_ok G (g\<lparr>gw_sys := s'\<rparr>)"
proof -
  note okD = gw_okD [OF ok]
  have s': "sys_ok s'" by (rule sys_ok_step [OF Work [OF st] okD(1)])
  have kept: "stored G (gw_taken g) (sys_table s')"
    by (rule stored_kept [OF okD(3) worker_keeps_mails [OF st okD(1)]])
  from st okD(1) show ?thesis
  proof (cases rule: worker_hands)
    case silent
    then show ?thesis using okD s' kept by (simp add: gw_ok_def exchange_took_def)
  next
    case (mail row req config x)
    let ?hs = "es_handed (mw_out (gw_world g))"
    from ews_sender_hands [OF mail(4) okD(2) lib] obtain hs where
      hs: "store_ok (es_accounts (mw_out (sys_world s')))" "es_handed (mw_out (sys_world s')) = ?hs @ hs"
        "filter (\<lambda>h. handed_outcome h = None) hs = (if succeeded x then [last hs] else [])"
      and to: "succeeded x \<Longrightarrow> \<exists>cfg. (ews config = Some cfg \<or> ews_failover config = Some cfg)
        \<and> handed_ok (sg_lib G) cfg req (last hs)" by blast
    have "row_id row \<in> set (ids (gw_table g))"
      using mail(2) get_message_None_iff by (metis option.distinct(1))
    moreover have "set (ids (gw_table g)) = mail_id ` set (gw_taken g)"
      using okD(3) by (metis stored_def list.set_map)
    ultimately obtain im where im: "im \<in> set (gw_taken g)" "mail_id im = row_id row" by auto
    then have "carries G im row" using okD(3) mail(2) by (auto simp: stored_def)
    then have "req = mail_request config (snd im)" using mail(3) by (simp add: carries_def)
    then have "succeeded x \<Longrightarrow> delivered_as G (gw_taken g) (row_id row) (last hs)"
      using im to by (auto simp: delivered_as_def copy_of_def)
    then have "list_all2 (delivered_as G (gw_taken g)) (took_ids (sys_log s')) (exchange_took (g\<lparr>gw_sys := s'\<rparr>))"
      using okD(4) mail(1) hs(2,3) by (simp add: exchange_took_def list_all2_appendI)
    then show ?thesis using s' kept hs(1) by (simp add: gw_ok_def)
  qed
qed

lemma gw_ok_step [keep_inv]:
  assumes "gateway_step G g g'" and law: "aead_law (sg_crypto G)" and ok: "gw_ok G g"
  shows "gw_ok G g'"
  using assms(1)
proof (cases rule: gateway_step.cases)
  case (Auth peer mechanism login ts k au' w')
  note quiet = authenticate_quiet [OF Auth(2)]
  show ?thesis unfolding Auth(1) using gw_okD(2) [OF ok] quiet by (intro gw_ok_quiet [OF ok]) simp_all
next
  case (Data config peer e tick ins reply gate' w')
  note takes = handle_data_takes [OF Data(2)]
  show ?thesis
  proof (cases "take 3 reply = lit ''250''")
    case True
    with takes obtain m x where "data_mail config (gw_auth g) peer e = Some m"
      "accept_smtp (sg_crypto G) (sg_box G) (sg_lib G) ins m (gw_world g) = (Inr x, w')" by auto
    then show ?thesis
      using gw_ok_take [OF law ok, of "(ins, m)" "sg_lib G" x w' gate'] Data(1,3) True by (simp add: taken_by_def)
  next
    case False
    then have "taken_by reply ins m = []" for m by (simp add: taken_by_def split: option.split)
    then show ?thesis unfolding Data(1) using gw_okD(2) [OF ok] takes False
      by (intro gw_ok_quiet [OF ok]) simp_all
  qed
next
  case (Submit as_bytes ins sender rcpts subject body is_html username password x w' m)
  from gw_ok_take [OF law ok Submit(4), of "sg_lib G" x w' "sys_gate (gw_sys g)"] Submit(2,3)
  show ?thesis unfolding Submit(1) by (simp add: submit_test_accepts)
next
  case (Thread io io' s')
  show ?thesis unfolding Thread(1) by (rule gw_ok_thread [OF ok Thread(2,3,4)])
next
  case (Health io io' config h out)
  note quiet = health_quiet [OF Health(2) gw_okD(2) [OF ok]]
  show ?thesis unfolding Health(1) using quiet by (intro gw_ok_quiet [OF ok]) simp_all
next
  case (Look a h b)
  show ?thesis unfolding Look using gw_okD(2) [OF ok] by (intro gw_ok_quiet [OF ok]) simp_all
next
  case (Restart h b tls gate' domain)
  show ?thesis unfolding Restart by (intro gw_ok_quiet [OF ok]) simp_all
qed

lemma gw_ok_reachable:
  assumes "gateway_reachable G g" "aead_law (sg_crypto G)"
  shows "gw_ok G g"
  using assms(1)
proof (induction rule: gateway_reachable.induct)
  case (Start w gate domain)
  then have "sys_ok \<lparr>sys_world = w, sys_gate = gate, sys_phase = (\<lambda>_. Resting), sys_log = []\<rparr>"
    by (simp add: sys_ok_def table_ok_def distinct_ids_def ids_def log_ok_def one_owner_def phase_ok_def)
  then show ?case using Start by (simp add: gw_ok_def stored_def ids_def exchange_took_def)
next
  case (Step g g')
  then show ?case using gw_ok_step assms(2) by blast
qed

subsection \<open>The gateway, seen from outside\<close>

lemma accepted_count: "accepted k es = count_list (took_ids es) k"
proof (induction es rule: rev_induct)
  case (snoc e es)
  then show ?case by (cases e) (auto simp: count_list_append)
qed simp

lemma distinct_counts: "(\<And>x. count_list xs x \<le> 1) \<Longrightarrow> distinct xs"
proof (induction xs)
  case (Cons a xs)
  have "count_list xs a = 0" using Cons.prems [of a] by simp
  moreover have "count_list xs x \<le> 1" for x using Cons.prems [of x] by (simp split: if_splits)
  ultimately show ?case using Cons.IH count_list_0_iff [of xs a] by simp
qed simp

lemma choose_mails:
  assumes "list_all2 (\<lambda>k h. \<exists>im\<in>A. f im = k \<and> Q im h) ks hs"
  shows "\<exists>ims. map f ims = ks \<and> set ims \<subseteq> A \<and> list_all2 Q ims hs"
  using assms
proof (induction ks hs rule: list_all2_induct)
  case (Cons k ks h hs)
  then obtain im ims where "im \<in> A" "f im = k" "Q im h" "map f ims = ks" "set ims \<subseteq> A" "list_all2 Q ims hs"
    by blast
  then show ?case by (intro exI [of _ "im # ims"]) simp
qed simp

text \<open>Where a mail is, by the status of its row: \<open>ims\<close> are the mails that Exchange took.\<close>

definition status_tells ::
    "table \<Rightarrow> (insert_io \<times> new_message) list \<Rightarrow> insert_io \<times> new_message \<Rightarrow> bool" where
  "status_tells t ims im \<longleftrightarrow> (case map_option row_status (get_message t (mail_id im)) of
     None \<Rightarrow> False | Some SENT \<Rightarrow> im \<in> set ims | Some PROCESSING \<Rightarrow> True | Some _ \<Rightarrow> im \<notin> set ims)"

lemma status_by_log:
  assumes ok: "gw_ok G g" and im: "im \<in> set (gw_taken g)" and ims: "set ims \<subseteq> set (gw_taken g)"
    "map mail_id ims = took_ids (sys_log (gw_sys g))"
  shows "status_tells (gw_table g) ims im"
proof -
  note okD = gw_okD [OF ok]
  obtain r where r: "get_message (gw_table g) (mail_id im) = Some r"
    using okD(3) im by (auto simp: stored_def)
  have lg: "row_log_ok (sys_log (gw_sys g)) r" by (rule log_okD [OF sys_okD(3) [OF okD(1)] r])
  have "distinct (map mail_id (gw_taken g))"
    using okD(3) sys_okD(2) [OF okD(1)] by (simp add: stored_def distinct_ids_def)
  then have inj: "inj_on mail_id (set (gw_taken g))" by (simp add: distinct_map)
  have "im \<in> set ims \<longleftrightarrow> mail_id im \<in> set (map mail_id ims)"
    using inj im ims(1) by (auto dest: inj_onD)
  then have "im \<in> set ims \<longleftrightarrow> accepted (row_id r) (sys_log (gw_sys g)) \<noteq> 0"
    using get_message_SomeD [OF r] by (simp add: ims(2) accepted_count count_list_0_iff)
  then show ?thesis using lg r
    by (auto simp: status_tells_def row_log_ok_def split: message_status.splits)
qed


subsection \<open>What waits arrives, while the servers take it\<close>

text \<open>One row after the other is the mail of a client.\<close>

lemma stored_requests:
  assumes "stored G ims t" "set rs \<subseteq> set t" "distinct_ids t"
  shows "\<exists>js. set js \<subseteq> set ims \<and> map mail_id js = map row_id rs
    \<and> mapE (row_request (gateway_sender G io io') cfg) rs = Inr (map (\<lambda>im. mail_request cfg (snd im)) js)"
  using assms(2)
proof (induction rs)
  case (Cons r rs)
  then obtain js where js: "set js \<subseteq> set ims" "map mail_id js = map row_id rs"
    "mapE (row_request (gateway_sender G io io') cfg) rs = Inr (map (\<lambda>im. mail_request cfg (snd im)) js)" by auto
  have get: "get_message t (row_id r) = Some r" using Cons.prems get_message_member [OF assms(3)] by simp
  then have "row_id r \<in> set (ids t)" using get_message_None_iff by (metis option.distinct(1))
  moreover have "set (ids t) = mail_id ` set ims" using assms(1) by (metis stored_def list.set_map)
  ultimately obtain im where im: "im \<in> set ims" "mail_id im = row_id r" by auto
  then have "carries G im r" using assms(1) get by (auto simp: stored_def)
  with im js show ?case by (intro exI [of _ "im # js"]) (simp add: carries_def)
qed simp

text \<open>The requests a server took are the hand-overs it accepted.\<close>

lemma relay_took:
  assumes "takes_all (gateway_sender G io io') cfg reqs out" "store_ok (es_accounts out)"
    and "io_lib io = sg_lib G" "io_lib io' = sg_lib G"
  shows "\<exists>hs. filter (\<lambda>h. handed_outcome h = None) (es_handed (relay (gateway_sender G io io') cfg reqs out))
      = filter (\<lambda>h. handed_outcome h = None) (es_handed out) @ hs
    \<and> list_all2 (\<lambda>req h. \<exists>c. (ews cfg = Some c \<or> ews_failover cfg = Some c) \<and> handed_ok (sg_lib G) c req h) reqs hs"
  using assms(1,2)
proof (induction reqs arbitrary: out)
  case (Cons req reqs)
  obtain x out1 where hand: "hand_to_driver (gateway_sender G io io') cfg req out = (x, out1)" by fastforce
  then have x: "succeeded x" and more: "takes_all (gateway_sender G io io') cfg reqs out1"
    using Cons.prems(1) by simp_all
  from ews_sender_hands [OF hand Cons.prems(2) assms(3,4)] x obtain hs c where
    hs: "store_ok (es_accounts out1)" "es_handed out1 = es_handed out @ hs"
      "filter (\<lambda>h. handed_outcome h = None) hs = [last hs]"
    and c: "ews cfg = Some c \<or> ews_failover cfg = Some c" "handed_ok (sg_lib G) c req (last hs)" by auto
  from Cons.IH [OF more hs(1)] obtain hs2 where
    "filter (\<lambda>h. handed_outcome h = None) (es_handed (relay (gateway_sender G io io') cfg reqs out1))
      = filter (\<lambda>h. handed_outcome h = None) (es_handed out1) @ hs2"
    "list_all2 (\<lambda>req h. \<exists>c. (ews cfg = Some c \<or> ews_failover cfg = Some c) \<and> handed_ok (sg_lib G) c req h) reqs hs2"
    by blast
  with hs(2,3) c hand show ?case by (intro exI [of _ "last hs # hs2"]) (auto simp: relay_def)
qed (simp add: relay_def)

lemma drain_reaches_exchange:
  assumes ok: "gw_ok G g" and lib: "io_lib io = sg_lib G" "io_lib io' = sg_lib G"
    and S: "S = gateway_sender G io io'"
    and conf: "br_state (sys_gate (gw_sys g)) = CLOSED" "drv_configured (snd_driver S cfg) cfg"
    and turns: "list_all (turn_for cfg (backlog (gw_table g))) tks" "length ims < length tks"
    and ims: "map mail_id ims = map row_id (backlog (gw_table g))"
      "mapE (row_request S cfg) (backlog (gw_table g)) = Inr (map (\<lambda>im. mail_request cfg (snd im)) ims)"
    and up: "takes_all S cfg (map (\<lambda>im. mail_request cfg (snd im)) ims) (mw_out (gw_world g))"
  shows "\<exists>gate' w' hs. drain S tks False (sys_gate (gw_sys g), gw_world g) = (Some (Inr (ims \<noteq> [])), gate', w')
    \<and> filter (\<lambda>h. handed_outcome h = None) (es_handed (mw_out w')) = exchange_took g @ hs
    \<and> list_all2 (copy_of G) ims hs \<and> backlog (mw_table w') = []
    \<and> list_all (\<lambda>im. map_option row_status (get_message (mw_table w') (mail_id im)) = Some SENT) ims"
proof -
  note okD = gw_okD [OF ok]
  note d = sys_okD(2) [OF okD(1)]
  have "length (map (\<lambda>im. mail_request cfg (snd im)) ims) < length tks" using turns(2) by simp
  from drain_relays [OF d conf ims(2) up turns(1) this, of False] obtain gate' w' where
    run: "drain S tks False (sys_gate (gw_sys g), gw_world g)
        = (Some (Inr (False \<or> map (\<lambda>im. mail_request cfg (snd im)) ims \<noteq> [])), gate', w')"
      "mw_out w' = relay S cfg (map (\<lambda>im. mail_request cfg (snd im)) ims) (mw_out (gw_world g))"
      "backlog (mw_table w') = []" and dl: "all_delivered (gw_table g) (mw_table w')" by blast
  from relay_took [OF up [unfolded S] okD(2) lib] obtain hs where
    hs: "filter (\<lambda>h. handed_outcome h = None) (es_handed (mw_out w')) = exchange_took g @ hs"
    and each: "list_all2 (\<lambda>req h. \<exists>c. (ews cfg = Some c \<or> ews_failover cfg = Some c) \<and> handed_ok (sg_lib G) c req h)
      (map (\<lambda>im. mail_request cfg (snd im)) ims) hs"
    unfolding run(2) S exchange_took_def by blast
  have "list_all2 (copy_of G) ims hs"
    using each unfolding list_all2_map1 by (rule list_all2_mono) (auto simp: copy_of_def)
  moreover have "map_option row_status (get_message (mw_table w') (mail_id im)) = Some SENT" if "im \<in> set ims" for im
  proof -
    have "mail_id im \<in> set (map row_id (backlog (gw_table g)))" using that ims(1) [symmetric] by simp
    then obtain r where r: "r \<in> set (backlog (gw_table g))" "mail_id im = row_id r" by auto
    then have "get_message (gw_table g) (mail_id im) = Some r" "is_pending r"
      using get_message_member [OF d] by simp_all
    then show ?thesis
      using all_delivered_at [OF dl, of "mail_id im"] became_SomeD [of r "get_message (mw_table w') (mail_id im)"]
      by (auto simp: delivered_row_def)
  qed
  ultimately show ?thesis using run(1,3) hs by (auto simp: list_all_iff)
qed

text \<open>
  C2. What waits arrives: from every reachable state of the gateway, with the breaker closed and all
  waiting mails due, one drain of a worker hands exactly the mails that wait to Exchange, oldest
  first, and while the servers take them Exchange accepts them all in this order, each as the
  translation of the client's mail under the client's login; then nothing waits any more and each
  of these mails is SENT.
\<close>

theorem waiting_mail_reaches_exchange:
  fixes G g io io' cfg
  defines "S \<equiv> gateway_sender G io io'"
  assumes "gateway_reachable G g" "aead_law (sg_crypto G)" "io_lib io = sg_lib G" "io_lib io' = sg_lib G"
    and "br_state (sys_gate (gw_sys g)) = CLOSED" "backend cfg = EWS" "ews cfg \<noteq> None"
    and "list_all (turn_for cfg (backlog (gw_table g))) tks" "length (backlog (gw_table g)) < length tks"
  shows "\<exists>ims. set ims \<subseteq> set (gw_taken g) \<and> map mail_id ims = map row_id (backlog (gw_table g))
    \<and> (takes_all S cfg (map (\<lambda>im. mail_request cfg (snd im)) ims) (mw_out (gw_world g)) \<longrightarrow>
        (\<exists>gate' w' hs. drain S tks False (sys_gate (gw_sys g), gw_world g) = (Some (Inr (ims \<noteq> [])), gate', w')
          \<and> filter (\<lambda>h. handed_outcome h = None) (es_handed (mw_out w')) = exchange_took g @ hs
          \<and> list_all2 (copy_of G) ims hs \<and> backlog (mw_table w') = []
          \<and> list_all (\<lambda>im. map_option row_status (get_message (mw_table w') (mail_id im)) = Some SENT) ims))"
proof -
  note okD = gw_okD [OF gw_ok_reachable [OF assms(2,3)]]
  have "set (backlog (gw_table g)) \<subseteq> set (gw_table g)" by auto
  from stored_requests [OF okD(3) this sys_okD(2) [OF okD(1)], of io io' cfg] obtain ims where
    ims: "set ims \<subseteq> set (gw_taken g)" "map mail_id ims = map row_id (backlog (gw_table g))"
      "mapE (row_request S cfg) (backlog (gw_table g)) = Inr (map (\<lambda>im. mail_request cfg (snd im)) ims)"
    unfolding S_def by blast
  have conf: "drv_configured (snd_driver S cfg) cfg"
    using assms(7,8) by (simp add: S_def ews_sender_def resolve_driver_def ews_driver_def)
  have "length ims < length tks" using assms(10) ims(2) by (metis length_map)
  from drain_reaches_exchange [OF gw_ok_reachable [OF assms(2,3)] assms(4,5) S_def [THEN meta_eq_to_obj_eq]
      assms(6) conf assms(9) this ims(2,3)] ims(1,2)
  show ?thesis by blast
qed

subsection \<open>A gateway to run\<close>

definition toy_conf :: gateway_config where
  "toy_conf = sample_config\<lparr>ews := Some sample_tls\<rparr>"

definition up_io :: ews_io where
  "up_io = toy_io\<lparr>io_nets := (new_network, new_network)\<rparr>"

definition toy_au :: authenticator where
  "toy_au = remember (lit ''192.0.2.7'') \<lparr>sess_sanitized = \<lparr>sa_raw = [97], sa_username = [97], sa_domain = None,
     sa_ews_username = [97]\<rparr>, sess_password = [98]\<rparr> (new_authenticator None)"

definition toy_mail :: new_message where
  "toy_mail = smtp_message (lit ''192.0.2.7'') toy_envelope ([97], [98], [97], [97])"

definition toy_start :: gateway where
  "toy_start = \<lparr>gw_sys = \<lparr>sys_world = \<lparr>mw_table = [], mw_out = start_ews, mw_hub = None, mw_wake = False\<rparr>,
       sys_gate = fresh_breaker 5 60, sys_phase = (\<lambda>_. Resting), sys_log = []\<rparr>,
     gw_auth = new_authenticator None, gw_taken = []\<rparr>"

lemma toy_start_reachable: "gateway_reachable toy_gateway toy_start"
  unfolding toy_start_def by (rule Start) simp_all

text \<open>A server that is up takes a mail.\<close>

lemma up_takes:
  assumes "mail_from req = lit ''a@example.com''" "rcpt_tos req = [lit ''b@example.com'']"
    and "auth_username req = [97]"
  shows "succeeded (fst (hand_to_driver (ews_sender C box up_io up_io) toy_conf req start_ews))"
proof -
  have ok: "cache_ok (ts_cache (start_tls None))" by (simp add: cache_ok_reachable tls_reachable.Start)
  obtain neg tls where tls: "prepare_ews_tls new_network sample_tls False (start_tls None) = (Inr neg, tls)"
    using prepare_new_network [OF ok sample_target] by blast
  have primary: "resolve_primary_smtp (\<lambda>s. s) [97] (Some (lit ''a@example.com'')) sample_tls None
      = Inr (lit ''a@example.com'')" by code_simp
  have "server_url sample_tls \<noteq> []" by (simp add: sample_tls_def)
  then obtain acc st1 where acc: "build_account new_network toy_exchange toy_lib [97] (auth_password req) sample_tls
      (Some (lit ''a@example.com'')) None start_ews = (Inr acc, st1)"
    using tls primary by (simp add: build_account_def Let_def cache_get_def toy_exchange_def toy_lib_def)
  have "\<exists>msg. build_ews_message toy_lib (lit ''a@example.com'') [lit ''b@example.com''] m = Inr msg" for m
    by (simp add: build_ews_message_def toy_lib_def message_bodies_def part_text_def
        recipients_from_envelope_def looks_like_email_def Let_def lit_def)
  then obtain msg where "build_ews_message toy_lib (mail_from req) (rcpt_tos req) (mime_bytes req) = Inr msg"
    using assms by auto
  then have "\<exists>y st'. attempt new_network toy_exchange toy_lib sample_tls req None False start_ews = (Inr y, st')"
    using acc assms by (simp add: attempt_def hand_over_def toy_exchange_def Let_def)
  then show ?thesis
    by (auto simp: hand_to_driver_def ews_sender_def resolve_driver_def ews_driver_def ews_send_def require_ews_def
        send_via_def send_mime_def up_io_def toy_io_def toy_conf_def sample_config_def)
qed

abbreviation toy_w :: "ews_state mail_world" where
  "toy_w \<equiv> gw_world toy_start"

lemma toy_login:
  "authenticate (lit ''192.0.2.7'') (Some (lit ''plain'')) (Some ([97], [98])) []
     (new_authenticator None, toy_w) = (True, toy_au, toy_w)"
proof -
  have d: "utf8_decode_replace [97] = [97]" "utf8_decode_replace [98] = [98]"
    by (simp_all add: utf8_decode_replace_def of_bytes_def)
  have "plain_part [97]" by (simp add: plain_part_def is_space_def)
  from sanitize_plain [OF this, of None] have "sanitize_username [97] None
      = Inr \<lparr>sa_raw = [97], sa_username = [97], sa_domain = None, sa_ews_username = [97]\<rparr>" by simp
  moreover have "upper (lit ''plain'') = lit ''PLAIN''" by (simp add: upper_def upper_cp_def lit_def)
  ultimately show ?thesis
    by (simp add: authenticate_def Let_def d toy_au_def new_authenticator_def publish_def toy_start_def)
qed

lemma toy_answered:
  "\<exists>row w'. handle_data toy_gateway toy_conf toy_au (lit ''192.0.2.7'') toy_envelope 0 toy_ins
       (Some (fresh_breaker 5 60), toy_w) = (reply_accepted, Some (fresh_breaker 5 60), w')
     \<and> mw_table w' = [row] \<and> mw_out w' = start_ews \<and> row_of_mail (gateway_sender toy_gateway io io') toy_conf (toy_ins, toy_mail) row"
proof -
  have got: "get_auth toy_au (lit ''192.0.2.7'') = Some \<lparr>sess_sanitized = \<lparr>sa_raw = [97], sa_username = [97],
      sa_domain = None, sa_ews_username = [97]\<rparr>, sess_password = [98]\<rparr>"
    unfolding toy_au_def by (simp add: peers.lookup_put)
  have conf: "ews toy_conf = Some sample_tls" by (simp add: toy_conf_def)
  have ch: "check_backpressure (sg_env toy_gateway) (sg_max_pending toy_gateway) 0 (Some (fresh_breaker 5 60)) toy_w
      = (None, Some (fresh_breaker 5 60), toy_w)"
    by (simp add: check_backpressure_def circuit_is_open_def breaker_state_def maybe_half_open_def fresh_breaker_def
        count_pending_def toy_gateway_def toy_start_def)
  have m: "list_all is_scalar (nm_password toy_mail)"
    "bindable (toy_mail\<lparr>nm_subject := or_empty (msg_subject (parse_mime (sg_lib toy_gateway) (nm_mime toy_mail)))\<rparr>)"
    by (simp_all add: toy_mail_def smtp_message_def bindable_def toy_gateway_def toy_lib_def toy_envelope_def
        is_scalar_def lit_def)
  have fresh: "get_message (mw_table toy_w) (new_message_id (ins_uuid toy_ins)) = None" by (simp add: toy_start_def)
  obtain x w' row where acc: "accept_smtp (sg_crypto toy_gateway) (sg_box toy_gateway) (sg_lib toy_gateway) toy_ins
      toy_mail toy_w = (Inr x, w')"
    using accept_fresh [OF m fresh] by blast
  have ok: "mail_ok (toy_ins, toy_mail)"
    by (simp add: mail_ok_def toy_ins_def toy_mail_def smtp_message_def toy_envelope_def is_scalar_def lit_def)
  obtain row where "row_of_mail (gateway_sender toy_gateway io io') toy_conf (toy_ins, toy_mail) row"
    "mw_table w' = mw_table toy_w @ [row]" "mw_out w' = mw_out toy_w"
    using accepted_row_of_mail [of "gateway_sender toy_gateway io io'" toy_ins toy_mail "sg_lib toy_gateway" toy_w x w'
      toy_conf] ok acc by (auto simp: ews_sender_def toy_gateway_def)
  moreover have "handle_data toy_gateway toy_conf toy_au (lit ''192.0.2.7'') toy_envelope 0 toy_ins
      (Some (fresh_breaker 5 60), toy_w) = (reply_accepted, Some (fresh_breaker 5 60), w')"
    using handle_data_relayed [OF _ conf ch, of toy_au "lit ''192.0.2.7''" toy_envelope toy_ins] got acc
    by (simp add: mail_identity_def toy_mail_def)
  ultimately show ?thesis by (auto simp: toy_start_def)
qed

text \<open>A client logs in and hands in a mail; a worker claims it and hands it to Exchange.\<close>

lemma toy_taken:
  obtains g row where "gateway_reachable toy_gateway g" "gw_taken g = [(toy_ins, toy_mail)]"
    "sys_table (gw_sys g) = [row]" "sys_phase (gw_sys g) = (\<lambda>_. Resting)" "sys_gate (gw_sys g) = fresh_breaker 5 60"
    "mw_out (gw_world g) = start_ews" "row_of_mail (gateway_sender toy_gateway up_io up_io) toy_conf (toy_ins, toy_mail) row"
proof -
  let ?g1 = "toy_start\<lparr>gw_auth := toy_au\<rparr>"
  have "gateway_step toy_gateway toy_start ?g1"
    using Auth [of "lit ''192.0.2.7''" "Some (lit ''plain'')" "Some ([97], [98])" "[]" toy_start True toy_au toy_w]
      toy_login by (simp add: toy_start_def)
  with toy_start_reachable have r1: "gateway_reachable toy_gateway ?g1" by (rule gateway_reachable.Step)
  from toy_answered [of up_io up_io] obtain row w' where
    ans: "handle_data toy_gateway toy_conf toy_au (lit ''192.0.2.7'') toy_envelope 0 toy_ins
       (Some (fresh_breaker 5 60), toy_w) = (reply_accepted, Some (fresh_breaker 5 60), w')"
    and w': "mw_table w' = [row]" "mw_out w' = start_ews"
    and row: "row_of_mail (gateway_sender toy_gateway up_io up_io) toy_conf (toy_ins, toy_mail) row" by blast
  have got: "data_mail toy_conf toy_au (lit ''192.0.2.7'') toy_envelope = Some toy_mail"
    by (simp add: data_mail_def toy_conf_def toy_au_def peers.lookup_put mail_identity_def toy_mail_def)
  have took: "taken_by reply_accepted toy_ins (Some toy_mail) = [(toy_ins, toy_mail)]"
    by (simp add: taken_by_def)
  have "mail_ok (toy_ins, toy_mail)"
    by (simp add: mail_ok_def toy_ins_def toy_mail_def smtp_message_def toy_envelope_def is_scalar_def lit_def)
  then have "gateway_step toy_gateway ?g1 (?g1\<lparr>gw_sys := (gw_sys ?g1)\<lparr>sys_world := w', sys_gate := fresh_breaker 5 60\<rparr>,
      gw_taken := gw_taken ?g1 @ [(toy_ins, toy_mail)]\<rparr>)" (is "gateway_step _ _ ?g2")
    using Data [of toy_gateway toy_conf ?g1 "lit ''192.0.2.7''" toy_envelope 0 toy_ins reply_accepted
      "fresh_breaker 5 60" w'] ans got took by (simp add: toy_start_def)
  with r1 have "gateway_reachable toy_gateway ?g2" by (rule gateway_reachable.Step)
  then show thesis by (rule that [of ?g2 row]) (use w' row in \<open>simp_all add: toy_start_def\<close>)
qed

lemma toy_taken_claimed:
  obtains g row where "gateway_reachable toy_gateway g" "gw_taken g = [(toy_ins, toy_mail)]"
    "sys_phase (gw_sys g) 0 = Holding row" "mw_out (gw_world g) = start_ews"
    "row_request (gateway_sender toy_gateway up_io up_io) toy_conf row = Inr (mail_request toy_conf toy_mail)"
proof -
  let ?S = "gateway_sender toy_gateway up_io up_io"
  have lib: "io_lib up_io = sg_lib toy_gateway" by (simp add: up_io_def toy_io_def toy_gateway_def)
  obtain g row where g: "gateway_reachable toy_gateway g" "gw_taken g = [(toy_ins, toy_mail)]"
    "sys_table (gw_sys g) = [row]" "sys_phase (gw_sys g) = (\<lambda>_. Resting)" "sys_gate (gw_sys g) = fresh_breaker 5 60"
    "mw_out (gw_world g) = start_ews" "row_of_mail ?S toy_conf (toy_ins, toy_mail) row" by (rule toy_taken)
  have al: "allow 0 (sys_gate (gw_sys g)) = (True, fresh_breaker 5 60)"
    by (simp add: g(5) allow_def maybe_half_open_def fresh_breaker_def)
  have due: "is_due 5 row" using g(7) by (simp add: row_of_mail_def is_due_def toy_ins_def)
  obtain s1 s2 where s: "worker_step ?S (gw_sys g) s1" "worker_step ?S s1 s2"
    "sys_phase s2 0 = Holding (claimed 5 row)" "mw_out (sys_world s2) = mw_out (gw_world g)"
    by (rule claim_run [OF g(3,4) al due, of ?S])
  from gateway_reachable.Step [OF g(1) Thread [OF s(1) lib lib]]
  have r: "gateway_reachable toy_gateway (g\<lparr>gw_sys := s1\<rparr>)" .
  from gateway_reachable.Step [OF r Thread [of _ _ _ "g\<lparr>gw_sys := s1\<rparr>" s2, OF _ lib lib]] s(2)
  have "gateway_reachable toy_gateway (g\<lparr>gw_sys := s2\<rparr>)" by simp
  moreover have "row_request ?S toy_conf (claimed 5 row) = Inr (mail_request toy_conf toy_mail)"
    using g(7) row_request_mail [OF row_mail_claimed] by (simp add: row_of_mail_def)
  ultimately show thesis
    using g(2,6) s(3,4) by (intro that [of "g\<lparr>gw_sys := s2\<rparr>" "claimed 5 row"]) simp_all
qed


theorem waiting_mail_reaches_exchange_witness:
  "\<exists>g gate' w' h. gateway_reachable toy_gateway g
    \<and> drain (gateway_sender toy_gateway up_io up_io) [toy_tick\<lparr>tk_config := toy_conf\<rparr>, toy_tick\<lparr>tk_config := toy_conf\<rparr>]
        False (sys_gate (gw_sys g), gw_world g) = (Some (Inr True), gate', w')
    \<and> filter (\<lambda>h. handed_outcome h = None) (es_handed (mw_out w')) = [h] \<and> copy_of toy_gateway (toy_ins, toy_mail) h"
proof -
  let ?S = "gateway_sender toy_gateway up_io up_io" and ?tk = "toy_tick\<lparr>tk_config := toy_conf\<rparr>"
  obtain g row where g: "gateway_reachable toy_gateway g" "gw_taken g = [(toy_ins, toy_mail)]"
    "sys_table (gw_sys g) = [row]" "sys_gate (gw_sys g) = fresh_breaker 5 60" "mw_out (gw_world g) = start_ews"
    "row_of_mail ?S toy_conf (toy_ins, toy_mail) row" by (rule toy_taken)
  have law: "aead_law (sg_crypto toy_gateway)" and lib: "io_lib up_io = sg_lib toy_gateway"
    by (simp_all add: up_io_def toy_io_def toy_gateway_def)
  have bl: "backlog (gw_table g) = [row]" using g(6) by (simp add: backlog_def g(3) row_of_mail_def)
  have turns: "list_all (turn_for toy_conf (backlog (gw_table g))) [?tk, ?tk]"
    using g(6) by (simp add: bl turn_for_def toy_tick_def row_of_mail_def is_due_def toy_ins_def)
  have closed: "br_state (sys_gate (gw_sys g)) = CLOSED" using g(4) by (simp add: fresh_breaker_def)
  have conf: "backend toy_conf = EWS" "ews toy_conf \<noteq> None" by (simp_all add: toy_conf_def sample_config_def)
  have "length (backlog (gw_table g)) < length [?tk, ?tk]" by (simp add: bl)
  from waiting_mail_reaches_exchange [OF g(1) law lib lib closed conf turns this] obtain ims where
    ims: "set ims \<subseteq> set (gw_taken g)" "map mail_id ims = map row_id (backlog (gw_table g))"
    and run: "takes_all ?S toy_conf (map (\<lambda>im. mail_request toy_conf (snd im)) ims) (mw_out (gw_world g)) \<longrightarrow>
        (\<exists>gate' w' hs. drain ?S [?tk, ?tk] False (sys_gate (gw_sys g), gw_world g) = (Some (Inr (ims \<noteq> [])), gate', w')
          \<and> filter (\<lambda>h. handed_outcome h = None) (es_handed (mw_out w')) = exchange_took g @ hs
          \<and> list_all2 (copy_of toy_gateway) ims hs \<and> backlog (mw_table w') = []
          \<and> list_all (\<lambda>im. map_option row_status (get_message (mw_table w') (mail_id im)) = Some SENT) ims)"
    by blast
  have one: "ims = [(toy_ins, toy_mail)]" using ims by (auto simp: bl g(2) map_eq_Cons_conv)
  have "succeeded (fst (hand_to_driver ?S toy_conf (mail_request toy_conf toy_mail) start_ews))"
    by (rule up_takes) (simp_all add: mail_request_def toy_mail_def smtp_message_def toy_envelope_def)
  then have "takes_all ?S toy_conf (map (\<lambda>im. mail_request toy_conf (snd im)) ims) (mw_out (gw_world g))"
    by (auto simp: one g(5) split: prod.split)
  with run obtain gate' w' hs where
    "drain ?S [?tk, ?tk] False (sys_gate (gw_sys g), gw_world g) = (Some (Inr True), gate', w')"
    "filter (\<lambda>h. handed_outcome h = None) (es_handed (mw_out w')) = hs" "list_all2 (copy_of toy_gateway) ims hs"
    by (auto simp: one exchange_took_def g(5) simp del: drain.simps)
  with g(1) show ?thesis by (auto simp: one list_all2_Cons1 simp del: drain.simps)
qed

end
