(* ===== verification/Queue_Retries.thy ===== *)
theory Queue_Retries
  imports End_To_End
begin

section \<open>Retries come to an end\<close>

text \<open>
  The polls of a worker over time (queue/worker.py \<open>_run\<close>, queue/backoff.py): between two drains at
  least the longest delay of a retry and the cool-down of the breaker pass, and the servers may answer
  every poll differently. Every poll that finds a waiting row makes an attempt, so after as many
  polls as there are attempts left, eight per mail, nothing waits any more.
\<close>

text \<open>The longest delay of a retry, in microseconds.\<close>

definition longest_delay :: int where
  "longest_delay = 300 * 1000000"

lemma retry_delay_bounded: "retry_delay_us n \<le> longest_delay"
  by (simp add: retry_delay_us_def longest_delay_def)

record 'w poll =
  pl_sender :: "'w sender"
  pl_now :: time
  pl_mono :: secs
  pl_ticks :: "tick list"

fun polls :: "'w poll list \<Rightarrow> breaker \<times> 'w mail_world \<Rightarrow> (breaker \<times> 'w mail_world) option" where
  "polls [] st = Some st"
| "polls (p # ps) st =
     (case run_round (pl_sender p) (pl_ticks p) False st of
        (None, _) \<Rightarrow> None
      | (Some _, st') \<Rightarrow> polls ps st')"

text \<open>The turns of a poll come after its start, and the next poll comes late enough.\<close>

definition in_time :: "'w poll \<Rightarrow> bool" where
  "in_time p \<longleftrightarrow> list_all (\<lambda>tk. \<not> tk_stop tk \<and> pl_now p \<le> tk_select tk \<and> pl_mono p \<le> tk_allow tk) (pl_ticks p)"

definition waits_for :: "secs \<Rightarrow> 'w poll \<Rightarrow> 'w poll \<Rightarrow> bool" where
  "waits_for cd p q \<longleftrightarrow> pl_now p \<le> pl_now q \<and> pl_mono p \<le> pl_mono q
     \<and> list_all (\<lambda>tk. tk_now tk + longest_delay \<le> pl_now q \<and> tk_record tk + cd \<le> pl_mono q) (pl_ticks p)"

fun spaced :: "secs \<Rightarrow> 'w poll list \<Rightarrow> bool" where
  "spaced cd [] = True"
| "spaced cd [p] = in_time p"
| "spaced cd (p # q # ps) = (in_time p \<and> waits_for cd p q \<and> spaced cd (q # ps))"

subsection \<open>One attempt, as a retry sees it\<close>

text \<open>What an attempt leaves of a row: the same mail, one attempt more, settled, due before long.\<close>

definition tried :: "time \<Rightarrow> message_row \<Rightarrow> message_row \<Rightarrow> bool" where
  "tried limit r r' \<longleftrightarrow> row_id r' = row_id r \<and> row_mail r' = row_mail r \<and> attempts r' = attempts r + 1
     \<and> settled_status r' \<and> (is_pending r' \<longrightarrow> is_due limit r')"

lemma is_due_later: "is_due now r \<Longrightarrow> now \<le> later \<Longrightarrow> is_due later r"
  by (auto simp: is_due_def split: option.splits)

lemma outcome_due: "is_pending (outcome now x r) \<Longrightarrow> is_due (now + longest_delay) (outcome now x r)"
  using retry_delay_bounded [of "attempts r"]
  by (auto simp: is_due_def outcome_def mark_outcome_def is_pending_def split: sum.splits if_splits)

lemma process_row_tried:
  assumes run: "process_row S cfg True now ts (claimed now' r) w = (Inr y, w')"
    and row: "get_message (mw_table w) (row_id r) = Some (claimed now' r)" and N: "now + longest_delay \<le> limit"
  shows "\<exists>r'. row_changed (mw_table w) r' (mw_table w') \<and> tried limit r r'"
proof (cases "drv_configured (snd_driver S cfg) cfg")
  case True
  note b = begin_claimed [OF True, of now "claimed now' r" w]
  obtain x out where "settle now ts (claimed now' r) x (w\<lparr>mw_out := out\<rparr>) = (Inr y, w')"
    using run b by (auto simp: process_row_def deliver_def split: sum.splits prod.splits)
  from settle_changes(1) [OF this] have "row_changed (mw_table w) (outcome now x (claimed now' r)) (mw_table w')"
    using row by simp
  moreover have "tried limit r (outcome now x (claimed now' r))"
    using is_due_later [OF outcome_due N] by (simp add: tried_def)
  ultimately show ?thesis by blast
next
  case False
  obtain w1 where b: "begin_delivery S cfg True now (claimed now' r) w = (None, w1)"
    using begin_unconfigured [OF False] by blast
  then have "w' = w1" using run by (simp add: process_row_def)
  moreover from b row obtain r' where "row_changed (mw_table w) r' (mw_table w1)" "row_id r' = row_id r"
    "attempts r' = attempts r + 1" "row_status r' = FAILED" "row_mail r' = row_mail r"
    by (rule_tac begin_None) auto
  ultimately show ?thesis by (auto simp: tried_def settled_status_def is_pending_def)
qed

lemma process_row_total:
  assumes run: "process_row S cfg True now ts row w = (res, w')"
    and row: "get_message (mw_table w) (row_id row) = Some row" and req: "row_request S cfg row = Inr req"
  shows "\<exists>y. res = Inr y"
proof (cases "drv_configured (snd_driver S cfg) cfg")
  case True
  obtain x out where "hand_to_driver S cfg req (mw_out w) = (x, out)" by fastforce
  then have "settle now ts row x (w\<lparr>mw_out := out\<rparr>) = (res, w')"
    using run begin_claimed [OF True, of now row w] req by (simp add: process_row_def deliver_def)
  from settle_changes(3) [OF this] row show ?thesis by simp
next
  case False
  then show ?thesis using run begin_unconfigured [OF False, of True now row w] by (auto simp: process_row_def)
qed

text \<open>A row that can be read back: its request can be made, whatever the configuration says.\<close>

definition readable :: "crypto \<Rightarrow> secret_box \<Rightarrow> message_row \<Rightarrow> bool" where
  "readable C box r \<longleftrightarrow> succeeded (get_password C box r) \<and> succeeded (get_mime_bytes r) \<and> succeeded (row_rcpts r)"

lemma readable_request: "succeeded (row_request S cfg r) = readable (snd_crypto S) (snd_box S) r"
  by (cases "get_password (snd_crypto S) (snd_box S) r"; cases "get_mime_bytes r"; cases "row_rcpts r")
    (simp_all add: row_request_def readable_def)

lemma readable_mail: "row_mail r' = row_mail r \<Longrightarrow> readable C box r' = readable C box r"
  by (simp add: readable_def row_mail_def get_password_def get_mime_bytes_def row_rcpts_def)

lemma drain_step_tries:
  assumes d: "distinct_ids (mw_table w)" and run: "drain_step S tk (gate, w) = (k, gate', w')"
    and read: "list_all (readable (snd_crypto S) (snd_box S)) (backlog (mw_table w))" and N: "tk_now tk + longest_delay \<le> limit"
  shows "case k of
      Worked \<Rightarrow> \<exists>r r'. get_message (mw_table w) (row_id r) = Some r \<and> is_pending r
        \<and> row_changed (mw_table w) r' (mw_table w') \<and> tried limit r r'
    | Raised e \<Rightarrow> False
    | _ \<Rightarrow> mw_table w' = mw_table w"
proof -
  obtain ok gate1 where al: "allow (tk_allow tk) gate = (ok, gate1)" by fastforce
  obtain x t1 where cl: "claim_next (tk_select tk) (tk_claim tk) (mw_table w) = (x, t1)" by fastforce
  show ?thesis
  proof (cases "tk_stop tk \<or> \<not> ok \<or> x = None")
    case True
    then show ?thesis using run al cl claim_next_effect [OF d cl]
      by (auto simp: drain_step_def split: if_splits)
  next
    case False
    then obtain row where x: "x = Some row" by auto
    with claim_next_effect [OF d cl] obtain r where r: "get_message (mw_table w) (row_id r) = Some r"
      "is_pending r" "row = claimed (tk_claim tk) r" "row_changed (mw_table w) row t1" by auto
    let ?w1 = "on_metrics inc_in_flight (w\<lparr>mw_table := t1\<rparr>)"
    obtain res w2 where pr: "process_row S (tk_config tk) True (tk_now tk) (tk_ts tk) (claimed (tk_claim tk) r) ?w1
        = (res, w2)" by fastforce
    have row: "get_message (mw_table ?w1) (row_id r) = Some (claimed (tk_claim tk) r)"
      using row_changed_get [OF r(4), of "row_id r"] r(3) by simp
    have "r \<in> set (backlog (mw_table w))" using r(1,2) get_message_SomeD by fastforce
    then have "succeeded (row_request S (tk_config tk) r)"
      using read by (simp add: list_all_iff readable_request)
    then obtain req where req: "row_request S (tk_config tk) r = Inr req"
      by (cases "row_request S (tk_config tk) r") simp_all
    have "\<exists>y. res = Inr y"
      using process_row_total [OF pr] row req r(3) by simp
    then obtain y where y: "res = Inr y" by blast
    from process_row_tried [OF pr [unfolded y] row N] obtain r' where
      r': "row_changed t1 r' (mw_table w2)" "tried limit r r'" by auto
    then have "row_changed (mw_table w) r' (mw_table w2)"
      using row_changed_trans [OF r(4)] r(3) by (simp add: tried_def)
    moreover have "k = Worked" "mw_table w' = mw_table w2"
      using run al cl False x pr y r(3) by (auto simp: drain_step_def Let_def)
    ultimately show ?thesis using r(1,2) r'(2) by auto
  qed
qed

subsection \<open>From one poll to the next\<close>

definition due_by :: "time \<Rightarrow> table \<Rightarrow> bool" where
  "due_by limit t \<longleftrightarrow> list_all (is_due limit) (backlog t)"

definition cooled :: "secs \<Rightarrow> breaker \<Rightarrow> bool" where
  "cooled clk gate \<longleftrightarrow> (if br_state gate = OPEN then cooldown_seconds gate \<le> clk - br_opened_at gate else True)"

text \<open>A row that waited waits or is SENT or FAILED; no other row changes.\<close>

definition row_advanced :: "message_row \<Rightarrow> message_row \<Rightarrow> bool" where
  "row_advanced r r' \<longleftrightarrow> row_mail r' = row_mail r \<and> attempts r \<le> attempts r'
     \<and> (if is_pending r then is_pending r' \<or> row_status r' \<in> {SENT, FAILED} else r' = r)"

definition advanced :: "table \<Rightarrow> table \<Rightarrow> bool" where
  "advanced t t' \<longleftrightarrow> ids t' = ids t \<and> (\<forall>k r. get_message t k = Some r
     \<longrightarrow> (\<exists>r'. get_message t' k = Some r' \<and> row_advanced r r'))"

lemma advanced_refl [simp]: "advanced t t"
  by (simp add: advanced_def row_advanced_def)

lemma advancedD: "advanced t t' \<Longrightarrow> get_message t k = Some r \<Longrightarrow> \<exists>r'. get_message t' k = Some r' \<and> row_advanced r r'"
  by (simp add: advanced_def)

lemma row_advanced_trans: "row_advanced r r1 \<Longrightarrow> row_advanced r1 r2 \<Longrightarrow> row_advanced r r2"
  by (auto simp: row_advanced_def is_pending_def split: if_splits)

lemma advanced_trans:
  assumes "advanced t t1" "advanced t1 t2"
  shows "advanced t t2"
proof -
  have "\<exists>r'. get_message t2 k = Some r' \<and> row_advanced r r'" if "get_message t k = Some r" for k r
    using advancedD [OF assms(1) that] advancedD [OF assms(2)] row_advanced_trans by blast
  then show ?thesis using assms by (simp add: advanced_def)
qed

lemma tried_advances:
  assumes "get_message t (row_id r) = Some r" "is_pending r" "row_changed t r' t'" "tried limit r r'"
  shows "advanced t t'"
  using assms by (auto simp: advanced_def row_changed_def tried_def row_advanced_def settled_status_def is_pending_def)

lemma backlog_advanced:
  assumes "distinct_ids t" "advanced t t'" "list_all (readable C box) (backlog t)"
  shows "list_all (readable C box) (backlog t')"
  unfolding list_all_iff
proof
  fix x assume x: "x \<in> set (backlog t')"
  have d': "distinct_ids t'" using assms(1,2) by (simp add: advanced_def distinct_ids_def)
  then have get: "get_message t' (row_id x) = Some x" "is_pending x" using x get_message_member by auto
  then have "row_id x \<in> set (ids t)" using in_ids [OF get(1)] assms(2) by (simp add: advanced_def)
  then obtain r where r: "get_message t (row_id x) = Some r"
    using get_message_None_iff [of t "row_id x"] by auto
  with advancedD [OF assms(2) r] get have "row_advanced r x" by simp
  then have adv: "row_mail x = row_mail r" "is_pending r"
    using get(2) by (auto simp: row_advanced_def split: if_splits)
  then have "r \<in> set (backlog t)" using get_message_SomeD [OF r] by simp
  then show "readable C box x"
    using assms(3) by (simp add: list_all_iff readable_mail [OF adv(1)])
qed

lemma due_by_changed:
  assumes "distinct_ids t" "due_by limit t" "row_changed t r' t'" "is_pending r' \<Longrightarrow> is_due limit r'"
  shows "due_by limit t'"
  unfolding due_by_def list_all_iff
proof
  fix x assume x: "x \<in> set (backlog t')"
  have "distinct_ids t'" using assms(1) row_changed_ids [OF assms(3)] by (simp add: distinct_ids_def)
  then have x': "get_message t' (row_id x) = Some x" "is_pending x" using x get_message_member by auto
  show "is_due limit x"
  proof (cases "row_id x = row_id r'")
    case True
    then have "x = r'" using x'(1) by (simp add: row_changed_get [OF assms(3)])
    then show ?thesis using assms(4) x'(2) by simp
  next
    case False
    then have "get_message t (row_id x) = Some x" using x'(1) by (simp add: row_changed_get [OF assms(3)])
    then have "x \<in> set (backlog t)" using get_message_SomeD [of t "row_id x" x] x'(2) by simp
    then show ?thesis using assms(2) by (simp add: due_by_def list_all_iff)
  qed
qed

lemma due_by_later: "due_by now t \<Longrightarrow> now \<le> later \<Longrightarrow> due_by later t"
  by (auto simp: due_by_def list_all_iff intro: is_due_later)

lemma cooled_later: "cooled clk gate \<Longrightarrow> clk \<le> later \<Longrightarrow> cooled later gate"
  by (auto simp: cooled_def split: if_splits)

lemma cooled_allows: "cooled clk gate \<Longrightarrow> clk \<le> now \<Longrightarrow> \<exists>gate1. allow now gate = (True, gate1)"
  by (auto simp: cooled_def allow_def maybe_half_open_def Let_def split: if_splits)

lemma drain_step_cooled:
  assumes "drain_step S tk (gate, w) = (k, gate', w')"
  shows "cooldown_seconds gate' = cooldown_seconds gate"
    and "cooled clk gate \<Longrightarrow> tk_record tk + cooldown_seconds gate \<le> clk \<Longrightarrow> cooled clk gate'"
proof -
  have "gate' = gate \<or> gate' = maybe_half_open (tk_allow tk) gate
      \<or> (\<exists>i t. gate' = record_outcome (tk_record tk) i t (maybe_half_open (tk_allow tk) gate))"
    using assms by (auto simp: drain_step_def allow_def Let_def split: if_splits prod.splits option.splits sum.splits)
  moreover have "cooldown_seconds (maybe_half_open a gate) = cooldown_seconds gate
      \<and> (cooled clk gate \<longrightarrow> cooled clk (maybe_half_open a gate))" for a
    by (auto simp: maybe_half_open_def cooled_def)
  moreover have "cooldown_seconds (record_outcome b i t g) = cooldown_seconds g
      \<and> (cooled clk g \<longrightarrow> b + cooldown_seconds g \<le> clk \<longrightarrow> cooled clk (record_outcome b i t g))" for b i t g
    by (auto simp: record_outcome_def record_success_def record_failure_def cooled_def Let_def
        split: option.split message_status.split)
  ultimately show "cooldown_seconds gate' = cooldown_seconds gate"
    and "cooled clk gate \<Longrightarrow> tk_record tk + cooldown_seconds gate \<le> clk \<Longrightarrow> cooled clk gate'"
    by metis+
qed

subsection \<open>A drain\<close>

lemma drain_step_advances:
  assumes ok: "table_ok (mw_table w)" and run: "drain_step S tk (gate, w) = (k, gate', w')"
    and read: "list_all (readable (snd_crypto S) (snd_box S)) (backlog (mw_table w))"
  shows "advanced (mw_table w) (mw_table w') \<and> (\<forall>e. k \<noteq> Raised e)"
    and "due_by limit (mw_table w) \<Longrightarrow> tk_now tk + longest_delay \<le> limit \<Longrightarrow> due_by limit (mw_table w')"
proof -
  have d: "distinct_ids (mw_table w)" using ok by (simp add: table_ok_def)
  note step = drain_step_tries [OF d run read]
  show "advanced (mw_table w) (mw_table w') \<and> (\<forall>e. k \<noteq> Raised e)"
    using step [OF order_refl] tried_advances by (cases k) auto
  show "due_by limit (mw_table w')" if "due_by limit (mw_table w)" "tk_now tk + longest_delay \<le> limit"
    using step [OF that(2)] that(1) due_by_changed [OF d that(1)] by (cases k) (auto simp: tried_def)
qed

lemma advanced_distinct: "advanced t t' \<Longrightarrow> distinct_ids t' = distinct_ids t"
  by (simp add: advanced_def distinct_ids_def)

text \<open>What a drain keeps: the mails advance, and what is due and cooled by a time stays so.\<close>

lemma drain_advances:
  assumes "table_ok (mw_table w)" "drain S tks d (gate, w) = (x, gate', w')"
    and "list_all (readable (snd_crypto S) (snd_box S)) (backlog (mw_table w))"
  shows "advanced (mw_table w) (mw_table w') \<and> load (mw_table w') \<le> load (mw_table w)
    \<and> cooldown_seconds gate' = cooldown_seconds gate"
  using assms
proof (induction tks arbitrary: d gate w)
  case (Cons tk tks)
  obtain k gate1 w1 where st: "drain_step S tk (gate, w) = (k, gate1, w1)" by (metis prod_cases3)
  note one = drain_step_advances(1) [OF Cons.prems(1) st Cons.prems(3)] and cool = drain_step_cooled(1) [OF st]
  show ?case
  proof (cases k)
    case Worked
    have d: "distinct_ids (mw_table w)" using Cons.prems(1) by (simp add: table_ok_def)
    have "drain S tks True (gate1, w1) = (x, gate', w')" using Worked Cons.prems(2) st by simp
    from Cons.IH [OF drain_step_keeps [OF st Cons.prems(1)] this backlog_advanced [OF d conjunct1 [OF one] Cons.prems(3)]]
    show ?thesis
      using one cool worked_load [OF st [unfolded Worked] Cons.prems(1)] advanced_trans by fastforce
  qed (use Cons.prems(2) st one cool drain_step_table [OF st Cons.prems(1)] in auto)
qed simp

lemma drain_due:
  assumes "table_ok (mw_table w)" "drain S tks d (gate, w) = (x, gate', w')"
    and "list_all (readable (snd_crypto S) (snd_box S)) (backlog (mw_table w))"
    and "due_by limit (mw_table w)" "cooled clk gate"
    and "list_all (\<lambda>tk. tk_now tk + longest_delay \<le> limit \<and> tk_record tk + cooldown_seconds gate \<le> clk) tks"
  shows "due_by limit (mw_table w') \<and> cooled clk gate'"
  using assms
proof (induction tks arbitrary: d gate w)
  case (Cons tk tks)
  obtain k gate1 w1 where st: "drain_step S tk (gate, w) = (k, gate1, w1)" by (metis prod_cases3)
  note one = drain_step_advances [OF Cons.prems(1) st Cons.prems(3)] and cool = drain_step_cooled [OF st]
  have now: "due_by limit (mw_table w1)" "cooled clk gate1"
    using one(2) [OF Cons.prems(4)] cool(2) [OF Cons.prems(5)] Cons.prems(6) by simp_all
  show ?case
  proof (cases k)
    case Worked
    have d: "distinct_ids (mw_table w)" using Cons.prems(1) by (simp add: table_ok_def)
    have run: "drain S tks True (gate1, w1) = (x, gate', w')" using Worked Cons.prems(2) st by simp
    show ?thesis
      by (rule Cons.IH [OF drain_step_keeps [OF st Cons.prems(1)] run
            backlog_advanced [OF d conjunct1 [OF one(1)] Cons.prems(3)] now]) (use Cons.prems(6) cool(1) in simp)
  qed (use Cons.prems(2) st one(1) now in auto)
qed simp

text \<open>While something waits and is due, a drain makes an attempt.\<close>

lemma drain_works:
  assumes ok: "table_ok (mw_table w)" and bl: "backlog (mw_table w) \<noteq> []"
    and due: "due_by now (mw_table w)" "cooled clk gate"
    and tk: "\<not> tk_stop tk" "now \<le> tk_select tk" "clk \<le> tk_allow tk"
    and read: "list_all (readable (snd_crypto S) (snd_box S)) (backlog (mw_table w))"
  shows "\<exists>gate1 w1. drain_step S tk (gate, w) = (Worked, gate1, w1)"
proof -
  obtain k gate1 w1 where st: "drain_step S tk (gate, w) = (k, gate1, w1)" by (metis prod_cases3)
  have d: "distinct_ids (mw_table w)" using ok by (simp add: table_ok_def)
  obtain r rs where r: "backlog (mw_table w) = r # rs" using bl by (cases "backlog (mw_table w)") auto
  obtain gate0 where al: "allow (tk_allow tk) gate = (True, gate0)" using cooled_allows [OF due(2) tk(3)] by blast
  have "list_all (is_due (tk_select tk)) (backlog (mw_table w))"
    using due_by_later [OF due(1) tk(2)] by (simp add: due_by_def)
  from claim_head [OF d this, of "tk_claim tk"] r obtain t'
    where "claim_next (tk_select tk) (tk_claim tk) (mw_table w) = (Some (claimed (tk_claim tk) r), t')" by auto
  then have "k = Worked \<or> (\<exists>e. k = Raised e)"
    using st tk(1) al by (auto simp: drain_step_def Let_def split: prod.splits sum.splits)
  then show ?thesis using st drain_step_advances(1) [OF ok st read] by blast
qed

lemma load_0: "table_ok t \<Longrightarrow> load t = 0 \<longleftrightarrow> backlog t = []"
proof -
  assume ok: "table_ok t"
  have "row_load r = 0 \<longleftrightarrow> \<not> is_pending r" if "r \<in> set t" for r
    using ok that by (auto simp: table_ok_def list_all_iff attempts_ok_def row_load_def)
  then have "load t = 0 \<longleftrightarrow> (\<forall>r\<in>set t. \<not> is_pending r)" by (auto simp: load_def)
  also have "\<dots> \<longleftrightarrow> backlog t = []" using set_backlog [of t] by (metis (lifting) empty_Collect_eq set_empty)
  finally show ?thesis .
qed

lemma poll_decreases:
  assumes ok: "table_ok (mw_table w)" and due: "due_by now (mw_table w)" "cooled clk gate"
    and tks: "list_all (\<lambda>tk. \<not> tk_stop tk \<and> now \<le> tk_select tk \<and> clk \<le> tk_allow tk) tks" "tks \<noteq> []"
    and read: "list_all (readable (snd_crypto S) (snd_box S)) (backlog (mw_table w))"
    and run: "drain S tks d (gate, w) = (x, gate', w')"
  shows "load (mw_table w') \<le> load (mw_table w) - 1"
proof (cases "backlog (mw_table w) = []")
  case True
  then show ?thesis using load_0 [OF ok] drain_advances [OF ok run read] by simp
next
  case False
  obtain tk tks' where t: "tks = tk # tks'" using tks(2) by (cases tks) auto
  with drain_works [OF ok False due, of tk S] tks(1) read obtain gate1 w1 where
    st: "drain_step S tk (gate, w) = (Worked, gate1, w1)" by auto
  have d: "distinct_ids (mw_table w)" using ok by (simp add: table_ok_def)
  have "drain S tks' True (gate1, w1) = (x, gate', w')" using run st t by simp
  from drain_advances [OF drain_step_keeps [OF st ok] this
      backlog_advanced [OF d conjunct1 [OF drain_step_advances(1) [OF ok st read]] read]]
  show ?thesis using worked_load [OF st ok] by auto
qed

subsection \<open>Polls\<close>

lemma run_round_drain:
  assumes "table_ok (mw_table w)" "load (mw_table w) < length tks"
  shows "\<exists>x gate' w1 w' b. drain S tks False (gate, w) = (x, gate', w1) \<and> run_round S tks False (gate, w) = (Some b, gate', w')
    \<and> mw_table w' = mw_table w1"
proof -
  from drain_terminates [OF assms] obtain r gate' w1 where
    "drain S tks False (gate, w) = (Some r, gate', w1)" by blast
  then show ?thesis by (auto simp: run_round_def Let_def)
qed

definition polls_ready :: "crypto \<Rightarrow> secret_box \<Rightarrow> secs \<Rightarrow> 'w poll list \<Rightarrow> table \<Rightarrow> bool" where
  "polls_ready C box cd ps t \<longleftrightarrow> spaced cd ps
     \<and> list_all (\<lambda>p. snd_crypto (pl_sender p) = C \<and> snd_box (pl_sender p) = box \<and> load t < length (pl_ticks p)) ps"

lemma polls_settle:
  assumes "table_ok (mw_table w)" "list_all (readable C box) (backlog (mw_table w))"
    and "polls_ready C box (cooldown_seconds gate) ps (mw_table w)"
    and "case ps of [] \<Rightarrow> True | p # _ \<Rightarrow> due_by (pl_now p) (mw_table w) \<and> cooled (pl_mono p) gate"
  shows "\<exists>gate' w'. polls ps (gate, w) = Some (gate', w') \<and> advanced (mw_table w) (mw_table w')
    \<and> load (mw_table w') \<le> load (mw_table w) - length ps \<and> table_ok (mw_table w')"
  using assms
proof (induction ps arbitrary: gate w)
  case (Cons p ps)
  let ?S = "pl_sender p" and ?tks = "pl_ticks p" and ?cd = "cooldown_seconds gate"
  have sp: "spaced ?cd (p # ps)" and S: "snd_crypto ?S = C" "snd_box ?S = box" "load (mw_table w) < length ?tks"
    and more: "list_all (\<lambda>p. snd_crypto (pl_sender p) = C \<and> snd_box (pl_sender p) = box
      \<and> load (mw_table w) < length (pl_ticks p)) ps"
    using Cons.prems(3) by (simp_all add: polls_ready_def)
  have due: "due_by (pl_now p) (mw_table w)" "cooled (pl_mono p) gate" using Cons.prems(4) by simp_all
  from run_round_drain [OF Cons.prems(1) S(3), of ?S gate] obtain x gate1 w1 w2 b where
    dr: "drain ?S ?tks False (gate, w) = (x, gate1, w1)"
    and rr: "run_round ?S ?tks False (gate, w) = (Some b, gate1, w2)" and t: "mw_table w2 = mw_table w1" by blast
  have read: "list_all (readable (snd_crypto ?S) (snd_box ?S)) (backlog (mw_table w))"
    using Cons.prems(2) S by simp
  have d: "distinct_ids (mw_table w)" using Cons.prems(1) by (simp add: table_ok_def)
  note adv = drain_advances [OF Cons.prems(1) dr read]
  have inp: "in_time p" using sp by (cases ps) simp_all
  have ne: "?tks \<noteq> []" using S(3) by auto
  have dec: "load (mw_table w1) \<le> load (mw_table w) - 1"
    by (rule poll_decreases [OF Cons.prems(1) due _ ne read dr]) (use inp in \<open>simp add: in_time_def\<close>)
  have ok1: "table_ok (mw_table w2)" using drain_keeps [OF Cons.prems(1) dr] t by simp
  have read1: "list_all (readable C box) (backlog (mw_table w2))"
    using backlog_advanced [OF d _ Cons.prems(2)] adv t by simp
  have next_due: "case ps of [] \<Rightarrow> True | q # _ \<Rightarrow> due_by (pl_now q) (mw_table w2) \<and> cooled (pl_mono q) gate1"
  proof (cases ps)
    case (Cons q qs)
    then have wait: "waits_for ?cd p q" using sp by simp
    then have "due_by (pl_now q) (mw_table w)" "cooled (pl_mono q) gate"
      using due by (auto simp: waits_for_def intro: due_by_later cooled_later)
    then have "due_by (pl_now q) (mw_table w1) \<and> cooled (pl_mono q) gate1"
      by (rule drain_due [OF Cons.prems(1) dr read]) (use wait in \<open>simp add: waits_for_def\<close>)
    then show ?thesis using t Cons by simp
  qed simp
  have "spaced ?cd ps" using sp by (cases ps) simp_all
  moreover have "list_all (\<lambda>p. snd_crypto (pl_sender p) = C \<and> snd_box (pl_sender p) = box
      \<and> load (mw_table w2) < length (pl_ticks p)) ps"
    using more adv t by (auto simp: list_all_iff)
  ultimately have "polls_ready C box (cooldown_seconds gate1) ps (mw_table w2)"
    using adv by (simp add: polls_ready_def)
  from Cons.IH [OF ok1 read1 this next_due] obtain gate' w' where
    rest: "polls ps (gate1, w2) = Some (gate', w')" "advanced (mw_table w2) (mw_table w')"
    "load (mw_table w') \<le> load (mw_table w2) - length ps" "table_ok (mw_table w')" by blast
  have "advanced (mw_table w) (mw_table w')"
    using advanced_trans [OF conjunct1 [OF adv]] rest(2) t by simp
  moreover have "load (mw_table w') \<le> load (mw_table w) - length (p # ps)" using rest(3) dec t by simp
  ultimately show ?case using rr rest(1,4) by simp
qed simp

subsection \<open>Every mail is settled\<close>

lemma load_bound: "table_ok t \<Longrightarrow> int (load t) \<le> 8 * count_pending t"
  unfolding table_ok_def load_def count_pending_def
  by (induction t) (auto simp: row_load_def attempts_ok_def distinct_ids_def ids_def)

lemma gateway_readable:
  assumes "gw_ok G g"
  shows "list_all (readable (sg_crypto G) (sg_box G)) (backlog (gw_table g))"
  unfolding list_all_iff
proof
  fix r assume r: "r \<in> set (backlog (gw_table g))"
  note okD = gw_okD [OF assms]
  have "set (backlog (gw_table g)) \<subseteq> set (gw_table g)" by auto
  from stored_requests [OF okD(3) this sys_okD(2) [OF okD(1)], of undefined undefined undefined]
  have "\<exists>ys. mapE (row_request (gateway_sender G undefined undefined) undefined) (backlog (gw_table g)) = Inr ys" by blast
  then have "succeeded (row_request (gateway_sender G undefined undefined) undefined r)"
    using r by (auto simp: mapE_Inr_iff list_all_iff)
  then show "readable (sg_crypto G) (sg_box G) r" by (simp add: readable_request ews_sender_def)
qed

definition settled_mail :: "table \<Rightarrow> table \<Rightarrow> insert_io \<times> new_message \<Rightarrow> bool" where
  "settled_mail t t' im \<longleftrightarrow> (case (get_message t (mail_id im), get_message t' (mail_id im)) of
     (Some r, Some r') \<Rightarrow> attempts r' \<le> 8 \<and> (if is_pending r then row_status r' \<in> {SENT, FAILED} else r' = r)
   | _ \<Rightarrow> False)"

text \<open>
  C3. No mail waits for ever: from every reachable state of the gateway, if a worker polls eight times
  per waiting mail, and between two polls the longest delay of a retry (300 seconds) and the
  cool-down of the breaker pass, then whatever the servers answer in every single attempt, in the
  end nothing waits and every mail that did is SENT or FAILED, after at most eight attempts. Mails
  that did not wait, the stranded ones among them, are as they were.
\<close>

theorem every_waiting_mail_is_settled:
  assumes "gateway_reachable G g" "aead_law (sg_crypto G)"
    and "polls_ready (sg_crypto G) (sg_box G) (cooldown_seconds (sys_gate (gw_sys g))) ps (gw_table g)"
    and "8 * count_pending (gw_table g) \<le> int (length ps)"
    and "case ps of [] \<Rightarrow> True | p # _ \<Rightarrow> due_by (pl_now p) (gw_table g) \<and> cooled (pl_mono p) (sys_gate (gw_sys g))"
  shows "\<exists>gate' w'. polls ps (sys_gate (gw_sys g), gw_world g) = Some (gate', w')
    \<and> count_pending (mw_table w') = 0 \<and> list_all (settled_mail (gw_table g) (mw_table w')) (gw_taken g)"
proof -
  note ok = gw_ok_reachable [OF assms(1,2)] and okD = gw_okD [OF gw_ok_reachable [OF assms(1,2)]]
  note t = sys_okD(1) [OF okD(1)]
  from polls_settle [OF t gateway_readable [OF ok] assms(3,5)] obtain gate' w' where
    run: "polls ps (sys_gate (gw_sys g), gw_world g) = Some (gate', w')"
    and adv: "advanced (gw_table g) (mw_table w')" "table_ok (mw_table w')"
      "load (mw_table w') \<le> load (gw_table g) - length ps" by blast
  have "load (mw_table w') = 0" using adv(3) load_bound [OF t] assms(4) by linarith
  then have none: "backlog (mw_table w') = []" using load_0 [OF adv(2)] by simp
  have "settled_mail (gw_table g) (mw_table w') im" if im: "im \<in> set (gw_taken g)" for im
  proof -
    obtain r where r: "get_message (gw_table g) (mail_id im) = Some r"
      using okD(3) im by (auto simp: stored_def)
    from advancedD [OF adv(1) r] obtain r' where r': "get_message (mw_table w') (mail_id im) = Some r'"
      "row_advanced r r'" by blast
    have "attempts_ok r'" using table_ok_get [OF adv(2) r'(1)] .
    moreover have "\<not> is_pending r'" using none set_backlog [of "mw_table w'"] get_message_SomeD [OF r'(1)] by auto
    moreover from r'(2) this have "if is_pending r then row_status r' \<in> {SENT, FAILED} else r' = r"
      by (cases "is_pending r") (simp_all add: row_advanced_def)
    ultimately show ?thesis unfolding settled_mail_def r r'(1) by (simp add: attempts_ok_def)
  qed
  then have each: "list_all (settled_mail (gw_table g) (mw_table w')) (gw_taken g)" by (simp add: list_all_iff)
  have "filter is_pending (mw_table w') = []" using none by (metis backlog_def length_0_conv length_sort)
  then have "count_pending (mw_table w') = 0" by (simp add: count_pending_def)
  with run each show ?thesis by blast
qed

text \<open>Eight polls for the one mail of a client, ten minutes apart.\<close>

definition toy_poll :: "nat \<Rightarrow> ews_state poll" where
  "toy_poll n = (let now = int n * 600000000 + 10; clk = rat_of_int (int n * 600)
     in \<lparr>pl_sender = gateway_sender toy_gateway toy_io toy_io, pl_now = now, pl_mono = clk,
         pl_ticks = replicate 9 (toy_tick\<lparr>tk_allow := clk, tk_select := now, tk_claim := now, tk_now := now,
           tk_record := clk, tk_config := toy_conf\<rparr>)\<rparr>)"

theorem every_waiting_mail_is_settled_witness:
  "\<exists>g gate' w'. gateway_reachable toy_gateway g \<and> gw_taken g = [(toy_ins, toy_mail)] \<and> count_pending (gw_table g) = 1
    \<and> polls (map toy_poll [0, 1, 2, 3, 4, 5, 6, 7]) (sys_gate (gw_sys g), gw_world g) = Some (gate', w')
    \<and> count_pending (mw_table w') = 0"
proof -
  obtain g row where g: "gateway_reachable toy_gateway g" "gw_taken g = [(toy_ins, toy_mail)]"
    "sys_table (gw_sys g) = [row]" "sys_gate (gw_sys g) = fresh_breaker 5 60"
    "row_of_mail (gateway_sender toy_gateway up_io up_io) toy_conf (toy_ins, toy_mail) row" by (rule toy_taken)
  have law: "aead_law (sg_crypto toy_gateway)" by (simp add: toy_gateway_def)
  have row: "is_pending row" "attempts row = 0" "is_due 10 row"
    using g(5) by (simp_all add: row_of_mail_def is_due_def toy_ins_def)
  have load: "load (gw_table g) = 8" using row by (simp add: g(3) load_def row_load_def)
  have bl: "backlog (gw_table g) = [row]" using row by (simp add: backlog_def g(3))
  have "spaced 60 (map toy_poll [0, 1, 2, 3, 4, 5, 6, 7])"
    by (simp add: toy_poll_def in_time_def waits_for_def longest_delay_def toy_tick_def Let_def list_all_iff)
  then have ready: "polls_ready (sg_crypto toy_gateway) (sg_box toy_gateway) (cooldown_seconds (sys_gate (gw_sys g)))
      (map toy_poll [0, 1, 2, 3, 4, 5, 6, 7]) (gw_table g)"
    by (simp add: polls_ready_def g(4) fresh_breaker_def load toy_poll_def ews_sender_def Let_def)
  have pending: "count_pending (gw_table g) = 1" using row(1) by (simp add: g(3) count_pending_def)
  have "due_by (pl_now (toy_poll 0)) (gw_table g) \<and> cooled (pl_mono (toy_poll 0)) (sys_gate (gw_sys g))"
    using row(3) by (simp add: due_by_def bl toy_poll_def Let_def cooled_def g(4) fresh_breaker_def)
  then show ?thesis
    using every_waiting_mail_is_settled [OF g(1) law ready] g(1,2) pending by auto
qed

end
