(* ===== verification/Web_Session.thy ===== *)
theory Web_Session
  imports Json_Text Secret_Box "HOL-Library.List_Lexorder"
begin

section \<open>Session cookies and admin passwords (auth/session.py, auth/passwords.py)\<close>

text \<open>
  A session is a JSON object, the cookie its compact text with an expiry time and the HMAC of
  the text, both in URL-safe Base64. The clock is an argument, in whole seconds, as
  \<open>int(time.time())\<close>. A password hash is the text the code stores; scrypt is a parameter.
\<close>

subsection \<open>The cookie\<close>

definition max_age :: int where "max_age = 604800"

definition session_key :: "crypto \<Rightarrow> secret_box \<Rightarrow> bytes res" where
  "session_key C box = derive_key C box (lit ''msgate-web-session-v1'')"

definition session_body :: "json dict \<Rightarrow> int \<Rightarrow> json" where
  "session_body data now =
     JObj (filter (\<lambda>(k, _). k \<noteq> lit ''exp'') data @ [(lit ''exp'', JInt (now + max_age))])"

text \<open>The text is ASCII, so its UTF-8 encoding has one byte per character.\<close>

definition encode_session :: "crypto \<Rightarrow> int \<Rightarrow> json dict \<Rightarrow> bytes \<Rightarrow> pystr" where
  "encode_session C now data key =
     (let payload = to_bytes (dumps_compact (sort_keys (session_body data now)))
      in urlsafe_b64encode payload @ 46 # urlsafe_b64encode (hmac_sha256 C key payload))"

text \<open>\<open>int(x)\<close> of a JSON value.\<close>

definition int_of_json :: "json \<Rightarrow> int res" where
  "int_of_json j = (case j of
     JInt i \<Rightarrow> Inr i | JBool b \<Rightarrow> Inr (if b then 1 else 0) | JStr s \<Rightarrow> py_int s
   | _ \<Rightarrow> Inl (Exn TypeError (lit ''int() argument must be a string or a real number'')))"

text \<open>
  \<open>None\<close> is no session; an exception that is no ValueError leaves the function (it can only be
  reached with a signed payload that is no object, or has no number under \<open>exp\<close>).
\<close>

definition catch_value_error :: "'a option res \<Rightarrow> 'a option res" where
  "catch_value_error r = (case r of
     Inl e \<Rightarrow> if exn_kind e \<in> {ValueError, UnicodeError} then Inr None else Inl e
   | Inr x \<Rightarrow> Inr x)"

definition decode_payload :: "int \<Rightarrow> bytes \<Rightarrow> json dict option res" where
  "decode_payload now payload =
     bindE (utf8_decode payload) (\<lambda>text.
       case loads text of
         None \<Rightarrow> Inl (Exn ValueError (lit ''JSONDecodeError''))
       | Some (JObj kvs) \<Rightarrow>
           bindE (int_of_json (case map_of kvs (lit ''exp'') of None \<Rightarrow> JInt 0 | Some j \<Rightarrow> j)) (\<lambda>expiry.
             Inr (if expiry < now then None else Some (filter (\<lambda>(k, _). k \<noteq> lit ''exp'') kvs)))
       | Some _ \<Rightarrow> Inl (Exn OtherError (lit ''object has no attribute get'')))"

definition decode_session :: "crypto \<Rightarrow> int \<Rightarrow> pystr \<Rightarrow> bytes \<Rightarrow> json dict option res" where
  "decode_session C now token key =
     (case partition_at 46 token of (payload_b64, sep, sig_b64) \<Rightarrow>
        if \<not> sep \<or> payload_b64 = [] \<or> sig_b64 = [] then Inr None
        else catch_value_error
          (bindE (ascii_encode payload_b64) (\<lambda>_. bindE (urlsafe_b64decode payload_b64) (\<lambda>payload.
           bindE (ascii_encode sig_b64) (\<lambda>_. bindE (urlsafe_b64decode sig_b64) (\<lambda>sig.
             if sig \<noteq> hmac_sha256 C key payload then Inr None else decode_payload now payload))))))"

subsection \<open>Passwords\<close>

definition hex_byte :: "8 word \<Rightarrow> pystr" where
  "hex_byte b = [hex_digit (uint b div 16), hex_digit (uint b mod 16)]"

definition bytes_hex :: "bytes \<Rightarrow> pystr" where
  "bytes_hex bs = concat (map hex_byte bs)"

text \<open>\<open>bytes.fromhex\<close>: pairs of digits, with white space (ASCII) between them.\<close>

definition hex_space :: "int \<Rightarrow> bool" where
  "hex_space c \<longleftrightarrow> c = 32 \<or> 9 \<le> c \<and> c \<le> 13"

fun bytes_fromhex :: "pystr \<Rightarrow> bytes res" where
  "bytes_fromhex [] = Inr []"
| "bytes_fromhex [c] = (if hex_space c then Inr [] else Inl (Exn ValueError (lit ''non-hexadecimal number found'')))"
| "bytes_fromhex (a # b # s) =
     (if hex_space a then bytes_fromhex (b # s)
      else (case (hex_value a, hex_value b) of
          (Some x, Some y) \<Rightarrow> bindE (bytes_fromhex s) (\<lambda>bs. Inr (word_of_int (16 * x + y) # bs))
        | _ \<Rightarrow> Inl (Exn ValueError (lit ''non-hexadecimal number found''))))"

definition hash_text :: "bytes \<Rightarrow> bytes \<Rightarrow> pystr" where
  "hash_text salt digest = lit ''scrypt$16384$8$1$'' @ bytes_hex salt @ 36 # bytes_hex digest"

definition hash_password :: "crypto \<Rightarrow> bytes \<Rightarrow> pystr \<Rightarrow> pystr res" where
  "hash_password C salt plain =
     (if length plain < 8 then Inl (Exn ValueError (lit ''Password must be at least 8 characters''))
      else bindE (utf8_encode plain) (\<lambda>raw.
        bindE (scrypt C raw salt (16384, 8, 1) 32) (\<lambda>digest. Inr (hash_text salt digest))))"

text \<open>Every exception of the body is a ValueError or a TypeError, so the answer is no.\<close>

definition verify_parts ::
    "crypto \<Rightarrow> pystr \<Rightarrow> pystr \<Rightarrow> pystr \<Rightarrow> pystr \<Rightarrow> pystr \<Rightarrow> pystr \<Rightarrow> bool res" where
  "verify_parts C plain n r p salt_hex digest_hex =
     bindE (bytes_fromhex salt_hex) (\<lambda>salt. bindE (bytes_fromhex digest_hex) (\<lambda>expected.
     bindE (utf8_encode plain) (\<lambda>raw. bindE (py_int n) (\<lambda>n. bindE (py_int r) (\<lambda>r. bindE (py_int p) (\<lambda>p.
     bindE (scrypt C raw salt (n, r, p) (length expected)) (\<lambda>actual. Inr (actual = expected))))))))"

definition verify_password :: "crypto \<Rightarrow> pystr \<Rightarrow> pystr \<Rightarrow> bool" where
  "verify_password C plain password_hash =
     (case split_at 36 password_hash of
        [algo, n, r, p, salt_hex, digest_hex] \<Rightarrow>
          if algo \<noteq> lit ''scrypt'' then False
          else (case verify_parts C plain n r p salt_hex digest_hex of Inl _ \<Rightarrow> False | Inr b \<Rightarrow> b)
      | _ \<Rightarrow> False)"

text \<open>An HMAC-SHA256 has 32 bytes.\<close>

definition hmac_law :: "crypto \<Rightarrow> bool" where
  "hmac_law C \<longleftrightarrow> (\<forall>key m. length (hmac_sha256 C key m) = 32)"

lemma toy_hmac [simp]: "hmac_law toy_crypto"
  by (simp add: hmac_law_def toy_crypto_def min_def)

subsection \<open>The text of a document is ASCII\<close>

definition ascii_text :: "pystr \<Rightarrow> bool" where
  "ascii_text s \<longleftrightarrow> list_all (\<lambda>c. 0 \<le> c \<and> c < 128) s"

lemma ascii_text_simps [simp]:
  "ascii_text []" "ascii_text (c # s) \<longleftrightarrow> 0 \<le> c \<and> c < 128 \<and> ascii_text s"
  "ascii_text (s @ t) \<longleftrightarrow> ascii_text s \<and> ascii_text t"
  by (simp_all add: ascii_text_def)

lemma ascii_hex_digit: "0 \<le> d \<Longrightarrow> d < 16 \<Longrightarrow> 0 \<le> hex_digit d \<and> hex_digit d < 128"
  by (simp add: hex_digit_def)

lemma ascii_hex4:
  assumes "0 \<le> c" "c < 65536"
  shows "ascii_text (hex4 c)"
proof -
  have "0 \<le> c div 4096" "c div 4096 < 16" using assms by auto
  then show ?thesis by (simp add: hex4_def ascii_hex_digit)
qed

lemma ascii_esc: "is_scalar c \<Longrightarrow> ascii_text (esc_char c)"
proof -
  assume c: "is_scalar c"
  then have b: "0 \<le> c" "c < 1114112" by (simp_all add: is_scalar_def)
  show ?thesis
  proof (cases "c < 65536")
    case True
    then show ?thesis using b ascii_hex4 [of c] by (simp add: esc_char_def u_escape_def)
  next
    case False
    define d where "d = c - 65536"
    have d: "0 \<le> d" "d < 1048576" using b False by (simp_all add: d_def)
    then have "0 \<le> d div 1024" "d div 1024 < 1024" "0 \<le> d mod 1024" "d mod 1024 < 1024" by auto
    then have "ascii_text (hex4 (55296 + d div 1024))" "ascii_text (hex4 (56320 + d mod 1024))"
      by (auto intro!: ascii_hex4)
    then show ?thesis using False by (simp add: esc_char_def u_escape_def d_def)
  qed
qed

lemma ascii_dump_str: "list_all is_scalar s \<Longrightarrow> ascii_text (dump_str s)"
  unfolding dump_str_def by (induction s) (auto simp: ascii_esc)

lemma ascii_join: "ascii_text sep \<Longrightarrow> list_all ascii_text ws \<Longrightarrow> ascii_text (join_with sep ws)"
  by (induction sep ws rule: join_with.induct) simp_all

lemma ascii_digits: "ascii_text (digits n)"
  using digits_are_digits [of _ n] by (fastforce simp: ascii_text_def list_all_iff is_digit_def)

lemma ascii_dumps: "ascii_text isep \<Longrightarrow> ascii_text ksep \<Longrightarrow> wf_json j \<Longrightarrow> ascii_text (dumps isep ksep j)"
proof (induction isep ksep j rule: dumps.induct)
  case (5 isep ksep xs)
  then show ?case by (auto intro!: ascii_join simp: list_all_iff)
next
  case (6 isep ksep kvs)
  have "ascii_text (dump_str k @ ksep @ dumps isep ksep v)" if "(k, v) \<in> set kvs" for k v
  proof -
    have "list_all is_scalar k" "wf_json v" using 6(4) that by (auto simp: list_all_iff)
    then show ?thesis using 6(1) [OF that refl] 6(2,3) ascii_dump_str by simp
  qed
  then show ?case using 6(2) by (auto intro!: ascii_join simp: list_all_iff)
qed (simp_all add: lit_def str_int_def ascii_digits ascii_dump_str)

lemma utf8_ascii:
  assumes "ascii_text s"
  shows "utf8_decode (to_bytes s) = Inr s"
proof -
  have "list_all is_scalar s" using assms by (auto simp: ascii_text_def list_all_iff is_scalar_def)
  moreover have "concat (map utf8_cp s) = s"
    using assms by (induction s) (simp_all add: utf8_cp_def)
  ultimately have "utf8_encode s = Inr (to_bytes s)" by (simp add: utf8_encode_def)
  then show ?thesis by (rule utf8_roundtrip)
qed

subsection \<open>A token is read back\<close>

lemma fst_sorted: "map fst (sort_key fst (map (map_prod id f) kvs)) = sort (map fst kvs)"
proof -
  have "map fst (insort_key fst x xs) = insort (fst x) (map fst xs)" for x and xs :: "('a::linorder \<times> 'b) list"
    by (induction xs) simp_all
  then have "map fst (sort_key fst xs) = sort (map fst xs)" for xs :: "('a::linorder \<times> 'b) list"
    by (induction xs) simp_all
  then show ?thesis by (simp add: comp_def)
qed

lemma wf_sort_keys: "wf_json j \<Longrightarrow> wf_json (sort_keys j)"
proof (induction j)
  case (JObj kvs)
  have "wf_json (sort_keys v)" if "(k, v) \<in> set kvs" for k v
    using JObj that by (fastforce simp: list_all_iff)
  then show ?case using JObj.prems by (auto simp: fst_sorted list_all_iff)
qed (auto simp: list_all_iff)

lemma map_of_sorted:
  assumes "distinct (map fst kvs)"
  shows "map_of (sort_key fst (map (map_prod id f) kvs)) k = map_option f (map_of kvs k)"
proof -
  let ?ys = "map (map_prod id f) kvs"
  have d: "distinct (map fst ?ys)" using assms by (simp add: comp_def)
  then have "distinct (map fst (sort_key fst ?ys))" using assms by (simp add: fst_sorted)
  with d have "map_of (sort_key fst ?ys) = map_of ?ys" by (simp add: map_of_inject_set)
  moreover have "map_of ?ys k = map_option f (map_of kvs k)"
    by (induction kvs) auto
  ultimately show ?thesis by simp
qed

lemma wf_session_body: "wf_json (JObj data) \<Longrightarrow> wf_json (session_body data now)"
proof -
  assume wf: "wf_json (JObj data)"
  have "distinct (map fst (filter P data))" for P
    using wf by (simp add: distinct_map_filter)
  moreover have "list_all is_scalar (lit ''exp'')" by (simp add: lit_def is_scalar_def)
  ultimately show ?thesis using wf by (auto simp: session_body_def list_all_iff)
qed

lemma map_of_filter_key: "map_of (filter (\<lambda>(k, _). k \<noteq> x) kvs) k = (if k = x then None else map_of kvs k)"
  by (induction kvs) auto

lemma wf_filter_obj: "wf_json (JObj kvs) \<Longrightarrow> wf_json (JObj (filter P kvs))"
  by (auto simp: distinct_map_filter list_all_iff)

lemma partition_token: "partition_at 46 (urlsafe_b64encode p @ 46 # s) = (urlsafe_b64encode p, True, s)"
  using urlsafe_chars by (intro partition_at_append) auto

lemma decode_own_payload:
  assumes "wf_json (JObj data)"
  shows "\<exists>d. decode_payload now (to_bytes (dumps_compact (sort_keys (session_body data issued))))
      = Inr (if issued + max_age < now then None else Some d) \<and> wf_json (JObj d)
    \<and> (\<forall>k. map_of d k = (if k = lit ''exp'' then None else map_option sort_keys (map_of data k)))"
proof -
  let ?body = "filter (\<lambda>(k, _). k \<noteq> lit ''exp'') data @ [(lit ''exp'', JInt (issued + max_age))]"
  let ?kvs = "sort_key fst (map (map_prod id sort_keys) ?body)"
  have wf: "wf_json (session_body data issued)" using wf_session_body [OF assms] .
  have body: "sort_keys (session_body data issued) = JObj ?kvs" by (simp add: session_body_def)
  have "ascii_text (dumps_compact (JObj ?kvs))"
    using wf_sort_keys [OF wf] unfolding body by (intro ascii_dumps) simp_all
  from utf8_ascii [OF this] have "utf8_decode (to_bytes (dumps_compact (JObj ?kvs))) = Inr (dumps_compact (JObj ?kvs))" .
  moreover have "loads (dumps_compact (JObj ?kvs)) = Some (JObj ?kvs)"
    using wf_sort_keys [OF wf] unfolding body by (intro loads_dumps) simp_all
  moreover have get: "map_of ?kvs k = (if k = lit ''exp'' then Some (JInt (issued + max_age))
      else map_option sort_keys (map_of data k))" for k
  proof -
    have "distinct (map fst ?body)" using wf by (simp add: session_body_def)
    then show ?thesis by (simp only: map_of_sorted) (simp add: map_add_def map_of_filter_key split: option.split)
  qed
  ultimately have "decode_payload now (to_bytes (dumps_compact (JObj ?kvs)))
      = Inr (if issued + max_age < now then None else Some (filter (\<lambda>(k, _). k \<noteq> lit ''exp'') ?kvs))"
    by (simp only: decode_payload_def bindE_simps option.case json.case) (simp add: int_of_json_def)
  moreover have "wf_json (JObj (filter (\<lambda>(k, _). k \<noteq> lit ''exp'') ?kvs))"
    using wf_sort_keys [OF wf] unfolding body by (rule wf_filter_obj)
  ultimately show ?thesis unfolding body
    by (intro exI [of _ "filter (\<lambda>(k, _). k \<noteq> lit ''exp'') ?kvs"]) (simp only: map_of_filter_key get, simp)
qed

lemma decode_own_session:
  assumes "wf_json (JObj data)" "hmac_law C"
  shows "\<exists>d. decode_session C now (encode_session C issued data key) key
      = Inr (if issued + max_age < now then None else Some d) \<and> wf_json (JObj d)
    \<and> (\<forall>k. map_of d k = (if k = lit ''exp'' then None else map_option sort_keys (map_of data k)))"
proof -
  let ?payload = "to_bytes (dumps_compact (sort_keys (session_body data issued)))"
  have "?payload \<noteq> []" "hmac_sha256 C key ?payload \<noteq> []"
    using assms(2) [unfolded hmac_law_def, rule_format, of key ?payload]
    by (auto simp: to_bytes_def session_body_def)
  then have "decode_session C now (encode_session C issued data key) key
      = catch_value_error (decode_payload now ?payload)"
    by (simp add: decode_session_def encode_session_def Let_def partition_token)
  then show ?thesis
    using decode_own_payload [OF assms(1), of now issued] by (auto simp: catch_value_error_def)
qed

text \<open>
  A session cookie holds for a week: what was encoded is read back under the same key,
  every entry as it was (the objects in it with their keys sorted) and without the expiry, up
  to 604800 seconds later, and is no session after that.
\<close>

lemma session_token_roundtrip:
  assumes "wf_json (JObj data)" "hmac_law C"
  shows "if issued + 604800 < now then decode_session C now (encode_session C issued data key) key = Inr None
    else \<exists>d. decode_session C now (encode_session C issued data key) key = Inr (Some d)
      \<and> (\<forall>k. map_of d k = (if k = lit ''exp'' then None else map_option sort_keys (map_of data k)))"
  using decode_own_session [OF assms, of now issued key] by (auto simp: max_age_def)

lemma session_token_roundtrip_witness:
  "\<exists>d. decode_session toy_crypto 700 (encode_session toy_crypto 500 [(lit ''admin_user'', JStr (lit ''admin''))] [1]) [1]
      = Inr (Some d) \<and> map_of d (lit ''admin_user'') = Some (JStr (lit ''admin''))"
proof -
  have "wf_json (JObj [(lit ''admin_user'', JStr (lit ''admin''))])" by (simp add: lit_def is_scalar_def)
  moreover have "hmac_law toy_crypto" by simp
  ultimately show ?thesis
    using session_token_roundtrip [of "[(lit ''admin_user'', JStr (lit ''admin''))]" toy_crypto 500 700 "[1]"]
    by auto
qed

text \<open>Only a payload signed under the key is ever read.\<close>

lemma decode_session_signed:
  assumes "decode_session C now token key = Inr (Some d)"
  shows "\<exists>a b payload. token = a @ 46 # b \<and> urlsafe_b64decode a = Inr payload
    \<and> urlsafe_b64decode b = Inr (hmac_sha256 C key payload) \<and> decode_payload now payload = Inr (Some d)"
  using assms partition_at_SomeD [of 46 token]
  by (auto simp: decode_session_def catch_value_error_def bindE_def split: prod.splits if_splits sum.splits)

subsection \<open>A password is recognised\<close>

text \<open>scrypt gives as many bytes as it was asked for.\<close>

definition scrypt_law :: "crypto \<Rightarrow> bool" where
  "scrypt_law C \<longleftrightarrow> (\<forall>raw salt cost n. case scrypt C raw salt cost n of Inl _ \<Rightarrow> True | Inr d \<Rightarrow> length d = n)"

lemma toy_scrypt [simp]: "scrypt_law toy_crypto"
  by (auto simp: scrypt_law_def toy_crypto_def min_def)

lemma nibbles: "0 \<le> uint b div 16" "uint b div 16 < 16" for b :: "8 word"
  using uint_byte_less [of b] unsigned_greater_eq [of b] by (simp_all add: pos_imp_zdiv_nonneg_iff)

lemma hex_digits_range: "c \<in> set (bytes_hex bs) \<Longrightarrow> 48 \<le> c \<and> c \<le> 102"
proof -
  have "48 \<le> hex_digit d \<and> hex_digit d \<le> 102" if "0 \<le> d" "d < 16" for d
    using that by (simp add: hex_digit_def)
  with nibbles show "c \<in> set (bytes_hex bs) \<Longrightarrow> 48 \<le> c \<and> c \<le> 102"
    by (auto simp: bytes_hex_def hex_byte_def)
qed

lemma fromhex_hex: "bytes_fromhex (bytes_hex bs) = Inr bs"
proof (induction bs)
  case (Cons b bs)
  note r = nibbles [of b]
  then have "\<not> hex_space (hex_digit (uint b div 16))" by (simp add: hex_space_def hex_digit_def)
  moreover have "word_of_int (16 * (uint b div 16) + uint b mod 16) = b" by simp
  ultimately show ?case using Cons r by (simp add: bytes_hex_def hex_byte_def)
qed (simp add: bytes_hex_def)

lemma cost_texts: "py_int (lit ''16384'') = Inr 16384" "py_int (lit ''8'') = Inr 8" "py_int (lit ''1'') = Inr 1"
  by code_simp+

lemma split_hash: "split_at 36 (hash_text salt digest) =
    [lit ''scrypt'', lit ''16384'', lit ''8'', lit ''1'', bytes_hex salt, bytes_hex digest]"
proof -
  have no: "36 \<notin> set (bytes_hex bs)" for bs using hex_digits_range by fastforce
  have "hash_text salt digest = lit ''scrypt'' @ 36 # lit ''16384'' @ 36 # lit ''8'' @ 36 # lit ''1'' @ 36 #
      bytes_hex salt @ 36 # bytes_hex digest"
    by (simp add: hash_text_def lit_def)
  moreover have "36 \<notin> set (lit ''scrypt'')" "36 \<notin> set (lit ''16384'')" "36 \<notin> set (lit ''8'')" "36 \<notin> set (lit ''1'')"
    by (simp_all add: lit_def)
  ultimately show ?thesis using no by (simp add: split_at_append split_at_single)
qed

lemma verify_own_hash:
  assumes "scrypt_law C" "hash_password C salt plain = Inr h"
  shows "8 \<le> length plain \<and> verify_password C plain h
    \<and> verify_password C attempt h =
        (case (utf8_encode attempt, utf8_encode plain) of
           (Inr a, Inr b) \<Rightarrow> scrypt C a salt (16384, 8, 1) 32 = scrypt C b salt (16384, 8, 1) 32
         | _ \<Rightarrow> False)"
proof -
  from assms(2) obtain raw digest where raw: "utf8_encode plain = Inr raw"
    and d: "scrypt C raw salt (16384, 8, 1) 32 = Inr digest" and h: "h = hash_text salt digest"
    and len: "8 \<le> length plain"
    by (auto simp: hash_password_def bindE_Inr_iff split: if_splits)
  have "length digest = 32"
    using assms(1) d unfolding scrypt_law_def by (metis (mono_tags, lifting) old.sum.simps(6))
  then have verify: "verify_password C p h = (case utf8_encode p of Inl _ \<Rightarrow> False
      | Inr a \<Rightarrow> scrypt C a salt (16384, 8, 1) 32 = Inr digest)" for p
    unfolding h verify_password_def split_hash
    by (simp add: verify_parts_def fromhex_hex cost_texts bindE_def split: sum.split)
  show ?thesis using verify [of plain] verify [of attempt] raw d len by (simp split: sum.split)
qed

text \<open>
  A stored password hash recognises the password it was made from and exactly the texts
  that scrypt, with the stored salt and costs, maps to the same 32 bytes; a password of fewer
  than eight characters is never stored.
\<close>

lemma password_hash_recognises:
  assumes "scrypt_law C" "hash_password C salt plain = Inr h"
  shows "8 \<le> length plain \<and> verify_password C plain h
    \<and> verify_password C attempt h =
        (case (utf8_encode attempt, utf8_encode plain) of
           (Inr a, Inr b) \<Rightarrow> scrypt C a salt (16384, 8, 1) 32 = scrypt C b salt (16384, 8, 1) 32
         | _ \<Rightarrow> False)"
  by (rule verify_own_hash [OF assms])

lemma toy_scrypt_inj:
  "scrypt toy_crypto p salt c n = scrypt toy_crypto q salt c n \<Longrightarrow> length p = length q \<Longrightarrow> length p \<le> n \<Longrightarrow> p = q"
  by (auto simp: toy_crypto_def)

lemma password_hash_recognises_witness:
  "\<exists>h. hash_password toy_crypto [1] (lit ''hunter22'') = Inr h \<and> verify_password toy_crypto (lit ''hunter22'') h
     \<and> \<not> verify_password toy_crypto (lit ''hunter23'') h"
proof -
  let ?a = "to_bytes (lit ''hunter22'')" and ?b = "to_bytes (lit ''hunter23'')"
  have u: "utf8_encode (lit ''hunter22'') = Inr ?a" "utf8_encode (lit ''hunter23'') = Inr ?b"
    by (simp_all add: utf8_encode_def lit_def is_scalar_def utf8_cp_def)
  have "?a \<noteq> ?b" "length ?b = length ?a" "length ?b \<le> 32" by (simp_all add: to_bytes_def lit_def)
  then have diff: "scrypt toy_crypto ?b [1] c 32 \<noteq> scrypt toy_crypto ?a [1] c 32" for c
    using toy_scrypt_inj by metis
  obtain d where d: "scrypt toy_crypto ?a [1] (16384, 8, 1) 32 = Inr d" by (simp add: toy_crypto_def)
  then have h: "hash_password toy_crypto [1] (lit ''hunter22'') = Inr (hash_text [1] d)"
    by (simp add: hash_password_def u)
  from password_hash_recognises [OF toy_scrypt h, of "lit ''hunter23''", unfolded u prod.case sum.case] diff h
  show ?thesis by blast
qed

end
