(* ===== verification/Web_Auth.thy ===== *)
theory Web_Auth
  imports Web_Session
begin

section \<open>The login of the management interface
  (auth/web_middleware.py, auth/admin.py, api/routes/auth_ui.py, http/root_path.py)\<close>

text \<open>
  The table of administrators is a dictionary with at most the key \<open>admin\<close>. \<open>auth_gate\<close> is
  \<open>AuthMiddleware.dispatch\<close>: either the request goes on to its route, with the session, or it is
  answered. The routes change the table and the session; \<open>SessionMiddleware\<close> then writes the
  session back as the cookie. Templates are their names.
\<close>

subsection \<open>Behind a reverse proxy\<close>

definition normalize_prefix :: "pystr \<Rightarrow> pystr" where
  "normalize_prefix raw =
     (let p = strip raw
      in if p = [] \<or> p = [47] then []
         else rstrip_where (\<lambda>c. c = 47) (if startswith p [47] then p else 47 # p))"

definition configured_root_path :: "environ \<Rightarrow> pystr" where
  "configured_root_path env = normalize_prefix (or_empty (env (lit ''MSGATE_ROOT_PATH'')))"

record web_request =
  req_path :: pystr
  req_accept :: "pystr option"
  req_hx :: "pystr option"
  req_prefix :: "pystr option"
  req_cookie :: "pystr option"

definition request_root_path :: "environ \<Rightarrow> web_request \<Rightarrow> pystr" where
  "request_root_path env req =
     (if truthy (req_prefix req) then normalize_prefix (or_empty (req_prefix req))
      else configured_root_path env)"

definition join_root :: "environ \<Rightarrow> web_request \<Rightarrow> pystr \<Rightarrow> pystr" where
  "join_root env req path =
     (let root = request_root_path env req
      in if path = [] then (if root \<noteq> [] then root else [47])
         else (let p = (if startswith path [47] then path else 47 # path)
               in if root = [] then p else root @ p))"

definition cookie_path :: "environ \<Rightarrow> web_request \<Rightarrow> pystr" where
  "cookie_path env req = (let root = request_root_path env req in if root \<noteq> [] then root else [47])"

subsection \<open>The administrator\<close>

record admin_row =
  ad_hash :: pystr
  ad_must_change :: bool

type_synonym admin_table = "admin_row dict"

definition admin_username :: pystr where "admin_username = lit ''admin''"

definition get_admin :: "admin_table \<Rightarrow> admin_row option" where
  "get_admin t = map_of t admin_username"

definition admin_exists :: "admin_table \<Rightarrow> bool" where
  "admin_exists t \<longleftrightarrow> get_admin t \<noteq> None"

definition create_admin :: "crypto \<Rightarrow> bytes \<Rightarrow> pystr \<Rightarrow> bool \<Rightarrow> admin_table \<Rightarrow> admin_table res" where
  "create_admin C salt password must_change t =
     bindE (hash_password C salt password) (\<lambda>h.
       Inr (AList.update admin_username \<lparr>ad_hash = h, ad_must_change = must_change\<rparr> t))"

definition set_admin_password :: "crypto \<Rightarrow> bytes \<Rightarrow> pystr \<Rightarrow> bool \<Rightarrow> admin_table \<Rightarrow> admin_table res" where
  "set_admin_password C salt password must_change t =
     (case get_admin t of
        None \<Rightarrow> create_admin C salt password must_change t
      | Some row \<Rightarrow> bindE (hash_password C salt password) (\<lambda>h.
          Inr (AList.update admin_username (row\<lparr>ad_hash := h, ad_must_change := must_change\<rparr>) t)))"

definition check_admin_password :: "crypto \<Rightarrow> pystr \<Rightarrow> admin_table \<Rightarrow> bool" where
  "check_admin_password C password t =
     (case get_admin t of None \<Rightarrow> False | Some row \<Rightarrow> verify_password C password (ad_hash row))"

definition bootstrap_admin_from_env ::
    "crypto \<Rightarrow> bytes \<Rightarrow> environ \<Rightarrow> admin_table \<Rightarrow> bool res \<times> admin_table" where
  "bootstrap_admin_from_env C salt env t =
     (let password = env (lit ''MSGATE_ADMIN_PASSWORD'')
      in if \<not> truthy password \<or> admin_exists t then (Inr False, t)
         else (case create_admin C salt (or_empty password) True t of
             Inl e \<Rightarrow> (Inl e, t) | Inr t' \<Rightarrow> (Inr True, t')))"

subsection \<open>The gate\<close>

type_synonym session = "json dict"

datatype web_response =
    Redirect_To pystr int
  | Hx_Redirect pystr int
  | Json_Detail pystr int
  | Page pystr "pystr option" int

definition public_paths :: "pystr list" where
  "public_paths = [lit ''/healthz'', lit ''/readyz'', lit ''/metrics'']"

definition docs_paths :: "pystr list" where
  "docs_paths = [lit ''/docs'', lit ''/redoc'', lit ''/openapi.json'']"

definition setup_path :: pystr where "setup_path = lit ''/ui/setup''"
definition login_path :: pystr where "login_path = lit ''/ui/login''"
definition change_path :: pystr where "change_path = lit ''/ui/change-password''"
definition auth_prefix :: pystr where "auth_prefix = lit ''/ui/auth''"

definition is_setup :: "pystr \<Rightarrow> bool" where
  "is_setup path \<longleftrightarrow> path = setup_path \<or> startswith path (auth_prefix @ lit ''/setup'')"

definition is_login :: "pystr \<Rightarrow> bool" where
  "is_login path \<longleftrightarrow> path = login_path \<or> startswith path (auth_prefix @ lit ''/login'')"

definition wants_html :: "web_request \<Rightarrow> bool" where
  "wants_html req =
     (let accept = or_empty (req_accept req)
      in if startswith (req_path req) (lit ''/api/'') then False
         else if contains (lit ''application/json'') accept \<and> \<not> contains (lit ''text/html'') accept then False
         else contains (lit ''text/html'') accept \<or> contains (lit ''*/*'') accept \<or> accept = [])"

definition is_htmx :: "web_request \<Rightarrow> bool" where
  "is_htmx req \<longleftrightarrow> lower (or_empty (req_hx req)) = lit ''true''"

text \<open>The three refusals differ in the page, the text and the status for HTMX and JSON.\<close>

definition web_redirect :: "environ \<Rightarrow> web_request \<Rightarrow> pystr \<Rightarrow> web_response" where
  [simp]: "web_redirect env req url = Redirect_To (join_root env req url) 303"

definition htmx_redirect :: "environ \<Rightarrow> web_request \<Rightarrow> pystr \<Rightarrow> int \<Rightarrow> web_response" where
  [simp]: "htmx_redirect env req url status = Hx_Redirect (join_root env req url) status"

definition refuse :: "environ \<Rightarrow> web_request \<Rightarrow> pystr \<Rightarrow> pystr \<Rightarrow> int \<Rightarrow> web_response" where
  "refuse env req page detail status =
     (if is_htmx req then htmx_redirect env req page status
      else if wants_html req then web_redirect env req page
      else Json_Detail detail status)"

definition unauthorized :: "environ \<Rightarrow> web_request \<Rightarrow> web_response" where
  "unauthorized env req = refuse env req login_path (lit ''Not authenticated'') 401"

definition forbidden_change :: "environ \<Rightarrow> web_request \<Rightarrow> web_response" where
  "forbidden_change env req = refuse env req change_path (lit ''Password change required'') 403"

definition need_setup :: "environ \<Rightarrow> web_request \<Rightarrow> web_response" where
  "need_setup env req = refuse env req setup_path (lit ''Admin setup required'') 401"

definition load_session :: "crypto \<Rightarrow> secret_box \<Rightarrow> int \<Rightarrow> web_request \<Rightarrow> session res" where
  "load_session C box now req =
     bindE (session_key C box) (\<lambda>key.
       if \<not> truthy (req_cookie req) then Inr []
       else bindE (decode_session C now (or_empty (req_cookie req)) key) (\<lambda>d.
         Inr (case d of None \<Rightarrow> [] | Some data \<Rightarrow> data)))"

definition session_admin :: "session \<Rightarrow> bool" where
  "session_admin s \<longleftrightarrow> map_of s (lit ''admin_user'') = Some (JStr admin_username)"

definition session_must_change :: "session \<Rightarrow> bool" where
  "session_must_change s \<longleftrightarrow> (case map_of s (lit ''must_change_password'') of None \<Rightarrow> False | Some j \<Rightarrow> truthy_json j)"

definition change_allowed :: "pystr list" where
  "change_allowed = [change_path, auth_prefix @ lit ''/change-password'', auth_prefix @ lit ''/logout'']"

text \<open>\<open>Inr\<close> a session is the call of the next handler; \<open>None\<close> leaves the request's session alone.\<close>

definition auth_gate ::
    "crypto \<Rightarrow> secret_box \<Rightarrow> environ \<Rightarrow> int \<Rightarrow> admin_table \<Rightarrow> web_request
      \<Rightarrow> (web_response + session option) res" where
  "auth_gate C box env now t req =
     (let path = req_path req
      in if path \<in> set public_paths then Inr (Inr None)
         else bindE (load_session C box now req) (\<lambda>data. Inr (
           if \<not> admin_exists t then (if is_setup path then Inr None else Inl (need_setup env req))
           else if is_setup path then Inl (web_redirect env req login_path)
           else if \<not> session_admin data then (if is_login path then Inr None else Inl (unauthorized env req))
           else if path \<in> set docs_paths then Inr (Some data)
           else if session_must_change data \<and> path \<notin> set change_allowed then Inl (forbidden_change env req)
           else Inr (Some data))))"

text \<open>What \<open>save_session\<close> does to the cookie: \<open>None\<close> deletes it.\<close>

definition save_session :: "crypto \<Rightarrow> secret_box \<Rightarrow> int \<Rightarrow> session \<Rightarrow> pystr option res" where
  "save_session C box now s =
     (if s = [] then Inr None
      else bindE (session_key C box) (\<lambda>key. Inr (Some (encode_session C now s key))))"

subsection \<open>The routes\<close>

text \<open>A route gives its response, the session it leaves and the table.\<close>

definition login_session :: "bool \<Rightarrow> session \<Rightarrow> session" where
  "login_session must_change s =
     AList.update (lit ''must_change_password'') (JBool must_change)
       (AList.update (lit ''admin_user'') (JStr admin_username) s)"

type_synonym route_result = "web_response \<times> session \<times> admin_table"

definition auth_redirect :: "environ \<Rightarrow> web_request \<Rightarrow> pystr \<Rightarrow> web_response" where
  [simp]: "auth_redirect env req path = Redirect_To (join_root env req path) 303"

definition setup_page :: "pystr \<Rightarrow> int \<Rightarrow> web_response" where
  "setup_page err status = Page (lit ''auth/setup.html'') (Some err) status"

definition auth_setup ::
    "crypto \<Rightarrow> bytes \<Rightarrow> environ \<Rightarrow> web_request \<Rightarrow> pystr \<Rightarrow> pystr \<Rightarrow> session \<Rightarrow> admin_table \<Rightarrow> route_result" where
  "auth_setup C salt env req password password_confirm s t =
     (if password \<noteq> password_confirm
      then (setup_page (lit ''Passwords do not match'') 400, s, t)
      else if admin_exists t then (auth_redirect env req login_path, s, t)
      else (case create_admin C salt password False t of
          Inl e \<Rightarrow> (setup_page (exn_text e) 400, s, t)
        | Inr t' \<Rightarrow> (auth_redirect env req [47], login_session False s, t')))"

definition auth_login ::
    "crypto \<Rightarrow> environ \<Rightarrow> web_request \<Rightarrow> pystr \<Rightarrow> session \<Rightarrow> admin_table \<Rightarrow> route_result" where
  "auth_login C env req password s t =
     (case get_admin t of
        None \<Rightarrow> (auth_redirect env req setup_path, s, t)
      | Some row \<Rightarrow>
          if \<not> check_admin_password C password t
          then (Page (lit ''auth/login.html'') (Some (lit ''Invalid password'')) 401, s, t)
          else (auth_redirect env req (if ad_must_change row then change_path else [47]),
                login_session (ad_must_change row) s, t))"

text \<open>\<open>quote_url\<close> is \<open>urllib.parse.quote\<close>, for the error in the address of the account page.\<close>

definition account_path :: pystr where "account_path = lit ''/ui/account''"

definition change_failed ::
    "(pystr \<Rightarrow> pystr) \<Rightarrow> environ \<Rightarrow> web_request \<Rightarrow> pystr \<Rightarrow> pystr \<Rightarrow> int \<Rightarrow> web_response" where
  "change_failed quote_url env req next_url msg status =
     (if startswith next_url account_path
      then auth_redirect env req (lit ''/ui/account?error='' @ quote_url msg)
      else Page (lit ''auth/change_password.html'') (Some msg) status)"

definition auth_change_password ::
    "crypto \<Rightarrow> bytes \<Rightarrow> (pystr \<Rightarrow> pystr) \<Rightarrow> environ \<Rightarrow> web_request \<Rightarrow> pystr \<Rightarrow> pystr \<Rightarrow> pystr \<Rightarrow> pystr
      \<Rightarrow> session \<Rightarrow> admin_table \<Rightarrow> route_result" where
  "auth_change_password C salt quote_url env req current_password password password_confirm nxt s t =
     (if \<not> session_admin s then (auth_redirect env req login_path, s, t)
      else let next_url = (if startswith nxt (lit ''/ui/'') \<or> nxt = [47] then nxt else [47])
      in if password \<noteq> password_confirm
         then (change_failed quote_url env req next_url (lit ''New passwords do not match'') 400, s, t)
         else if \<not> check_admin_password C current_password t
         then (change_failed quote_url env req next_url (lit ''Current password is incorrect'') 401, s, t)
         else (case set_admin_password C salt password False t of
             Inl e \<Rightarrow> (change_failed quote_url env req next_url (exn_text e) 400, s, t)
           | Inr t' \<Rightarrow>
               (auth_redirect env req
                  (if startswith next_url account_path then lit ''/ui/account?ok=1'' else next_url),
                AList.update (lit ''must_change_password'') (JBool False) s, t')))"

definition auth_logout :: "environ \<Rightarrow> web_request \<Rightarrow> session \<Rightarrow> admin_table \<Rightarrow> route_result" where
  "auth_logout env req s t = (auth_redirect env req login_path, [], t)"

definition ui_setup :: "environ \<Rightarrow> web_request \<Rightarrow> admin_table \<Rightarrow> web_response" where
  "ui_setup env req t =
     (if admin_exists t then auth_redirect env req login_path
      else Page (lit ''auth/setup.html'') None 200)"

definition ui_login :: "environ \<Rightarrow> web_request \<Rightarrow> session \<Rightarrow> admin_table \<Rightarrow> web_response" where
  "ui_login env req s t =
     (if \<not> admin_exists t then auth_redirect env req setup_path
      else if session_admin s
      then auth_redirect env req (if session_must_change s then change_path else [47])
      else Page (lit ''auth/login.html'') None 200)"

definition ui_change_password :: "environ \<Rightarrow> web_request \<Rightarrow> session \<Rightarrow> web_response" where
  "ui_change_password env req s =
     (if \<not> session_admin s then auth_redirect env req login_path
      else Page (lit ''auth/change_password.html'') None 200)"

subsection \<open>No way around the login\<close>

lemma load_session_signed:
  assumes "load_session C box now req = Inr s" "s \<noteq> []"
  shows "\<exists>key payload a b. session_key C box = Inr key \<and> req_cookie req = Some (a @ 46 # b)
    \<and> urlsafe_b64decode a = Inr payload \<and> urlsafe_b64decode b = Inr (hmac_sha256 C key payload)
    \<and> decode_payload now payload = Inr (Some s)"
proof -
  from assms obtain key token where key: "session_key C box = Inr key" and c: "req_cookie req = Some token"
    and d: "decode_session C now token key = Inr (Some s)"
    by (cases "req_cookie req")
      (auto simp: load_session_def bindE_Inr_iff split: if_splits option.splits)
  with decode_session_signed [OF d] show ?thesis by auto
qed

lemma gate_granted:
  "case auth_gate C box env now t req of
     Inr (Inr granted) \<Rightarrow>
       (case granted of
          None \<Rightarrow> req_path req \<in> set public_paths \<or> (if admin_exists t then is_login (req_path req) else is_setup (req_path req))
        | Some s \<Rightarrow> admin_exists t \<and> session_admin s \<and> \<not> is_setup (req_path req)
            \<and> (if session_must_change s then req_path req \<in> set change_allowed \<union> set docs_paths else True)
            \<and> (\<exists>key payload a b. session_key C box = Inr key \<and> req_cookie req = Some (a @ 46 # b)
                 \<and> urlsafe_b64decode a = Inr payload \<and> urlsafe_b64decode b = Inr (hmac_sha256 C key payload)
                 \<and> decode_payload now payload = Inr (Some s)))
   | _ \<Rightarrow> True"
proof (cases "req_path req \<in> set public_paths")
  case True
  then show ?thesis by (simp add: auth_gate_def Let_def)
next
  case False
  show ?thesis
  proof (cases "load_session C box now req")
    case (Inl e)
    then show ?thesis using False by (simp add: auth_gate_def Let_def)
  next
    case (Inr s)
    have "s \<noteq> []" if "session_admin s" using that by (auto simp: session_admin_def)
    then show ?thesis
      using False Inr load_session_signed [OF Inr]
      by (auto simp: auth_gate_def Let_def)
  qed
qed

lemma gate_reached:
  assumes "auth_gate C box env now t req = Inr (Inr granted)"
  shows "case granted of
      None \<Rightarrow> req_path req \<in> set public_paths \<or> (if admin_exists t then is_login (req_path req) else is_setup (req_path req))
    | Some s \<Rightarrow> admin_exists t \<and> session_admin s \<and> \<not> is_setup (req_path req)
        \<and> (\<exists>key payload a b. session_key C box = Inr key \<and> req_cookie req = Some (a @ 46 # b)
             \<and> urlsafe_b64decode a = Inr payload \<and> urlsafe_b64decode b = Inr (hmac_sha256 C key payload)
             \<and> decode_payload now payload = Inr (Some s))"
  using gate_granted [where C = C and box = box and env = env and now = now and t = t and req = req] unfolding assms
  by (auto split: option.splits if_splits)

text \<open>
  The gate: a request reaches a route only if its path is one of the three public ones, or
  the setup page while no administrator exists, or the login page, or it carries a cookie
  signed under the key of this installation, not expired and naming the administrator; and as
  long as that session says the password must be changed, only the pages for that, the logout
  and the API documentation are reached.
\<close>

lemma gate_requires_signed_login:
  "case auth_gate C box env now t req of
     Inr (Inr granted) \<Rightarrow>
       (case granted of
          None \<Rightarrow> req_path req \<in> set public_paths \<or> (if admin_exists t then is_login (req_path req) else is_setup (req_path req))
        | Some s \<Rightarrow> admin_exists t \<and> session_admin s \<and> \<not> is_setup (req_path req)
            \<and> (if session_must_change s then req_path req \<in> set change_allowed \<union> set docs_paths else True)
            \<and> (\<exists>key payload a b. session_key C box = Inr key \<and> req_cookie req = Some (a @ 46 # b)
                 \<and> urlsafe_b64decode a = Inr payload \<and> urlsafe_b64decode b = Inr (hmac_sha256 C key payload)
                 \<and> decode_payload now payload = Inr (Some s)))
   | _ \<Rightarrow> True"
  by (rule gate_granted)

end
