(* ===== verification/Config_Boot.thy ===== *)
theory Config_Boot
  imports Config_Store
begin

section \<open>Configuration at start and as a bundle (config\_load.py, config/load.py, config/export.py)\<close>

text \<open>
  \<open>load_config_from_env\<close> builds a configuration out of environment variables, \<open>bootstrap_config\<close>
  takes the stored one or stores that of the environment, and \<open>export_config\<close> and
  \<open>import_config\<close> turn a configuration into an encrypted text and back. The JSON text pydantic
  writes for a bundle is the argument \<open>to_json\<close>; \<open>json_writer_law\<close> says that \<open>json.loads\<close> reads
  it back and that it has a UTF-8 encoding. \<open>db/url.py\<close>, \<open>observability/ha.py\<close> and
  \<open>auth/settings.py\<close> only read the environment and stand here too.
\<close>

subsection \<open>From the environment\<close>

definition env_or :: "environ \<Rightarrow> string \<Rightarrow> pystr option \<Rightarrow> pystr option" where
  "env_or env name dflt =
     (case env (lit name) of None \<Rightarrow> dflt | Some v \<Rightarrow> if v = [] then dflt else Some v)"

definition env_text :: "environ \<Rightarrow> string \<Rightarrow> string \<Rightarrow> pystr" where
  "env_text env name dflt =
     (case env_or env name (Some (lit dflt)) of None \<Rightarrow> lit dflt
      | Some v \<Rightarrow> if v = [] then lit dflt else v)"

definition valid_or :: "'a option \<Rightarrow> 'a res" where
  "valid_or v = (case v of None \<Rightarrow> Inl validation_error | Some c \<Rightarrow> Inr c)"

definition comma_list :: "pystr \<Rightarrow> pystr list" where
  "comma_list s = filter (\<lambda>p. p \<noteq> []) (map strip (split_at 44 s))"

definition smtp_from_env :: "pydantic \<Rightarrow> environ \<Rightarrow> smtp_config res" where
  "smtp_from_env P env =
     bindE (py_int (env_text env ''MSGATE_SMTP_PORT'' ''1025'')) (\<lambda>port.
       valid_or (validate_smtp P (JObj
         [(lit ''bind_address'', JStr (env_text env ''MSGATE_SMTP_BIND'' ''127.0.0.1'')),
          (lit ''port'', JInt port),
          (lit ''allowed_ips'', JList (map JStr
             (comma_list (env_text env ''MSGATE_SMTP_ALLOWED_IPS'' ''127.0.0.1''))))])))"

definition trust_from_env :: "environ \<Rightarrow> bool" where
  "trust_from_env env \<longleftrightarrow> lower (env_text env ''MSGATE_EWS_TRUST_SELF_SIGNED'' ''false'')
     \<in> {lit ''1'', lit ''true'', lit ''yes''}"

definition tls_mode_from_env :: "environ \<Rightarrow> pystr" where
  "tls_mode_from_env env =
     (let mode = lower (env_text env ''MSGATE_EWS_TLS_MODE'' ''auto'')
      in if mode \<in> {lit ''auto'', lit ''modern'', lit ''legacy''} then mode else lit ''auto'')"

definition auth_from_env :: "environ \<Rightarrow> auth_type" where
  "auth_from_env env =
     (if lower (env_text env ''MSGATE_EWS_AUTH_TYPE'' ''ntlm'') = lit ''basic'' then BASIC else NTLM)"

text \<open>\<open>EWSConfig(...)\<close> with every field given.\<close>

definition make_ews ::
    "pydantic \<Rightarrow> pystr \<Rightarrow> auth_type \<Rightarrow> pystr option \<Rightarrow> pystr option \<Rightarrow> pystr option \<Rightarrow> bool
      \<Rightarrow> pystr option \<Rightarrow> pystr \<Rightarrow> pystr option \<Rightarrow> ews_config res" where
  "make_ews P url auth dmn user pass trust ca mode prim =
     valid_or (validate_ews P (dump_ews \<lparr>server_url = url, ews_auth = auth, ews_domain = dmn,
       ews_username = user, ews_password = pass, trust_self_signed = trust, ca_file = ca,
       tls_mode = mode, primary_smtp = prim\<rparr>))"

definition ews_from_env :: "pydantic \<Rightarrow> environ \<Rightarrow> ews_config option res" where
  "ews_from_env P env =
     (case env_or env ''MSGATE_EWS_URL'' None of
        None \<Rightarrow> Inr None
      | Some url \<Rightarrow> bindE (make_ews P url (auth_from_env env)
          (env_or env ''MSGATE_EWS_DOMAIN'' None) (env_or env ''MSGATE_EWS_USERNAME'' None)
          (env_or env ''MSGATE_EWS_PASSWORD'' None) (trust_from_env env)
          (env_or env ''MSGATE_EWS_CA_FILE'' None) (tls_mode_from_env env)
          (env_or env ''MSGATE_EWS_PRIMARY_SMTP'' None)) (\<lambda>c. Inr (Some c)))"

text \<open>\<open>_env(name) or (ews.field if ews else None)\<close>\<close>

definition inherit :: "environ \<Rightarrow> string \<Rightarrow> (ews_config \<Rightarrow> pystr option) \<Rightarrow> ews_config option \<Rightarrow> pystr option" where
  "inherit env name field primary =
     (let own = env_or env name None in if own \<noteq> None then own else Option.bind primary field)"

definition failover_from_env :: "pydantic \<Rightarrow> environ \<Rightarrow> ews_config option \<Rightarrow> ews_config option res" where
  "failover_from_env P env primary =
     (case env_or env ''MSGATE_EWS_FAILOVER_URL'' None of
        None \<Rightarrow> Inr None
      | Some url \<Rightarrow> bindE (make_ews P url
          (case primary of None \<Rightarrow> NTLM | Some e \<Rightarrow> ews_auth e)
          (inherit env ''MSGATE_EWS_FAILOVER_DOMAIN'' ews_domain primary)
          (inherit env ''MSGATE_EWS_FAILOVER_USERNAME'' ews_username primary)
          (inherit env ''MSGATE_EWS_FAILOVER_PASSWORD'' ews_password primary)
          (primary \<noteq> None \<and> trust_from_env env)
          (inherit env ''MSGATE_EWS_FAILOVER_CA_FILE'' ca_file primary)
          (if primary \<noteq> None then tls_mode_from_env env else lit ''auto'')
          (inherit env ''MSGATE_EWS_FAILOVER_PRIMARY_SMTP'' primary_smtp primary)) (\<lambda>c. Inr (Some c)))"

definition load_config_from_env :: "pydantic \<Rightarrow> environ \<Rightarrow> gateway_config res" where
  "load_config_from_env P env =
     bindE (smtp_from_env P env) (\<lambda>smtp.
     bindE (ews_from_env P env) (\<lambda>primary.
     bindE (failover_from_env P env primary) (\<lambda>failover.
     bindE (valid_or (as_opt (as_email P)
              (empty_str_to_none (json_opt (env_or env ''MSGATE_DEFAULT_SENDER'' None))))) (\<lambda>sender.
       Inr \<lparr>backend = EWS, smtp = smtp, ews = primary, ews_failover = failover, graph = None,
         default_sender = sender\<rparr>))))"

subsection \<open>At start\<close>

definition bootstrap_config ::
    "crypto \<Rightarrow> pydantic \<Rightarrow> secret_box \<Rightarrow> bytes \<times> bytes \<times> bytes \<Rightarrow> environ \<Rightarrow> settings
      \<Rightarrow> (gateway_config \<times> settings) res" where
  "bootstrap_config C P box nonces env db =
     bindE (load_config_from_env P env) (\<lambda>env_cfg.
     bindE (load_config C P box db) (\<lambda>stored.
       case stored of
         None \<Rightarrow> bindE (save_config C box nonces env_cfg db) (\<lambda>db'. Inr (env_cfg, db'))
       | Some cfg \<Rightarrow> Inr (cfg, db)))"

subsection \<open>Bundles\<close>

definition json_writer_law :: "(json \<Rightarrow> pystr) \<Rightarrow> bool" where
  "json_writer_law to_json \<longleftrightarrow>
     (\<forall>j. wf_json j \<longrightarrow> loads (to_json j) = Some j \<and> list_all is_scalar (to_json j))"

definition config_bundle :: "pystr \<Rightarrow> gateway_config \<Rightarrow> json" where
  "config_bundle exported_at config = JObj
     [(lit ''version'', JInt 1), (lit ''exported_at'', JStr exported_at),
      (lit ''config'', model_dump config)]"

definition export_config ::
    "crypto \<Rightarrow> (json \<Rightarrow> pystr) \<Rightarrow> secret_box \<Rightarrow> bytes \<Rightarrow> pystr \<Rightarrow> gateway_config \<Rightarrow> pystr res" where
  "export_config C to_json box nonce exported_at config =
     encrypt C nonce box (to_json (config_bundle exported_at config))"

text \<open>\<open>ConfigBundle.model_validate\<close>: \<open>config\<close> must be there and be an object.\<close>

definition bundle_config :: "pydantic \<Rightarrow> json \<Rightarrow> json option" where
  "bundle_config P j =
     Option.bind (obj_of j) (\<lambda>kvs.
     Option.bind (field_or 1 (as_int P) kvs (lit ''version'')) (\<lambda>_.
     Option.bind (field_or [] as_str kvs (lit ''exported_at'')) (\<lambda>_.
     Option.bind (field_req obj_of kvs (lit ''config'')) (\<lambda>c. Some (JObj c)))))"

definition import_config :: "crypto \<Rightarrow> pydantic \<Rightarrow> secret_box \<Rightarrow> pystr \<Rightarrow> gateway_config res" where
  "import_config C P box token =
     bindE (decrypt C box token) (\<lambda>text.
       case loads text of
         None \<Rightarrow> Inl (Exn ValueError (lit ''JSONDecodeError''))
       | Some j \<Rightarrow> valid_or (Option.bind (bundle_config P j) (model_validate P)))"

subsection \<open>Other settings of the environment\<close>

text \<open>\<open>resolved\<close> is the absolute path of the database file under the data directory.\<close>

definition resolve_database_url :: "environ \<Rightarrow> pystr \<Rightarrow> pystr" where
  "resolve_database_url env resolved =
     (let raw = strip (or_empty (env (lit ''MSGATE_DATABASE_URL'')))
      in if raw \<noteq> [] then raw else lit ''sqlite:///'' @ resolved)"

definition is_sqlite_url :: "pystr \<Rightarrow> bool" where
  "is_sqlite_url url = startswith url (lit ''sqlite:'')"

record ha_status =
  ha_node_id :: pystr
  ha_role :: pystr
  ha_vrrp_state :: pystr
  ha_leader_node :: pystr

definition env_get :: "environ \<Rightarrow> string \<Rightarrow> pystr \<Rightarrow> pystr" where
  "env_get env name dflt = (case env (lit name) of None \<Rightarrow> dflt | Some v \<Rightarrow> v)"

definition read_ha_status :: "environ \<Rightarrow> ha_status" where
  "read_ha_status env =
     (let node = env_get env ''MSGATE_NODE_ID'' (lit ''node-1'')
      in \<lparr>ha_node_id = node, ha_role = env_get env ''MSGATE_HA_ROLE'' (lit ''standalone''),
          ha_vrrp_state = env_get env ''MSGATE_VRRP_STATE'' (lit ''UNKNOWN''),
          ha_leader_node = env_get env ''MSGATE_HA_LEADER'' node\<rparr>)"

definition external_help_url :: "environ \<Rightarrow> pystr" where
  "external_help_url env =
     strip (env_get env ''MSGATE_HELP_URL'' (lit ''https://github.com/reza117/msgate/tree/main/docs''))"

subsection \<open>What the environment gives is valid\<close>

lemma valid_or_Inr [simp]: "valid_or v = Inr c \<longleftrightarrow> v = Some c"
  by (auto simp: valid_or_def split: option.splits)

lemma make_ews_valid:
  "pydantic_law P \<Longrightarrow> make_ews P url auth dmn user pass trust ca mode prim = Inr c \<Longrightarrow> valid_ews P c"
  by (auto simp: make_ews_def dest: validate_ews_valid)

lemma env_config_valid:
  assumes "pydantic_law P" "load_config_from_env P env = Inr c"
  shows "valid_config P c"
proof -
  from assms(2) obtain d where
    s: "smtp_from_env P env = Inr (smtp c)" and e: "ews_from_env P env = Inr (ews c)" and
    f: "failover_from_env P env (ews c) = Inr (ews_failover c)" and g: "graph c = None" and
    d: "as_opt (as_email P) d = Some (default_sender c)"
    by (auto simp: load_config_from_env_def bindE_Inr_iff)
  from s have "valid_smtp (smtp c)"
    by (auto simp: smtp_from_env_def bindE_Inr_iff intro: validate_smtp_valid)
  moreover have "pred_option (valid_ews P) (ews c)"
    using e make_ews_valid [OF assms(1)]
    by (cases "ews c") (auto simp: ews_from_env_def bindE_Inr_iff split: option.splits)
  moreover have "pred_option (valid_ews P) (ews_failover c)"
    using f make_ews_valid [OF assms(1)]
    by (cases "ews_failover c") (auto simp: failover_from_env_def bindE_Inr_iff split: option.splits)
  moreover from d assms(1) have "case default_sender c of None \<Rightarrow> True
      | Some s \<Rightarrow> parse_email P s = Some s \<and> list_all is_scalar s \<and> strip s \<noteq> []"
    by (auto simp: as_opt_def as_email_def pydantic_law_def bind_eq_Some_conv split: if_splits option.split)
  ultimately show ?thesis using g by (simp add: valid_config_def)
qed

lemma tls_mode_known: "tls_mode_from_env env \<in> {lit ''auto'', lit ''modern'', lit ''legacy''}"
  by (auto simp: tls_mode_from_env_def Let_def)

subsection \<open>The first start decides\<close>

lemma bootstrap_loads:
  assumes laws: "aead_law C" "pydantic_law P"
    and nonces: "length n1 = 12" "length n2 = 12" "length n3 = 12"
    and boot: "bootstrap_config C P box (n1, n2, n3) env db = Inr (c, db')"
  shows "load_config C P box db' = Inr (Some c)"
proof -
  from boot obtain e st where e: "load_config_from_env P env = Inr e"
    and st: "load_config C P box db = Inr st"
    and rest: "(case st of None \<Rightarrow> bindE (save_config C box (n1, n2, n3) e db) (\<lambda>db'. Inr (e, db'))
       | Some cfg \<Rightarrow> Inr (cfg, db)) = Inr (c, db')"
    by (auto simp: bootstrap_config_def bindE_Inr_iff)
  show ?thesis
  proof (cases st)
    case None
    with rest have "c = e" and "save_config C box (n1, n2, n3) c db = Inr db'"
      by (auto simp: bindE_Inr_iff)
    with load_saved [OF laws env_config_valid [OF laws(2) e] nonces, of box db] show ?thesis
      by simp
  next
    case (Some cfg)
    with rest st show ?thesis by simp
  qed
qed

text \<open>
  C32. The environment decides at the first start only: after a start that came up with
  configuration \<open>c\<close>, every later start with the same key, whatever its environment, either comes
  up with \<open>c\<close> and leaves the settings as they are, or does not come up at all, and that exactly
  when its environment is not a configuration (the variables are parsed even though the stored
  configuration is the one that counts).
\<close>

theorem bootstrap_seeds_once:
  assumes "aead_law C" "pydantic_law P" "length n1 = 12" "length n2 = 12" "length n3 = 12"
    and "bootstrap_config C P box (n1, n2, n3) env db = Inr (c, db')"
  shows "bootstrap_config C P box nonces env' db' =
    (case load_config_from_env P env' of Inl e \<Rightarrow> Inl e | Inr _ \<Rightarrow> Inr (c, db'))"
  using bootstrap_loads [OF assms] by (simp add: bootstrap_config_def bindE_def split: sum.split)

definition sample_env :: environ where
  "sample_env = (\<lambda>name. if name = lit ''MSGATE_SMTP_PORT'' then Some (lit ''2525'')
     else if name = lit ''MSGATE_EWS_URL'' then Some (lit ''https://ex/EWS'')
     else if name = lit ''MSGATE_EWS_PASSWORD'' then Some (lit ''pw'') else None)"

definition first_start :: "(gateway_config \<times> settings) res" where
  "first_start = bootstrap_config toy_crypto toy_pydantic \<lparr>box_key = []\<rparr>
     (replicate 12 1, replicate 12 2, replicate 12 3) (\<lambda>_. None) []"

lemma env_default: "load_config_from_env toy_pydantic (\<lambda>_. None) =
  Inr \<lparr>backend = EWS, smtp = default_smtp, ews = None, ews_failover = None, graph = None,
    default_sender = None\<rparr>"
  by code_simp

lemma env_bad_port: "load_config_from_env toy_pydantic (\<lambda>name. Some (lit ''x'')) =
  Inl (Exn ValueError (lit ''invalid literal for int() with base 10''))"
  by code_simp

lemma first_start_ok: "\<exists>c db. first_start = Inr (c, db)"
proof -
  have "valid_config toy_pydantic \<lparr>backend = EWS, smtp = default_smtp, ews = None, ews_failover = None,
      graph = None, default_sender = None\<rparr>"
    by (rule env_config_valid [OF toy_pydantic_law env_default])
  then show ?thesis
    by (simp add: first_start_def bootstrap_config_def env_default load_config_def get_setting_def
        save_config_Inr valid_scalar)
qed

theorem bootstrap_seeds_once_witness:
  "\<exists>c db'. first_start = Inr (c, db')
    \<and> bootstrap_config toy_crypto toy_pydantic \<lparr>box_key = []\<rparr> ([], [], []) (\<lambda>_. None) db' = Inr (c, db')
    \<and> bootstrap_config toy_crypto toy_pydantic \<lparr>box_key = []\<rparr> ([], [], []) (\<lambda>_. Some (lit ''x'')) db' =
        Inl (Exn ValueError (lit ''invalid literal for int() with base 10''))"
proof -
  obtain c db' where s: "first_start = Inr (c, db')" using first_start_ok by blast
  note once = bootstrap_seeds_once [OF toy_laws(1) toy_pydantic_law _ _ _ s [unfolded first_start_def]]
  have "bootstrap_config toy_crypto toy_pydantic \<lparr>box_key = []\<rparr> ([], [], []) (\<lambda>_. None) db' = Inr (c, db')"
    using once by (simp add: env_default)
  moreover have "bootstrap_config toy_crypto toy_pydantic \<lparr>box_key = []\<rparr> ([], [], []) (\<lambda>_. Some (lit ''x'')) db' =
      Inl (Exn ValueError (lit ''invalid literal for int() with base 10''))"
    using once by (simp add: env_bad_port)
  ultimately show ?thesis using s by blast
qed

subsection \<open>Bundles\<close>

lemma wf_bundle:
  "list_all is_scalar ts \<Longrightarrow> scalar_config c \<Longrightarrow> wf_json (config_bundle ts c)"
  by (auto simp: config_bundle_def wf_model_dump lit_def is_scalar_def)

lemma bundle_config_dump:
  "pydantic_law P \<Longrightarrow> list_all is_scalar ts \<Longrightarrow>
   bundle_config P (config_bundle ts c) = Some (model_dump c)"
  by (simp add: bundle_config_def config_bundle_def field_or_def field_req_def pydantic_law_def model_dump_def)

text \<open>
  C34. Importing a bundle gives back the configuration that was exported, secrets included, for
  every configuration validation accepts; the export itself does not fail.
\<close>

theorem import_exported_config:
  assumes "aead_law C" "pydantic_law P" "json_writer_law to_json" "valid_config P c"
    and "length nonce = 12" "list_all is_scalar ts"
  shows "\<exists>token. export_config C to_json box nonce ts c = Inr token
    \<and> import_config C P box token = Inr c"
proof -
  let ?text = "to_json (config_bundle ts c)"
  have written: "loads ?text = Some (config_bundle ts c)" "list_all is_scalar ?text"
    using assms(3) wf_bundle [OF assms(6) valid_scalar [OF assms(4)]] by (auto simp: json_writer_law_def)
  obtain token where token: "encrypt C nonce box ?text = Inr token"
    using encrypt_Inr [OF written(2)] by blast
  then have "import_config C P box token = Inr c"
    using decrypt_encrypt [OF assms(1,5) token] written(1)
    by (simp add: import_config_def bundle_config_dump [OF assms(2,6)] validate_dump [OF assms(2,4)])
  with token show ?thesis by (simp add: export_config_def)
qed

text \<open>The writer \<open>dumps\<close> has the law, so it can stand for pydantic's in the witness.\<close>

lemma hex_digit_scalar: "0 \<le> d \<Longrightarrow> d < 16 \<Longrightarrow> is_scalar (hex_digit d)"
  by (simp add: hex_digit_def is_scalar_def)

lemma u_escape_scalar: "0 \<le> c \<Longrightarrow> c < 65536 \<Longrightarrow> list_all is_scalar (u_escape c)"
  by (auto simp: u_escape_def hex4_def is_scalar_def [of 92] is_scalar_def [of 117]
      intro!: hex_digit_scalar)

lemma esc_char_scalar: "is_scalar c \<Longrightarrow> list_all is_scalar (esc_char c)"
proof -
  assume c: "is_scalar c"
  then have "0 \<le> 55296 + (c - 65536) div 1024 \<and> 55296 + (c - 65536) div 1024 < 65536" if "65536 \<le> c"
    using that by (auto simp: is_scalar_def)
  with c show ?thesis
    by (simp add: esc_char_def u_escape_scalar is_scalar_def [of c])
      (auto simp: is_scalar_def intro: u_escape_scalar)
qed

lemma dump_str_scalar: "list_all is_scalar s \<Longrightarrow> list_all is_scalar (dump_str s)"
  by (induction s) (simp_all add: dump_str_def esc_char_scalar is_scalar_def [of 34])

lemma join_with_scalar:
  "list_all is_scalar sep \<Longrightarrow> list_all (list_all is_scalar) ws \<Longrightarrow> list_all is_scalar (join_with sep ws)"
  by (induction sep ws rule: join_with.induct) auto

lemma str_int_scalar: "list_all is_scalar (str_int i)"
  by (auto simp: str_int_def list_all_iff is_scalar_def is_digit_def dest!: digits_are_digits)

lemma dumps_scalar:
  assumes "list_all is_scalar isep" "list_all is_scalar ksep" "wf_json j"
  shows "list_all is_scalar (dumps isep ksep j)"
  using assms(3)
proof (induction j)
  case (JBool b)
  then show ?case by (auto simp: lit_def is_scalar_def)
next
  case (JList xs)
  then have "list_all (list_all is_scalar) (map (dumps isep ksep) xs)" by (auto simp: list_all_iff)
  from join_with_scalar [OF assms(1) this] show ?case by (simp add: is_scalar_def [of 91] is_scalar_def [of 93])
next
  case (JObj kvs)
  have "list_all (list_all is_scalar) (map (\<lambda>(k, v). dump_str k @ ksep @ dumps isep ksep v) kvs)"
    using JObj assms(2) by (fastforce simp: list_all_iff dest: dump_str_scalar [unfolded list_all_iff])
  from join_with_scalar [OF assms(1) this] show ?case by (simp add: is_scalar_def [of 123] is_scalar_def [of 125])
qed (simp_all add: str_int_scalar dump_str_scalar, simp add: lit_def is_scalar_def)

lemma dumps_writer [simp]: "json_writer_law dumps_compact"
  by (simp add: json_writer_law_def loads_dumps dumps_scalar is_scalar_def)

theorem import_exported_config_witness:
  "\<exists>token. export_config toy_crypto dumps_compact \<lparr>box_key = []\<rparr> (replicate 12 5)
      (lit ''2026-01-15T12:00:00+00:00'') sample_config = Inr token
    \<and> import_config toy_crypto toy_pydantic \<lparr>box_key = []\<rparr> token = Inr sample_config"
  by (rule import_exported_config) (simp_all add: lit_def is_scalar_def)

end
