(* ===== verification/Ops_Settings.thy ===== *)
theory Ops_Settings
  imports Config_Store
begin

section \<open>Stored settings of the operating reports (ops/alerts\_config.py, ops/digest\_state.py)\<close>

text \<open>
  Both are dataclasses kept as one JSON text in the settings table. \<open>load_ops_alerts\<close> assigns
  whatever value the text holds for a field, unchecked, so the fields are JSON documents and the
  code that uses one meets its type there (\<open>attr_strip\<close>, \<open>py_number\<close>); \<open>load_digest_state\<close> only takes
  strings.
\<close>

subsection \<open>Python operations on an unchecked value\<close>

definition type_error :: exn where
  "type_error = Exn TypeError (lit ''unsupported operand type'')"

text \<open>\<open>v.strip()\<close>, and a number in a comparison or in \<open>max\<close>.\<close>

definition attr_strip :: "json \<Rightarrow> pystr res" where
  "attr_strip v = (case v of JStr s \<Rightarrow> Inr (strip s) | _ \<Rightarrow> Inl no_attribute)"

definition py_number :: "json \<Rightarrow> int res" where
  "py_number v = (case v of JInt i \<Rightarrow> Inr i | JBool b \<Rightarrow> Inr (of_bool b) | _ \<Rightarrow> Inl type_error)"

definition to_int :: "json \<Rightarrow> int res" where
  "to_int v = (case v of JStr s \<Rightarrow> py_int s | _ \<Rightarrow> py_number v)"

text \<open>\<open>f in data\<close> and \<open>data[f]\<close> for a document that may not be an object.\<close>

definition read_field :: "json \<Rightarrow> pystr \<Rightarrow> json option res" where
  "read_field data f =
     (case data of
        JObj kvs \<Rightarrow> Inr (map_of kvs f)
      | JList xs \<Rightarrow> if JStr f \<in> set xs then Inl type_error else Inr None
      | JStr s \<Rightarrow> if contains f s then Inl type_error else Inr None
      | _ \<Rightarrow> Inl type_error)"

definition read_or :: "json \<Rightarrow> string \<Rightarrow> json \<Rightarrow> json res" where
  "read_or data f dflt = bindE (read_field data (lit f)) (\<lambda>v.
     Inr (case v of None \<Rightarrow> dflt | Some x \<Rightarrow> x))"

subsection \<open>Alerts and digests\<close>

record ops_alerts =
  admin_email :: json
  webhook_url :: json
  email_alerts_enabled :: json
  queue_warn_pending :: json
  queue_critical_pending :: json
  queue_warn_age_seconds :: json
  alert_cooldown_seconds :: json
  digest_daily_enabled :: json
  digest_weekly_enabled :: json
  digest_subject :: json
  digest_include_body :: json
  digest_hour_utc :: json
  digest_weekday :: json

definition subject_default :: pystr where
  "subject_default = lit ''[msgate] {period} digest''"

definition default_ops :: ops_alerts where
  "default_ops = \<lparr>admin_email = JStr [], webhook_url = JStr [], email_alerts_enabled = JBool True,
     queue_warn_pending = JInt 100, queue_critical_pending = JInt 500, queue_warn_age_seconds = JInt 300,
     alert_cooldown_seconds = JInt 900, digest_daily_enabled = JBool False,
     digest_weekly_enabled = JBool False, digest_subject = JStr subject_default,
     digest_include_body = JBool True, digest_hour_utc = JInt 6, digest_weekday = JInt 0\<rparr>"

definition ops_key :: pystr where "ops_key = lit ''ops_alerts''"

definition ops_asdict :: "ops_alerts \<Rightarrow> json" where
  "ops_asdict c = JObj
     [(lit ''admin_email'', admin_email c), (lit ''webhook_url'', webhook_url c),
      (lit ''email_alerts_enabled'', email_alerts_enabled c),
      (lit ''queue_warn_pending'', queue_warn_pending c),
      (lit ''queue_critical_pending'', queue_critical_pending c),
      (lit ''queue_warn_age_seconds'', queue_warn_age_seconds c),
      (lit ''alert_cooldown_seconds'', alert_cooldown_seconds c),
      (lit ''digest_daily_enabled'', digest_daily_enabled c),
      (lit ''digest_weekly_enabled'', digest_weekly_enabled c),
      (lit ''digest_subject'', digest_subject c), (lit ''digest_include_body'', digest_include_body c),
      (lit ''digest_hour_utc'', digest_hour_utc c), (lit ''digest_weekday'', digest_weekday c)]"

definition ops_of_json :: "json \<Rightarrow> ops_alerts res" where
  "ops_of_json d = (let b = default_ops in
     bindE (read_or d ''admin_email'' (admin_email b)) (\<lambda>a.
     bindE (read_or d ''webhook_url'' (webhook_url b)) (\<lambda>u.
     bindE (read_or d ''email_alerts_enabled'' (email_alerts_enabled b)) (\<lambda>en.
     bindE (read_or d ''queue_warn_pending'' (queue_warn_pending b)) (\<lambda>wp.
     bindE (read_or d ''queue_critical_pending'' (queue_critical_pending b)) (\<lambda>cp.
     bindE (read_or d ''queue_warn_age_seconds'' (queue_warn_age_seconds b)) (\<lambda>wa.
     bindE (read_or d ''alert_cooldown_seconds'' (alert_cooldown_seconds b)) (\<lambda>cd.
     bindE (read_or d ''digest_daily_enabled'' (digest_daily_enabled b)) (\<lambda>dd.
     bindE (read_or d ''digest_weekly_enabled'' (digest_weekly_enabled b)) (\<lambda>dw.
     bindE (read_or d ''digest_subject'' (digest_subject b)) (\<lambda>ds.
     bindE (read_or d ''digest_include_body'' (digest_include_body b)) (\<lambda>ib.
     bindE (read_or d ''digest_hour_utc'' (digest_hour_utc b)) (\<lambda>hr.
     bindE (read_or d ''digest_weekday'' (digest_weekday b)) (\<lambda>wd.
       Inr \<lparr>admin_email = a, webhook_url = u, email_alerts_enabled = en, queue_warn_pending = wp,
         queue_critical_pending = cp, queue_warn_age_seconds = wa, alert_cooldown_seconds = cd,
         digest_daily_enabled = dd, digest_weekly_enabled = dw, digest_subject = ds,
         digest_include_body = ib, digest_hour_utc = hr, digest_weekday = wd\<rparr>))))))))))))))"

definition load_ops_alerts :: "settings \<Rightarrow> ops_alerts res" where
  "load_ops_alerts db =
     (case get_setting db ops_key of
        None \<Rightarrow> Inr default_ops
      | Some raw \<Rightarrow>
          if strip raw = [] then Inr default_ops
          else (case loads raw of None \<Rightarrow> Inr default_ops | Some d \<Rightarrow> ops_of_json d))"

definition save_ops_alerts :: "ops_alerts \<Rightarrow> settings \<Rightarrow> settings" where
  "save_ops_alerts c db = put_setting ops_key (dumps_compact (ops_asdict c)) db"

subsection \<open>The last digests\<close>

record digest_state =
  last_daily :: pystr
  last_weekly :: pystr

definition digest_key :: pystr where "digest_key = lit ''ops_digest_state''"

definition read_text_or :: "json \<Rightarrow> string \<Rightarrow> pystr res" where
  "read_text_or d f = bindE (read_field d (lit f)) (\<lambda>v.
     Inr (case v of Some (JStr s) \<Rightarrow> s | _ \<Rightarrow> []))"

definition load_digest_state :: "settings \<Rightarrow> digest_state res" where
  "load_digest_state db =
     (let fresh = \<lparr>last_daily = [], last_weekly = []\<rparr>
      in case get_setting db digest_key of
           None \<Rightarrow> Inr fresh
         | Some raw \<Rightarrow>
             if strip raw = [] then Inr fresh
             else (case loads raw of None \<Rightarrow> Inr fresh
               | Some d \<Rightarrow> bindE (read_text_or d ''last_daily'') (\<lambda>a.
                   bindE (read_text_or d ''last_weekly'') (\<lambda>b.
                     Inr \<lparr>last_daily = a, last_weekly = b\<rparr>))))"

definition save_digest_state :: "digest_state \<Rightarrow> settings \<Rightarrow> settings" where
  "save_digest_state st db = put_setting digest_key
     (dumps_compact (JObj [(lit ''last_daily'', JStr (last_daily st)), (lit ''last_weekly'', JStr (last_weekly st))])) db"

subsection \<open>Reading back\<close>

lemma dumps_obj_not_blank: "strip (dumps_compact (JObj kvs)) \<noteq> []"
proof -
  have "dropWhile is_space (rev (dumps_compact (JObj kvs))) = rev (dumps_compact (JObj kvs))"
    by (simp add: is_space_def)
  then show ?thesis by (simp add: strip_def lstrip_def rstrip_where_def is_space_def)
qed

lemma loads_obj:
  "wf_json (JObj kvs) \<Longrightarrow> loads (dumps_compact (JObj kvs)) = Some (JObj kvs)"
  by (rule loads_dumps) simp_all

lemma keys_differ [simp]: "ops_key \<noteq> digest_key" "digest_key \<noteq> ops_key" "ops_key \<noteq> config_key"
    "config_key \<noteq> ops_key" "digest_key \<noteq> config_key" "config_key \<noteq> digest_key"
  by (simp_all add: ops_key_def digest_key_def config_key_def)

definition wf_ops :: "ops_alerts \<Rightarrow> bool" where
  "wf_ops c \<longleftrightarrow> wf_json (ops_asdict c)"

lemma load_saved_ops: "wf_ops c \<Longrightarrow> load_ops_alerts (save_ops_alerts c db) = Inr c"
  unfolding load_ops_alerts_def save_ops_alerts_def wf_ops_def ops_asdict_def
  by (simp add: settings.lookup_put_same loads_obj dumps_obj_not_blank ops_of_json_def read_or_def
      read_field_def Let_def del: dumps.simps)

lemma load_saved_digest_state:
  assumes "list_all is_scalar (last_daily st)" "list_all is_scalar (last_weekly st)"
  shows "load_digest_state (save_digest_state st db) = Inr st"
proof -
  have "wf_json (JObj [(lit ''last_daily'', JStr (last_daily st)), (lit ''last_weekly'', JStr (last_weekly st))])"
    using assms by (simp add: lit_def is_scalar_def)
  then show ?thesis
    by (simp add: load_digest_state_def save_digest_state_def settings.lookup_put_same loads_obj
        dumps_obj_not_blank read_text_or_def read_field_def Let_def del: dumps.simps wf_json.simps)
qed

lemma save_ops_keeps [simp]:
  "load_digest_state (save_ops_alerts c db) = load_digest_state db"
  "load_config C P box (save_ops_alerts c db) = load_config C P box db"
  by (simp_all add: load_digest_state_def load_config_def save_ops_alerts_def settings.lookup_put_other)

lemma save_digest_keeps [simp]:
  "load_ops_alerts (save_digest_state st db) = load_ops_alerts db"
  "load_config C P box (save_digest_state st db) = load_config C P box db"
  by (simp_all add: load_ops_alerts_def load_config_def save_digest_state_def settings.lookup_put_other)

end
