(* ===== verification/Ops_Capacity.thy ===== *)
theory Ops_Capacity
  imports Ops_Settings Queue_Service
begin

section \<open>Capacity and overload (ops/capacity.py)\<close>

text \<open>
  \<open>evaluate_capacity\<close> grades the gateway by the depth of the queue, the age of its oldest message
  and the circuit breaker. Asking the breaker may move it to HALF_OPEN, so it is returned. The
  thresholds are unchecked settings: one that is no number raises TypeError when it is compared.
\<close>

datatype capacity_level = Level_Ok | Level_Warn | Level_Critical

primrec level_value :: "capacity_level \<Rightarrow> pystr" where
  "level_value Level_Ok = lit ''ok''"
| "level_value Level_Warn = lit ''warn''"
| "level_value Level_Critical = lit ''critical''"

record capacity_status =
  cap_level :: capacity_level
  cap_pending :: int
  cap_oldest_age :: "secs option"
  cap_circuit_open :: bool
  cap_reasons :: "pystr list"
  cap_hint :: pystr

definition seconds_between :: "time \<Rightarrow> time \<Rightarrow> secs" where
  "seconds_between a b = of_int (b - a) / 1000000"

definition oldest_pending_age_seconds :: "time \<Rightarrow> table \<Rightarrow> secs option" where
  "oldest_pending_age_seconds now t =
     (case sort (map created_at (filter is_pending t)) of
        [] \<Rightarrow> None
      | created # _ \<Rightarrow> Some (max 0 (seconds_between created now)))"

text \<open>\<open>str()\<close> of a number or a truth value in an f-string.\<close>

definition number_text :: "json \<Rightarrow> pystr" where
  "number_text v = (case v of JInt i \<Rightarrow> str_int i | JBool b \<Rightarrow> if b then lit ''True'' else lit ''False'' | _ \<Rightarrow> [])"

definition circuit_reason :: pystr where
  "circuit_reason = lit ''Outbound circuit breaker is open (Exchange send failures)''"

definition depth_reason :: "int \<Rightarrow> string \<Rightarrow> json \<Rightarrow> pystr" where
  "depth_reason pending kind threshold =
     lit ''Queue depth '' @ str_int pending @ lit '' '' @ [8805] @ lit '' '' @ lit kind
       @ lit '' threshold '' @ number_text threshold"

definition age_reason :: "secs \<Rightarrow> pystr" where
  "age_reason age = lit ''Oldest queued message age '' @ fmt0 age @ lit ''s''"

definition capacity_hint :: pystr where
  "capacity_hint = lit ''If this persists after the storm drains: raise MSGATE_QUEUE_WORKERS, or switch to Postgres (MSGATE_DATABASE_URL). See AI-14 docs.''"

text \<open>The three checks in turn, over the reasons and the level found so far.\<close>

definition raise_to_warn :: "capacity_level \<Rightarrow> capacity_level" where
  "raise_to_warn lvl = (if lvl = Level_Ok then Level_Warn else lvl)"

definition check_depth ::
    "int \<Rightarrow> ops_alerts \<Rightarrow> pystr list \<times> capacity_level \<Rightarrow> (pystr list \<times> capacity_level) res" where
  "check_depth pending ops rl =
     bindE (py_number (queue_critical_pending ops)) (\<lambda>crit.
       if crit \<le> pending
       then Inr (fst rl @ [depth_reason pending ''critical'' (queue_critical_pending ops)], Level_Critical)
       else bindE (py_number (queue_warn_pending ops)) (\<lambda>warn.
         Inr (if warn \<le> pending
              then (fst rl @ [depth_reason pending ''warn'' (queue_warn_pending ops)], raise_to_warn (snd rl))
              else rl)))"

definition check_age ::
    "secs option \<Rightarrow> ops_alerts \<Rightarrow> pystr list \<times> capacity_level \<Rightarrow> (pystr list \<times> capacity_level) res" where
  "check_age age ops rl =
     (case age of
        None \<Rightarrow> Inr rl
      | Some x \<Rightarrow> bindE (py_number (queue_warn_age_seconds ops)) (\<lambda>w.
          Inr (if of_int w \<le> x
               then (fst rl @ [age_reason x],
                     if of_int (w * 3) \<le> x then Level_Critical else raise_to_warn (snd rl))
               else rl)))"

definition evaluate_capacity ::
    "time \<Rightarrow> secs \<Rightarrow> int \<Rightarrow> ops_alerts \<Rightarrow> table \<Rightarrow> breaker \<Rightarrow> capacity_status res \<times> breaker" where
  "evaluate_capacity now tick pending ops t b =
     (let age = oldest_pending_age_seconds now t
      in case breaker_state tick b of (st, b') \<Rightarrow>
           (bindE (check_depth pending ops
                (if st = OPEN then ([circuit_reason], Level_Critical) else ([], Level_Ok))) (\<lambda>rl.
            bindE (check_age age ops rl) (\<lambda>rl'.
              Inr \<lparr>cap_level = snd rl', cap_pending = pending, cap_oldest_age = age,
                cap_circuit_open = (st = OPEN), cap_reasons = fst rl',
                cap_hint = (if snd rl' \<noteq> Level_Ok then capacity_hint else [])\<rparr>)), b'))"

subsection \<open>The grade\<close>

lemma oldest_age_spec:
  "oldest_pending_age_seconds now t =
    (if filter is_pending t = [] then None
     else Some (max 0 (seconds_between (Min (created_at ` {r \<in> set t. is_pending r})) now)))"
proof (cases "filter is_pending t = []")
  case True
  then show ?thesis by (simp add: oldest_pending_age_seconds_def)
next
  case False
  let ?xs = "map created_at (filter is_pending t)"
  from False obtain c cs where s: "sort ?xs = c # cs" by (cases "sort ?xs") (auto dest: arg_cong [of _ _ length])
  have "set (sort ?xs) = created_at ` {r \<in> set t. is_pending r}" by auto
  then have set: "created_at ` {r \<in> set t. is_pending r} = insert c (set cs)" by (simp add: s)
  moreover have "\<forall>x\<in>set cs. c \<le> x" using sorted_sort [of ?xs] by (simp add: s)
  ultimately have "Min (created_at ` {r \<in> set t. is_pending r}) = c"
    by (intro Min_eqI) auto
  with False s show ?thesis by (simp add: oldest_pending_age_seconds_def)
qed

definition age_at_least :: "secs option \<Rightarrow> int \<Rightarrow> bool" where
  "age_at_least age n \<longleftrightarrow> (case age of None \<Rightarrow> False | Some x \<Rightarrow> of_int n \<le> x)"

definition level_of :: "bool \<Rightarrow> int \<Rightarrow> secs option \<Rightarrow> int \<Rightarrow> int \<Rightarrow> int \<Rightarrow> capacity_level" where
  "level_of is_open pending age warn crit old =
     (if is_open \<or> crit \<le> pending \<or> age_at_least age old \<and> age_at_least age (old * 3) then Level_Critical
      else if warn \<le> pending \<or> age_at_least age old then Level_Warn else Level_Ok)"

lemma evaluate_capacity_level:
  assumes "py_number (queue_warn_pending ops) = Inr warn" "py_number (queue_critical_pending ops) = Inr crit"
    and "py_number (queue_warn_age_seconds ops) = Inr old"
  shows "\<exists>s. fst (evaluate_capacity now tick pending ops t b) = Inr s
    \<and> cap_level s = level_of (fst (breaker_state tick b) = OPEN) pending
        (oldest_pending_age_seconds now t) warn crit old
    \<and> (cap_level s = Level_Ok) = (cap_reasons s = []) \<and> (cap_level s = Level_Ok) = (cap_hint s = [])
    \<and> cap_pending s = pending"
proof -
  obtain st b' where b: "breaker_state tick b = (st, b')" by fastforce
  show ?thesis
    using assms unfolding evaluate_capacity_def b
    by (cases "oldest_pending_age_seconds now t")
      (auto simp: Let_def check_depth_def check_age_def level_of_def age_at_least_def raise_to_warn_def
        capacity_hint_def)
qed

text \<open>
  The grade of the gateway, for thresholds that are numbers: critical exactly when the circuit
  is open, the queue has reached the critical depth, or the oldest waiting message is three times
  as old as the warning age; a warning exactly when the queue has reached the warning depth or the
  message the warning age; reasons and the hint are given exactly when the grade is not ok. The
  age is that of the oldest row waiting, and no time runs backwards for it.
\<close>

lemma capacity_graded:
  assumes "py_number (queue_warn_pending ops) = Inr warn" "py_number (queue_critical_pending ops) = Inr crit"
    and "py_number (queue_warn_age_seconds ops) = Inr old"
  shows "\<exists>s. fst (evaluate_capacity now tick pending ops t b) = Inr s
    \<and> cap_level s = level_of (fst (breaker_state tick b) = OPEN) pending
        (if filter is_pending t = [] then None
         else Some (max 0 (seconds_between (Min (created_at ` {r \<in> set t. is_pending r})) now))) warn crit old
    \<and> (cap_level s = Level_Ok) = (cap_reasons s = []) \<and> (cap_level s = Level_Ok) = (cap_hint s = [])
    \<and> cap_pending s = pending"
  using evaluate_capacity_level [OF assms] unfolding oldest_age_spec .

lemma capacity_graded_witness:
  "\<exists>s. fst (evaluate_capacity 5 0 120 default_ops [] (fresh_breaker 5 60)) = Inr s
    \<and> cap_level s = Level_Warn \<and> cap_reasons s \<noteq> [] \<and> cap_pending s = 120"
proof -
  have "py_number (queue_warn_pending default_ops) = Inr 100"
    "py_number (queue_critical_pending default_ops) = Inr 500"
    "py_number (queue_warn_age_seconds default_ops) = Inr 300"
    by (simp_all add: default_ops_def py_number_def)
  from capacity_graded [OF this, of 5 0 120 "[]" "fresh_breaker 5 60"] show ?thesis
    by (fastforce simp: level_of_def age_at_least_def breaker_defs)
qed

text \<open>A threshold that is no number makes every evaluation raise.\<close>

lemma bad_threshold_raises:
  "py_number (queue_critical_pending ops) = Inl e \<Longrightarrow>
   fst (evaluate_capacity now tick pending ops t b) = Inl e"
  by (cases "breaker_state tick b") (auto simp: evaluate_capacity_def check_depth_def)

end
