(* ===== verification/App_State.thy ===== *)
theory App_State
  imports Queue_Worker Smtp_Handler Web_Auth Config_Boot Ops_Capacity
begin

section \<open>The application (app/state.py, app/bootstrap.py)\<close>

text \<open>
  \<open>AppState\<close> holds what the API, the SMTP side, the worker and the watchers share. The queue
  service has no state of its own and the event hub with the one metrics registry is part of the
  \<open>mail_world\<close>; the database is its three tables. \<open>build_app_state\<close> is the start: the key,
  the configuration, the components wired together, the administrator of the environment. The
  drivers the registry chooses from are an argument, as in \<open>sender\<close>. The migration of the
  schema, which comes first, is in \<open>Db_Schema\<close>.
\<close>

record 'w app =
  app_runtime :: runtime_config
  app_box :: secret_box
  app_settings :: settings
  app_admins :: admin_table
  app_mail :: "'w mail_world"
  app_circuit :: breaker
  app_worker :: queue_worker
  smtp_running :: bool
  smtp_controller :: "controller option"
  capacity_seen :: "capacity_status option"

definition smtp_ok :: "'w app \<Rightarrow> bool" where
  "smtp_ok a \<longleftrightarrow> smtp_running a \<and> smtp_controller a \<noteq> None"

definition on_mail :: "('w mail_world \<Rightarrow> 'w mail_world) \<Rightarrow> 'w app \<Rightarrow> 'w app" where
  "on_mail f a = a\<lparr>app_mail := f (app_mail a)\<rparr>"

definition app_table :: "'w app \<Rightarrow> table" where
  "app_table a = mw_table (app_mail a)"

text \<open>\<open>check_backend_health(state.runtime.get())\<close>, which may change the outside.\<close>

definition app_health :: "(gateway_config \<Rightarrow> 'w driver) \<Rightarrow> 'w app \<Rightarrow> health_result \<times> 'w app" where
  "app_health D a =
     (let cfg = runtime_get (app_runtime a)
      in case check_backend_health (D cfg) cfg (mw_out (app_mail a)) of
           (h, out) \<Rightarrow> (h, on_mail (\<lambda>w. w\<lparr>mw_out := out\<rparr>) a))"

definition refresh_metrics :: "(gateway_config \<Rightarrow> 'w driver) \<Rightarrow> secs \<Rightarrow> 'w app \<Rightarrow> 'w app" where
  "refresh_metrics D tick a =
     (let a1 = on_mail (on_metrics (set_queue_pending (service_pending (app_table a)))) a
      in case breaker_state tick (app_circuit a1) of
           (st, b) \<Rightarrow>
             (let a2 = on_mail (on_metrics (set_circuit_open (st = OPEN))) (a1\<lparr>app_circuit := b\<rparr>)
              in case app_health D a2 of
                   (h, a3) \<Rightarrow> on_mail (on_metrics (set_backend_up (hr_ok h))) a3))"

text \<open>What the start takes from outside.\<close>

record boot_io =
  bi_env :: environ
  bi_key_file :: "pystr option"
  bi_urandom :: bytes
  bi_nonces :: "bytes \<times> bytes \<times> bytes"
  bi_salt :: bytes
  bi_clock :: secs
  bi_parse_float :: "pystr \<Rightarrow> secs option"

text \<open>The database that is found: settings, administrators and messages.\<close>

record database =
  db_settings :: settings
  db_admins :: admin_table
  db_messages :: table

definition wire_components ::
    "boot_io \<Rightarrow> gateway_config \<Rightarrow> secret_box \<Rightarrow> settings \<Rightarrow> admin_table \<Rightarrow> table \<Rightarrow> 'w \<Rightarrow> 'w app" where
  "wire_components io config box settings admins messages out =
     \<lparr>app_runtime = \<lparr>rt_config = config\<rparr>, app_box = box, app_settings = settings, app_admins = admins,
      app_mail = \<lparr>mw_table = messages, mw_out = out,
        mw_hub = Some (new_hub (Some (new_metrics (bi_clock io))) (Some (webhook_urls_from_env (bi_env io)))),
        mw_wake = False\<rparr>,
      app_circuit = init_breaker (bi_parse_float io) (bi_env io) None None,
      app_worker = new_worker (bi_env io) None,
      smtp_running = False, smtp_controller = None, capacity_seen = None\<rparr>"

definition build_app_state ::
    "crypto \<Rightarrow> pydantic \<Rightarrow> (gateway_config \<Rightarrow> 'w driver) \<Rightarrow> boot_io \<Rightarrow> database \<Rightarrow> 'w \<Rightarrow> 'w app res" where
  "build_app_state C P D io db out =
     bindE (fst (resolve_secret_box C (bi_env io (lit ''MSGATE_SECRET_KEY'')) (bi_key_file io) (bi_urandom io))) (\<lambda>box.
     bindE (bootstrap_config C P box (bi_nonces io) (bi_env io) (db_settings db)) (\<lambda>(config, settings).
       case bootstrap_admin_from_env C (bi_salt io) (bi_env io) (db_admins db) of
         (Inl e, _) \<Rightarrow> Inl e
       | (Inr _, admins) \<Rightarrow>
           Inr (refresh_metrics D (bi_clock io)
             (wire_components io config box settings admins (db_messages db) out))))"

definition admin_configured :: "'w app \<Rightarrow> bool" where
  "admin_configured a = admin_exists (app_admins a)"

text \<open>What \<open>_cmd_serve\<close> does with the components, and undoes when it stops.\<close>

definition serve_start :: "'w app \<Rightarrow> 'w app" where
  "serve_start a = a\<lparr>app_worker := worker_start (app_worker a),
     smtp_controller := Some (fst (create_controller (runtime_get (app_runtime a)))), smtp_running := True\<rparr>"

definition serve_stop :: "'w app \<Rightarrow> 'w app" where
  "serve_stop a = a\<lparr>smtp_running := False, app_worker := worker_stop (app_worker a)\<rparr>"

subsection \<open>Gauges\<close>

definition app_metrics :: "'w app \<Rightarrow> metrics option" where
  "app_metrics a = Option.bind (mw_hub (app_mail a)) hub_metrics"

lemma on_mail_simps [simp]:
  "app_runtime (on_mail f a) = app_runtime a" "app_box (on_mail f a) = app_box a"
  "app_settings (on_mail f a) = app_settings a" "app_admins (on_mail f a) = app_admins a"
  "app_circuit (on_mail f a) = app_circuit a" "app_mail (on_mail f a) = f (app_mail a)"
  "app_worker (on_mail f a) = app_worker a" "capacity_seen (on_mail f a) = capacity_seen a"
  "smtp_running (on_mail f a) = smtp_running a" "smtp_controller (on_mail f a) = smtp_controller a"
  by (simp_all add: on_mail_def)

lemma app_metrics_on_metrics:
  "app_metrics (on_mail (on_metrics f) a) = map_option f (app_metrics a)"
  by (cases "mw_hub (app_mail a)") (auto simp: app_metrics_def on_metrics_def)

lemma app_metrics_out [simp]: "app_metrics (on_mail (\<lambda>w. w\<lparr>mw_out := out\<rparr>) a) = app_metrics a"
    "app_metrics (a\<lparr>app_circuit := b\<rparr>) = app_metrics a"
  by (simp_all add: app_metrics_def)

lemma app_health_keeps:
  "app_health D a = (h, a') \<Longrightarrow> app_runtime a' = app_runtime a \<and> app_settings a' = app_settings a
     \<and> app_box a' = app_box a \<and> app_admins a' = app_admins a \<and> app_table a' = app_table a
     \<and> app_circuit a' = app_circuit a \<and> mw_hub (app_mail a') = mw_hub (app_mail a)
     \<and> capacity_seen a' = capacity_seen a \<and> smtp_ok a' = smtp_ok a"
  by (auto simp: app_health_def Let_def app_table_def smtp_ok_def split: prod.splits)

lemma refresh_keeps [simp]:
  "app_runtime (refresh_metrics D tick a) = app_runtime a"
  "app_settings (refresh_metrics D tick a) = app_settings a"
  "app_box (refresh_metrics D tick a) = app_box a"
  "app_admins (refresh_metrics D tick a) = app_admins a"
  "app_table (refresh_metrics D tick a) = app_table a"
  "capacity_seen (refresh_metrics D tick a) = capacity_seen a"
  "smtp_ok (refresh_metrics D tick a) = smtp_ok a"
  by (auto simp: refresh_metrics_def Let_def app_table_def smtp_ok_def
      split: prod.splits dest!: app_health_keeps)

definition gauges :: "metrics \<Rightarrow> int \<times> int \<times> int" where
  "gauges m = (queue_pending m, circuit_open m, backend_up m)"

lemma refresh_metrics_gauges:
  assumes "app_metrics a = Some m"
  shows "\<exists>m' h. app_metrics (refresh_metrics D tick a) = Some m'
    \<and> queue_pending m' = count_pending (app_table a)
    \<and> circuit_open m' = of_bool (fst (breaker_state tick (app_circuit a)) = OPEN)
    \<and> fst (check_backend_health (D (rt_config (app_runtime a))) (rt_config (app_runtime a))
        (mw_out (app_mail a))) = h
    \<and> backend_up m' = of_bool (hr_ok h) \<and> messages_sent m' = messages_sent m
    \<and> messages_failed m' = messages_failed m"
proof -
  obtain st b where b: "breaker_state tick (app_circuit a) = (st, b)" by fastforce
  obtain h out where h: "check_backend_health (D (rt_config (app_runtime a))) (rt_config (app_runtime a))
      (mw_out (app_mail a)) = (h, out)" by fastforce
  show ?thesis
    using assms
    by (simp add: refresh_metrics_def Let_def b app_health_def runtime_get_def h app_metrics_on_metrics
        set_queue_pending_def set_circuit_open_def set_backend_up_def service_pending_def)
qed

subsection \<open>Starting\<close>

lemma wired_metrics: "app_metrics (wire_components io config box s ad ms out) = Some (new_metrics (bi_clock io))"
  by (simp add: wire_components_def app_metrics_def new_hub_def)

lemma build_app_state_InrD:
  assumes "build_app_state C P D io db out = Inr a"
  shows "\<exists>box config settings r admins.
      bootstrap_config C P box (bi_nonces io) (bi_env io) (db_settings db) = Inr (config, settings)
    \<and> bootstrap_admin_from_env C (bi_salt io) (bi_env io) (db_admins db) = (Inr r, admins)
    \<and> a = refresh_metrics D (bi_clock io) (wire_components io config box settings admins (db_messages db) out)"
proof -
  obtain r admins where adm: "bootstrap_admin_from_env C (bi_salt io) (bi_env io) (db_admins db) = (r, admins)"
    by fastforce
  show ?thesis
  proof (cases r)
    case (Inl e)
    with assms adm show ?thesis by (auto simp: build_app_state_def bindE_Inr_iff)
  next
    case (Inr b)
    with assms adm show ?thesis by (fastforce simp: build_app_state_def bindE_Inr_iff)
  qed
qed

lemma wired [simp]:
  "app_runtime (wire_components io config box s ad ms out) = \<lparr>rt_config = config\<rparr>"
  "app_box (wire_components io config box s ad ms out) = box"
  "app_settings (wire_components io config box s ad ms out) = s"
  "app_admins (wire_components io config box s ad ms out) = ad"
  "app_table (wire_components io config box s ad ms out) = ms"
  "mw_out (app_mail (wire_components io config box s ad ms out)) = out"
  "\<not> smtp_ok (wire_components io config box s ad ms out)"
  "fst (breaker_state t (app_circuit (wire_components io config box s ad ms out))) = CLOSED"
  by (simp_all add: wire_components_def app_table_def smtp_ok_def init_breaker_def breaker_defs)

text \<open>
  C33. A start loses nothing and finds everything: when the gateway comes up, the messages of the
  table are there as they were, an administrator found in the table keeps its password whatever
  the environment says, the configuration in force is the one a later start under the same key
  will read from the settings, no mail is accepted yet, and the gauges of the metrics show the
  queue, the closed circuit and the health of the backend from the first moment on.
\<close>

theorem start_finds_database:
  assumes "aead_law C" "pydantic_law P"
    and "bi_nonces io = (n1, n2, n3)" "length n1 = 12" "length n2 = 12" "length n3 = 12"
    and "build_app_state C P D io db out = Inr a"
  shows "app_table a = db_messages db
    \<and> (admin_exists (db_admins db) \<longrightarrow> app_admins a = db_admins db)
    \<and> load_config C P (app_box a) (app_settings a) = Inr (Some (runtime_get (app_runtime a)))
    \<and> \<not> smtp_ok a
    \<and> (\<exists>m. app_metrics a = Some m \<and> queue_pending m = count_pending (db_messages db) \<and> circuit_open m = 0
        \<and> backend_up m = of_bool (hr_ok (fst (check_backend_health (D (runtime_get (app_runtime a)))
             (runtime_get (app_runtime a)) out))))"
proof -
  obtain box config settings r admins where
    cfg: "bootstrap_config C P box (n1, n2, n3) (bi_env io) (db_settings db) = Inr (config, settings)"
    and adm: "bootstrap_admin_from_env C (bi_salt io) (bi_env io) (db_admins db) = (Inr r, admins)"
    and a: "a = refresh_metrics D (bi_clock io)
      (wire_components io config box settings admins (db_messages db) out)" (is "a = refresh_metrics D _ ?w")
    using build_app_state_InrD [OF assms(7)] unfolding assms(3) by blast
  have "admin_exists (db_admins db) \<longrightarrow> admins = db_admins db"
    using adm by (auto simp: bootstrap_admin_from_env_def Let_def)
  moreover have "load_config C P box settings = Inr (Some config)"
    by (rule bootstrap_loads [OF assms(1,2,4-6) cfg])
  moreover obtain m h where "app_metrics a = Some m" "queue_pending m = count_pending (db_messages db)"
    "circuit_open m = 0" "backend_up m = of_bool (hr_ok h)"
    "fst (check_backend_health (D config) config out) = h"
    using refresh_metrics_gauges [OF wired_metrics, of D "bi_clock io" io config box settings admins "db_messages db" out]
    by (auto simp: a)
  ultimately show ?thesis by (auto simp: a runtime_get_def)
qed

definition toy_boot :: boot_io where
  "toy_boot = \<lparr>bi_env = (\<lambda>_. None), bi_key_file = Some (lit ''key''), bi_urandom = [],
     bi_nonces = (replicate 12 1, replicate 12 2, replicate 12 3), bi_salt = [], bi_clock = 7,
     bi_parse_float = (\<lambda>_. None)\<rparr>"

definition toy_app :: "send_request list app res" where
  "toy_app = build_app_state toy_crypto toy_pydantic (\<lambda>_. mock_driver None) toy_boot
     \<lparr>db_settings = [], db_admins = [(lit ''admin'', \<lparr>ad_hash = lit ''h'', ad_must_change = False\<rparr>)],
      db_messages = []\<rparr> []"

lemma toy_box: "fst (resolve_secret_box toy_crypto None (Some (lit ''key'')) []) =
    Inr \<lparr>box_key = to_bytes (lit ''key'') @ replicate 29 0\<rparr>"
  by code_simp

lemma env_default_valid: "valid_config toy_pydantic \<lparr>backend = EWS, smtp = default_smtp, ews = None,
    ews_failover = None, graph = None, default_sender = None\<rparr>"
  by (rule env_config_valid [OF toy_pydantic_law env_default])

lemma toy_app_starts: "\<exists>a. toy_app = Inr a"
  by (simp add: toy_app_def build_app_state_def toy_boot_def toy_box bootstrap_config_def env_default
      load_config_def get_setting_def save_config_Inr valid_scalar [OF env_default_valid]
      bootstrap_admin_from_env_def)

theorem start_finds_database_witness:
  "\<exists>a. toy_app = Inr a \<and> app_admins a = [(lit ''admin'', \<lparr>ad_hash = lit ''h'', ad_must_change = False\<rparr>)]
    \<and> app_table a = [] \<and> \<not> smtp_ok a"
proof -
  obtain a where a: "toy_app = Inr a" using toy_app_starts by blast
  from start_finds_database [OF toy_laws(1) toy_pydantic_law _ _ _ _ a [unfolded toy_app_def]] a
  show ?thesis by (auto simp: toy_boot_def admin_exists_def get_admin_def admin_username_def)
qed

end
