(* ===== verification/Py_Calendar.thy ===== *)
theory Py_Calendar
  imports Py_Prelude
begin

section \<open>UTC dates (the module datetime)\<close>

text \<open>
  An instant is the number of microseconds since 1970 in UTC. \<open>civil\<close> gives year, month and day of
  a day number in the proleptic Gregorian calendar; years start in March for the computation. What
  the reports print of a date is a function of the day, what they print of a week a function of
  the week, which is what the scheduler relies on.
\<close>

definition day_us :: int where "day_us = 86400000000"

definition day_number :: "time \<Rightarrow> int" where
  "day_number t = t div day_us"

definition hour_of :: "time \<Rightarrow> int" where
  "hour_of t = t mod day_us div 3600000000"

text \<open>\<open>weekday()\<close>: Monday is 0, and the day number 0 was a Thursday.\<close>

definition weekday :: "time \<Rightarrow> int" where
  "weekday t = (day_number t + 3) mod 7"

definition week_number :: "time \<Rightarrow> int" where
  "week_number t = (day_number t + 3) div 7"

definition civil :: "int \<Rightarrow> int \<times> int \<times> int" where
  "civil n =
     (let z = n + 719468; era = z div 146097; doe = z mod 146097;
          yoe = (doe - doe div 1460 + doe div 36524 - doe div 146096) div 365;
          doy = doe - (365 * yoe + yoe div 4 - yoe div 100);
          mp = (5 * doy + 2) div 153;
          d = doy - (153 * mp + 2) div 5 + 1;
          m = (if mp < 10 then mp + 3 else mp - 9)
      in (yoe + era * 400 + (if m \<le> 2 then 1 else 0), m, d))"

definition day_of_year :: "int \<Rightarrow> int" where
  "day_of_year n =
     (case civil n of (y, m, d) \<Rightarrow>
        let leap = (y mod 4 = 0 \<and> (y mod 100 \<noteq> 0 \<or> y mod 400 = 0))
        in [0, 31, 59, 90, 120, 151, 181, 212, 243, 273, 304, 334] ! nat (m - 1) + d
           + (if leap \<and> 2 < m then 1 else 0))"

definition pad_to :: "nat \<Rightarrow> int \<Rightarrow> pystr" where
  "pad_to n i = (let d = str_int i in replicate (n - length d) 48 @ d)"

text \<open>\<open>strftime('%Y-%m-%d')\<close>\<close>

definition date_text :: "time \<Rightarrow> pystr" where
  "date_text t = (case civil (day_number t) of (y, m, d) \<Rightarrow>
     str_int y @ [45] @ pad_to 2 m @ [45] @ pad_to 2 d)"

text \<open>\<open>isoformat()\<close> of a time in UTC\<close>

definition iso_text :: "time \<Rightarrow> pystr" where
  "iso_text t =
     (case civil (day_number t) of (y, m, d) \<Rightarrow>
        let us = t mod day_us; sec = us div 1000000; frac = us mod 1000000
        in pad_to 4 y @ [45] @ pad_to 2 m @ [45] @ pad_to 2 d @ [84]
           @ pad_to 2 (sec div 3600) @ [58] @ pad_to 2 (sec div 60 mod 60) @ [58] @ pad_to 2 (sec mod 60)
           @ (if frac = 0 then [] else 46 # pad_to 6 frac) @ lit ''+00:00'')"

text \<open>The ISO week belongs to the year of its Thursday.\<close>

definition iso_week :: "time \<Rightarrow> pystr" where
  "iso_week t =
     (let thursday = 7 * week_number t
      in case civil thursday of (y, _, _) \<Rightarrow>
           str_int y @ lit ''-W'' @ pad_to 2 ((day_of_year thursday - 1) div 7 + 1))"

lemma date_text_of_day: "day_number t = day_number u \<Longrightarrow> date_text t = date_text u"
  by (simp add: date_text_def)

lemma iso_week_of_week: "week_number t = week_number u \<Longrightarrow> iso_week t = iso_week u"
  by (simp add: iso_week_def)

lemma day_number_mono: "t \<le> u \<Longrightarrow> day_number t \<le> day_number u"
  by (simp add: day_number_def day_us_def zdiv_mono1)

lemma week_number_mono: "t \<le> u \<Longrightarrow> week_number t \<le> week_number u"
  by (simp add: week_number_def zdiv_mono1 day_number_mono)

text \<open>Some days: the epoch, a leap day, the last day of a century and of a long ISO year.\<close>

lemma civil_samples:
  "civil 0 = (1970, 1, 1)" "civil 19782 = (2024, 2, 29)" "civil 10956 = (1999, 12, 31)"
  "civil (- 25509) = (1900, 2, 28)" "civil (- 25508) = (1900, 3, 1)"
  "day_of_year 20088 = 366"
  by code_simp+

lemma text_samples:
  "date_text (19782 * day_us) = lit ''2024-02-29''"
  "iso_week (18627 * day_us) = lit ''2020-W53''" "iso_week (18631 * day_us) = lit ''2021-W01''"
  "iso_text (18627 * day_us + 3723000004) = lit ''2020-12-31T01:02:03.000004+00:00''"
  by code_simp+

lemma hour_range: "0 \<le> hour_of t \<and> hour_of t < 24"
proof -
  have "t mod day_us < day_us" "0 \<le> t mod day_us" by (simp_all add: day_us_def)
  then show ?thesis unfolding hour_of_def day_us_def by linarith
qed

end
