(* ===== verification/Api_Routes.thy ===== *)
theory Api_Routes
  imports App_State Py_Calendar
begin

section \<open>The API (api/backend.py, api/stats.py, api/routes/, tools/diagnostics.py)\<close>

text \<open>
  A route is a function from the application to its reply and the application after it; an
  exception that leaves a route is the server's answer 500. FastAPI has validated the body before
  the route runs, so a \<open>GatewayConfig\<close> arrives as a configuration. The pages of the web interface are in
  \<open>Ui_Pages\<close>; the two forms that change settings are here.
\<close>

datatype 'a reply = Reply int 'a | Http_Error int pystr | Server_Error exn

definition reply_of :: "'a res \<Rightarrow> 'a reply" where
  "reply_of r = (case r of Inl e \<Rightarrow> Server_Error e | Inr x \<Rightarrow> Reply 200 x)"

subsection \<open>Configuration (api/routes/config.py)\<close>

definition get_config :: "pydantic \<Rightarrow> 'w app \<Rightarrow> gateway_config reply" where
  "get_config P a = reply_of (redact_config P (runtime_get (app_runtime a)))"

text \<open>\<open>runtime.replace\<close>, \<open>save_config\<close> and \<open>refresh_metrics\<close>, which PUT and import share.\<close>

definition store_config ::
    "crypto \<Rightarrow> pydantic \<Rightarrow> (gateway_config \<Rightarrow> 'w driver) \<Rightarrow> bytes \<times> bytes \<times> bytes \<Rightarrow> secs \<Rightarrow> gateway_config
      \<Rightarrow> 'w app \<Rightarrow> gateway_config reply \<times> 'w app" where
  "store_config C P D nonces tick config a =
     (let a1 = a\<lparr>app_runtime := runtime_replace config (app_runtime a)\<rparr>
      in case save_config C (app_box a1) nonces config (app_settings a1) of
           Inl e \<Rightarrow> (Server_Error e, a1)
         | Inr db \<Rightarrow> (reply_of (redact_config P config), refresh_metrics D tick (a1\<lparr>app_settings := db\<rparr>)))"

text \<open>\<open>prepare_ews_tls\<close> on the state of the Exchange client; its exceptions are swallowed.\<close>

definition prepare_tls :: "network \<Rightarrow> gateway_config \<Rightarrow> ews_state app \<Rightarrow> ews_state app" where
  "prepare_tls N config a =
     (case ews config of
        None \<Rightarrow> a
      | Some cfg \<Rightarrow> on_mail (\<lambda>w. w\<lparr>mw_out := (mw_out w)\<lparr>es_tls := snd (prepare_ews_tls N cfg False (es_tls (mw_out w)))\<rparr>\<rparr>) a)"

definition put_config ::
    "crypto \<Rightarrow> pydantic \<Rightarrow> (gateway_config \<Rightarrow> ews_state driver) \<Rightarrow> network \<Rightarrow> bytes \<times> bytes \<times> bytes \<Rightarrow> secs
      \<Rightarrow> gateway_config \<Rightarrow> ews_state app \<Rightarrow> gateway_config reply \<times> ews_state app" where
  "put_config C P D N nonces tick new a =
     (case merge_config_update P (runtime_get (app_runtime a)) new of
        Inl e \<Rightarrow> (Server_Error e, a)
      | Inr m \<Rightarrow> store_config C P D nonces tick m (prepare_tls N m a))"

definition export_gateway_config ::
    "crypto \<Rightarrow> (json \<Rightarrow> pystr) \<Rightarrow> bytes \<Rightarrow> pystr \<Rightarrow> 'w app \<Rightarrow> pystr reply" where
  "export_gateway_config C to_json nonce exported_at a =
     reply_of (export_config C to_json (app_box a) nonce exported_at (runtime_get (app_runtime a)))"

definition import_gateway_config ::
    "crypto \<Rightarrow> pydantic \<Rightarrow> (gateway_config \<Rightarrow> 'w driver) \<Rightarrow> bytes \<times> bytes \<times> bytes \<Rightarrow> secs \<Rightarrow> pystr
      \<Rightarrow> 'w app \<Rightarrow> gateway_config reply \<times> 'w app" where
  "import_gateway_config C P D nonces tick bundle a =
     (case import_config C P (app_box a) bundle of
        Inl e \<Rightarrow> (Http_Error 400 (lit ''Invalid config bundle: '' @ exn_text e), a)
      | Inr config \<Rightarrow> store_config C P D nonces tick config a)"

subsection \<open>Health (api/routes/health.py)\<close>

record health_status =
  hs_status :: pystr
  hs_smtp_server :: bool
  hs_exchange_backend :: bool
  hs_backend :: pystr
  hs_backend_ok :: bool
  hs_latency_ms :: rat
  hs_detail :: "pystr option"
  hs_queue_pending :: int

definition healthz :: "'w app \<Rightarrow> pystr reply" where
  "healthz a = Reply 200 (if smtp_ok a then lit ''ok'' else lit ''degraded'')"

definition app_label :: "(gateway_config \<Rightarrow> 'w driver) \<Rightarrow> 'w app \<Rightarrow> pystr" where
  "app_label D a = driver_label (D (runtime_get (app_runtime a)))"

definition detail_or_error :: "health_result \<Rightarrow> pystr option" where
  "detail_or_error h = (if hr_detail h \<noteq> [] then Some (hr_detail h) else hr_error h)"

definition readyz :: "(gateway_config \<Rightarrow> 'w driver) \<Rightarrow> 'w app \<Rightarrow> health_status reply \<times> 'w app" where
  "readyz D a =
     (let pending = service_pending (app_table a)
      in case app_health D a of
           (h, a') \<Rightarrow>
             (let healthy = (smtp_ok a \<and> hr_ok h)
              in (Reply (if healthy then 200 else 503)
                    \<lparr>hs_status = (if healthy then lit ''healthy'' else lit ''degraded''),
                     hs_smtp_server = smtp_ok a, hs_exchange_backend = hr_ok h,
                     hs_backend = (if hr_driver h \<noteq> [] then hr_driver h else app_label D a),
                     hs_backend_ok = hr_ok h, hs_latency_ms = hr_latency_ms h,
                     hs_detail = detail_or_error h, hs_queue_pending = pending\<rparr>, a')))"

subsection \<open>The queue (api/routes/queue.py)\<close>

definition get_queue :: "pydantic \<Rightarrow> message_status option \<Rightarrow> nat \<Rightarrow> 'w app \<Rightarrow> message_record list reply" where
  "get_queue P st limit a = reply_of (list_queue P st limit (app_table a))"

record message_detail =
  md_record :: message_record
  md_preview :: pystr

text \<open>The addresses of the record are validated once more by \<open>MessageDetail\<close>.\<close>

definition detail_of :: "pydantic \<Rightarrow> message_record \<Rightarrow> pystr \<Rightarrow> message_detail res" where
  "detail_of P r preview =
     (case (parse_email P (rec_sender r), those (map (parse_email P) (rec_recipients r))) of
        (Some s, Some rs) \<Rightarrow>
          Inr \<lparr>md_record = r\<lparr>rec_sender := s, rec_recipients := rs\<rparr>, md_preview = preview\<rparr>
      | _ \<Rightarrow> Inl (Exn ValueError (lit ''validation error for MessageDetail'')))"

definition get_message_detail :: "pydantic \<Rightarrow> pystr \<Rightarrow> 'w app \<Rightarrow> message_detail reply" where
  "get_message_detail P i a =
     (case get_message (app_table a) i of
        None \<Rightarrow> Http_Error 404 (lit ''message not found'')
      | Some row \<Rightarrow> reply_of (
          bindE (get_mime_bytes row) (\<lambda>mime.
          bindE (row_to_record P row) (\<lambda>r. detail_of P r (take 4000 (utf8_decode_replace mime))))))"

subsection \<open>Test mails (api/backend.py, api/routes/messages.py, api/routes/tools.py)\<close>

text \<open>The Exchange block with its login, if both are there.\<close>

definition service_credentials :: "gateway_config \<Rightarrow> (ews_config \<times> pystr \<times> pystr) option" where
  "service_credentials cfg =
     (case ews cfg of
        None \<Rightarrow> None
      | Some e \<Rightarrow>
          if \<not> truthy (ews_username e) \<or> \<not> truthy (ews_password e) then None
          else Some (e, or_empty (ews_username e), or_empty (ews_password e)))"

definition require_backend_credentials :: "(gateway_config \<Rightarrow> 'w driver) \<Rightarrow> 'w app \<Rightarrow> (pystr \<times> pystr) reply" where
  "require_backend_credentials D a =
     (let cfg = runtime_get (app_runtime a); label = driver_label (D cfg)
      in if \<not> drv_configured (D cfg) cfg then Http_Error 400 (label @ lit '' not configured'')
         else if backend cfg = EWS
         then (case service_credentials cfg of
             None \<Rightarrow> Http_Error 400 (lit ''EWS credentials required'')
           | Some (e, username, password) \<Rightarrow> Reply 200 (username, password))
         else Http_Error 400 (label @ lit '' test send not available yet''))"

record mail_io =
  mi_crypto :: crypto
  mi_lib :: mail_lib
  mi_bytes :: "email_parts \<Rightarrow> bytes"
  mi_insert :: insert_io

definition send_test ::
    "(gateway_config \<Rightarrow> 'w driver) \<Rightarrow> mail_io \<Rightarrow> pystr \<Rightarrow> pystr list \<Rightarrow> pystr \<Rightarrow> pystr \<Rightarrow> bool \<Rightarrow> 'w app
      \<Rightarrow> accept_result reply \<times> 'w app" where
  "send_test D M sender rcpts subject body is_html a =
     (case require_backend_credentials D a of
        Reply _ (username, password) \<Rightarrow>
          (case submit_test (mi_crypto M) (app_box a) (mi_lib M) (mi_bytes M) (mi_insert M) sender rcpts subject body
                  is_html username password (app_mail a) of
             (r, w) \<Rightarrow> (reply_of r, a\<lparr>app_mail := w\<rparr>))
      | Http_Error c d \<Rightarrow> (Http_Error c d, a)
      | Server_Error e \<Rightarrow> (Server_Error e, a))"

text \<open>The form of the tools page: a comma-separated list of recipients, and an event.\<close>

definition send_test_ui ::
    "(gateway_config \<Rightarrow> 'w driver) \<Rightarrow> mail_io \<Rightarrow> pystr \<Rightarrow> pystr \<Rightarrow> pystr \<Rightarrow> pystr \<Rightarrow> pystr \<Rightarrow> 'w app
      \<Rightarrow> accept_result reply \<times> 'w app" where
  "send_test_ui D M ts sender recipients subject body a =
     (case send_test D M sender (comma_list recipients) subject body False a of
        (Reply c r, a') \<Rightarrow>
          (Reply c r, on_mail (publish (lit ''test.send'') (lit ''Test email queued '' @ acc_message_id r) [] ts) a')
      | (err, a') \<Rightarrow> (err, a'))"

subsection \<open>Tools (tools/diagnostics.py)\<close>

record auth_sim_result =
  as_ok :: bool
  as_raw_user :: pystr
  as_sanitized_user :: pystr
  as_ews_username :: pystr
  as_domain :: "pystr option"
  as_error :: "pystr option"

definition sim_failed :: "pystr \<Rightarrow> auth_sim_result" where
  "sim_failed err = \<lparr>as_ok = False, as_raw_user = [], as_sanitized_user = [], as_ews_username = [],
     as_domain = None, as_error = Some err\<rparr>"

definition sim_user :: "pystr \<Rightarrow> pystr \<Rightarrow> pystr res" where
  "sim_user mech enc =
     (if mech = lit ''PLAIN''
      then bindE (ascii_encode (strip enc)) (\<lambda>_. bindE (b64decode (strip enc)) (\<lambda>raw.
        let parts = split_at 0 (utf8_decode_replace raw)
        in Inr (if 2 \<le> length parts then parts ! 1 else parts ! 0)))
      else bindE (ascii_encode (strip enc)) (\<lambda>_. bindE (b64decode (strip enc)) (\<lambda>raw.
        Inr (utf8_decode_replace raw))))"

definition simulate_auth :: "pystr \<Rightarrow> pystr \<Rightarrow> pystr option \<Rightarrow> auth_sim_result" where
  "simulate_auth mechanism enc domain =
     (let mech = upper mechanism
      in if mech \<noteq> lit ''PLAIN'' \<and> mech \<noteq> lit ''LOGIN''
         then sim_failed (lit ''unsupported mechanism: '' @ mech)
         else (case bindE (sim_user mech enc) (\<lambda>user. sanitize_username user domain) of
             Inl e \<Rightarrow> sim_failed (exn_text e)
           | Inr s \<Rightarrow> \<lparr>as_ok = True, as_raw_user = sa_raw s, as_sanitized_user = sa_username s,
               as_ews_username = sa_ews_username s, as_domain = sa_domain s, as_error = None\<rparr>))"

definition auth_simulate :: "pystr \<Rightarrow> pystr \<Rightarrow> pystr \<Rightarrow> 'w app \<Rightarrow> auth_sim_result reply \<times> 'w app" where
  "auth_simulate ts mechanism enc a =
     (let r = simulate_auth mechanism enc (Option.bind (ews (runtime_get (app_runtime a))) ews_domain)
      in (Reply 200 r,
          on_mail (publish (lit ''auth.sim'')
            (lit ''Auth sim '' @ mechanism @ lit '': '' @ (if as_ok r then lit ''ok'' else lit ''fail''))
            [(lit ''raw'', JStr (as_raw_user r)), (lit ''ews_user'', JStr (as_ews_username r))] ts) a))"

definition backend_health :: "(gateway_config \<Rightarrow> 'w driver) \<Rightarrow> pystr \<Rightarrow> 'w app \<Rightarrow> health_result reply \<times> 'w app" where
  "backend_health D ts a =
     (case app_health D a of
        (h, a') \<Rightarrow> (Reply 200 h,
          on_mail (publish (lit ''backend.health'')
            (app_label D a @ lit '' health '' @ (if hr_ok h then lit ''ok'' else lit ''fail''))
            [(lit ''detail'', json_opt (detail_or_error h))] ts) a'))"

text \<open>The older check of Exchange alone, with the credentials of the configuration.\<close>

record ews_health_result =
  eh_ok :: bool
  eh_latency_ms :: rat
  eh_profile :: "pystr option"
  eh_detail :: pystr
  eh_error :: "pystr option"

definition ews_unhealthy :: "exn \<Rightarrow> ews_health_result" where
  "ews_unhealthy e = \<lparr>eh_ok = False, eh_latency_ms = 0, eh_profile = None, eh_detail = [], eh_error = Some (exn_text e)\<rparr>"

definition check_ews_health ::
    "ews_io \<Rightarrow> ews_config \<Rightarrow> pystr \<Rightarrow> pystr \<Rightarrow> ews_state \<Rightarrow> ews_health_result \<times> ews_state" where
  "check_ews_health io cfg username password st =
     (case negotiate (fst (io_nets io)) cfg False (es_tls st) of
        (Inl e, tls) \<Rightarrow> (ews_unhealthy e, st\<lparr>es_tls := tls\<rparr>)
      | (Inr neg, tls) \<Rightarrow>
          (case build_account (fst (io_nets io)) (fst (io_exchanges io)) (io_lib io) username password cfg
                  (Some username) None (st\<lparr>es_tls := tls\<rparr>) of
             (Inl e, st') \<Rightarrow> (ews_unhealthy e, st')
           | (Inr acc, st') \<Rightarrow>
               (case io_inbox_count io (ts_adapter (es_tls st')) acc of
                  Inl e \<Rightarrow> (ews_unhealthy e, st')
                | Inr n \<Rightarrow>
                    (\<lparr>eh_ok = True, eh_latency_ms = io_latency_ms io,
                      eh_profile = Some (profile_value (neg_profile neg)),
                      eh_detail = lit ''Inbox accessible ('' @ str_int n @ lit '' items)'', eh_error = None\<rparr>, st'))))"

definition ews_health_alias :: "ews_io \<Rightarrow> pystr \<Rightarrow> ews_state app \<Rightarrow> ews_health_result reply \<times> ews_state app" where
  "ews_health_alias io ts a =
     (case service_credentials (runtime_get (app_runtime a)) of
        None \<Rightarrow> (Http_Error 400 (lit ''EWS username/password required in config''), a)
      | Some (cfg, username, password) \<Rightarrow>
          (case check_ews_health io cfg username password (mw_out (app_mail a)) of
             (r, out) \<Rightarrow> (Reply 200 r,
               on_mail (publish (lit ''ews.health'') (if eh_ok r then lit ''EWS health ok'' else lit ''EWS health fail'')
                   [(lit ''detail'', json_opt (if eh_detail r \<noteq> [] then Some (eh_detail r) else eh_error r))] ts)
                 (on_mail (\<lambda>w. w\<lparr>mw_out := out\<rparr>) a))))"

text \<open>Where the driver of the registry and the older check agree, they see the same thing.\<close>

lemma checks_agree:
  "eh_ok (fst (check_ews_health io cfg user pw st)) = hr_ok (fst (check_ews io cfg user pw st))
   \<and> snd (check_ews_health io cfg user pw st) = snd (check_ews io cfg user pw st)"
  by (simp add: check_ews_health_def check_ews_def ews_unhealthy_def failed_health_def
      split: prod.split sum.split)

subsection \<open>Statistics (api/stats.py)\<close>

record dashboard_stats =
  st_sent_today :: int
  st_queue_pending :: int
  st_failed_24h :: int
  st_auth_errors :: int
  st_latency_ms :: rat
  st_smtp_port :: int
  st_backend_name :: pystr
  st_connected :: bool

definition count_since :: "message_status \<Rightarrow> time \<Rightarrow> table \<Rightarrow> int" where
  "count_since st from t = int (length (filter (\<lambda>r. row_status r = st \<and> from \<le> updated_at r) t))"

definition compute_stats ::
    "time \<Rightarrow> time \<Rightarrow> table \<Rightarrow> int \<Rightarrow> int \<Rightarrow> rat \<Rightarrow> int \<Rightarrow> pystr \<Rightarrow> bool \<Rightarrow> dashboard_stats" where
  "compute_stats now now' t pending auth_errors latency port name up =
     \<lparr>st_sent_today = count_since SENT (now - now mod day_us) t, st_queue_pending = pending,
      st_failed_24h = count_since FAILED (now' - day_us) t, st_auth_errors = auth_errors,
      st_latency_ms = latency, st_smtp_port = port, st_backend_name = name, st_connected = up\<rparr>"

definition app_stats :: "(gateway_config \<Rightarrow> 'w driver) \<Rightarrow> time \<Rightarrow> time \<Rightarrow> 'w app \<Rightarrow> dashboard_stats \<times> 'w app" where
  "app_stats D now now' a =
     (let pending = service_pending (app_table a)
      in case app_health D a of
           (h, a') \<Rightarrow>
             (compute_stats now now' (app_table a') pending
                (case mw_hub (app_mail a') of None \<Rightarrow> 0 | Some hub \<Rightarrow> auth_errors_24h hub) (hr_latency_ms h)
                (smtp_port (smtp (runtime_get (app_runtime a)))) (app_label D a) (hr_ok h), a'))"

subsection \<open>The two forms of the account page (api/routes/ui.py)\<close>

definition ui_account_alerts :: "pystr \<Rightarrow> bool \<Rightarrow> 'w app \<Rightarrow> unit reply \<times> 'w app" where
  "ui_account_alerts email enabled a =
     (case load_ops_alerts (app_settings a) of
        Inl e \<Rightarrow> (Server_Error e, a)
      | Inr ops \<Rightarrow> (Reply 303 (),
          a\<lparr>app_settings := save_ops_alerts
            (ops\<lparr>admin_email := JStr (strip email), email_alerts_enabled := JBool enabled\<rparr>) (app_settings a)\<rparr>))"

record digest_form =
  df_daily :: bool
  df_weekly :: bool
  df_include_body :: bool
  df_subject :: pystr
  df_hour :: int
  df_weekday :: int

definition ui_account_digests :: "digest_form \<Rightarrow> 'w app \<Rightarrow> unit reply \<times> 'w app" where
  "ui_account_digests f a =
     (case load_ops_alerts (app_settings a) of
        Inl e \<Rightarrow> (Server_Error e, a)
      | Inr ops \<Rightarrow> (Reply 303 (),
          a\<lparr>app_settings := save_ops_alerts
            (ops\<lparr>digest_daily_enabled := JBool (df_daily f), digest_weekly_enabled := JBool (df_weekly f),
               digest_include_body := JBool (df_include_body f),
               digest_subject := JStr (take 200 (strip (if df_subject f = [] then subject_default else df_subject f))),
               digest_hour_utc := JInt (max 0 (min 23 (df_hour f))),
               digest_weekday := JInt (max 0 (min 6 (df_weekday f)))\<rparr>) (app_settings a)\<rparr>))"

subsection \<open>The live stream (api/routes/ws.py)\<close>

text \<open>What the WebSocket handler does before it subscribes: it closes with a code, or accepts.\<close>

definition ws_session :: "crypto \<Rightarrow> int \<Rightarrow> pystr option \<Rightarrow> 'w app \<Rightarrow> session res" where
  "ws_session C now cookie a =
     (if \<not> truthy cookie then Inr []
      else bindE (session_key C (app_box a)) (\<lambda>key.
        bindE (decode_session C now (or_empty cookie) key) (\<lambda>d.
          Inr (case d of None \<Rightarrow> [] | Some s \<Rightarrow> s))))"

definition traffic_ws :: "crypto \<Rightarrow> int \<Rightarrow> pystr option \<Rightarrow> nat \<Rightarrow> 'w app \<Rightarrow> int option res \<times> 'w app" where
  "traffic_ws C now cookie i a =
     (case ws_session C now cookie a of
        Inl e \<Rightarrow> (Inl e, a)
      | Inr s \<Rightarrow>
          if \<not> session_admin s then (Inr (Some 4401), a)
          else if session_must_change s then (Inr (Some 4403), a)
          else (Inr None, on_mail (\<lambda>w. w\<lparr>mw_hub := map_option (subscribe i) (mw_hub w)\<rparr>) a))"

subsection \<open>Updating the configuration\<close>

lemma prepare_tls_keeps [simp]:
  "app_runtime (prepare_tls N c a) = app_runtime a" "app_settings (prepare_tls N c a) = app_settings a"
  "app_box (prepare_tls N c a) = app_box a" "app_admins (prepare_tls N c a) = app_admins a"
  "app_table (prepare_tls N c a) = app_table a"
  by (simp_all add: prepare_tls_def app_table_def split: option.split)

lemma store_config_spec:
  assumes "aead_law C" "pydantic_law P" "valid_config P c" "length n1 = 12" "length n2 = 12" "length n3 = 12"
  shows "\<exists>a'. store_config C P D (n1, n2, n3) tick c a = (Reply 200 (redacted c), a')
    \<and> rt_config (app_runtime a') = c \<and> load_config C P (app_box a') (app_settings a') = Inr (Some c)
    \<and> load_ops_alerts (app_settings a') = load_ops_alerts (app_settings a)
    \<and> load_digest_state (app_settings a') = load_digest_state (app_settings a)
    \<and> app_table a' = app_table a \<and> app_box a' = app_box a"
proof -
  let ?a1 = "a\<lparr>app_runtime := runtime_replace c (app_runtime a)\<rparr>"
  from load_saved [OF assms, of "app_box a" "app_settings a"] obtain db where
    db: "save_config C (app_box a) (n1, n2, n3) c (app_settings a) = Inr db"
    and ld: "load_config C P (app_box a) db = Inr (Some c)"
    by (auto simp: bindE_Inr_iff)
  have put: "db = put_setting config_key (dumps_default (model_dump (stored_config C (app_box a) (n1, n2, n3) c))) (app_settings a)"
    using db save_config_Inr [OF valid_scalar [OF assms(3)]] by simp
  have "load_ops_alerts db = load_ops_alerts (app_settings a)"
    "load_digest_state db = load_digest_state (app_settings a)"
    by (simp_all add: put load_ops_alerts_def load_digest_state_def settings.lookup_put_other)
  with db ld show ?thesis
    by (simp add: store_config_def Let_def redact_config_valid [OF assms(2,3)] reply_of_def
        runtime_replace_def app_table_def [of "_\<lparr>app_settings := _\<rparr>"] app_table_def [symmetric])
qed


definition web_app :: "ews_state app" where
  "web_app = wire_components toy_boot sample_config \<lparr>box_key = []\<rparr> [] [] [] start_ews"

text \<open>Renaming the domain: the redacted document with another domain keeps the stored password.\<close>

definition renamed_config :: gateway_config where
  "renamed_config = sample_config\<lparr>ews := Some (sample_ews\<lparr>ews_domain := Some (lit ''NEW''), ews_password := Some secret_mask\<rparr>)\<rparr>"

lemma renamed_valid: "valid_config toy_pydantic renamed_config"
proof -
  have "opt_ok (Some (lit ''NEW''))" "opt_ok (Some secret_mask)"
    by code_simp+
  with valid_sample show ?thesis
    by (simp add: valid_config_def renamed_config_def sample_config_def valid_ews_def sample_ews_def)
qed


text \<open>An import that fails changes nothing.\<close>

lemma import_failed_keeps:
  "import_config C P (app_box a) bundle = Inl e \<Longrightarrow>
   import_gateway_config C P D nonces tick bundle a = (Http_Error 400 (lit ''Invalid config bundle: '' @ exn_text e), a)"
  by (simp add: import_gateway_config_def)

text \<open>
  Readiness is told truthfully: \<open>/readyz\<close> answers 200 exactly when the SMTP side is running and
  the health check of the configured backend succeeds, and 503 otherwise; it reports the number
  of waiting messages and changes neither messages nor settings.
\<close>

lemma readyz_truthful:
  "\<exists>h out st. check_backend_health (D (rt_config (app_runtime a))) (rt_config (app_runtime a))
       (mw_out (app_mail a)) = (h, out)
     \<and> readyz D a = (Reply (if smtp_ok a \<and> hr_ok h then 200 else 503) st, on_mail (\<lambda>w. w\<lparr>mw_out := out\<rparr>) a)
     \<and> hs_queue_pending st = count_pending (app_table a) \<and> hs_smtp_server st = smtp_ok a
     \<and> hs_backend_ok st = hr_ok h
     \<and> (hs_status st = lit ''healthy'') = (smtp_ok a \<and> hr_ok h)"
  by (auto simp: readyz_def app_health_def Let_def runtime_get_def service_pending_def split: prod.split)

lemma submit_test_row:
  assumes "submit_test C box L as_bytes ins sender rcpts subject body is_html username password w = (Inr x, w')"
  shows "\<exists>row. mw_table w' = mw_table w @ [row] \<and> row_status row = QUEUED \<and> row_id row = acc_message_id x
    \<and> row_username row = Some username \<and> row_sender row = sender"
  using accept_smtp_row [OF assms [unfolded submit_test_def]] by auto

text \<open>
  A test mail is only queued under the Exchange account of the configuration: either the
  request is refused with 400 and nothing changes, or one message with the account's name is
  appended, QUEUED, for a backend that is Exchange and has credentials; when the insertion
  raises nothing is appended.
\<close>

lemma send_test_queues_one:
  "case send_test D M sender rcpts subject body is_html a of (reply, a') \<Rightarrow>
     app_settings a' = app_settings a
     \<and> (case reply of
          Reply c r \<Rightarrow> backend (rt_config (app_runtime a)) = EWS
            \<and> (\<exists>row e. ews (rt_config (app_runtime a)) = Some e \<and> truthy (ews_username e) \<and> truthy (ews_password e)
                 \<and> app_table a' = app_table a @ [row] \<and> row_status row = QUEUED \<and> row_id row = acc_message_id r
                 \<and> row_username row = ews_username e \<and> row_sender row = sender)
        | Http_Error c d \<Rightarrow> c = 400 \<and> a' = a
        | Server_Error e \<Rightarrow> app_table a' = app_table a)"
proof (cases "require_backend_credentials D a")
  case (Reply c up)
  obtain username password where up: "up = (username, password)" by (cases up)
  from Reply obtain e where e: "backend (rt_config (app_runtime a)) = EWS" "ews (rt_config (app_runtime a)) = Some e"
    "truthy (ews_username e)" "truthy (ews_password e)" "username = or_empty (ews_username e)"
    by (auto simp: require_backend_credentials_def service_credentials_def Let_def runtime_get_def up
        split: if_splits option.splits)
  then have user: "ews_username e = Some username" by (cases "ews_username e") auto
  obtain r w where sub: "submit_test (mi_crypto M) (app_box a) (mi_lib M) (mi_bytes M) (mi_insert M) sender rcpts
      subject body is_html username password (app_mail a) = (r, w)" by (metis surj_pair)
  show ?thesis
  proof (cases r)
    case (Inl x)
    from accept_smtp_Inl [OF sub [unfolded Inl submit_test_def]] have "w = app_mail a" .
    with Reply sub Inl show ?thesis by (simp add: send_test_def up reply_of_def)
  next
    case (Inr x)
    from submit_test_row [OF sub [unfolded Inr]] obtain row where
      "mw_table w = mw_table (app_mail a) @ [row]" "row_status row = QUEUED" "row_id row = acc_message_id x"
      "row_username row = Some username" "row_sender row = sender"
      by blast
    moreover have "send_test D M sender rcpts subject body is_html a = (Reply 200 x, a\<lparr>app_mail := w\<rparr>)"
      using Reply sub Inr by (simp add: send_test_def up reply_of_def)
    ultimately show ?thesis using e(1-4) user by (simp add: app_table_def)
  qed
next
  case (Http_Error c d)
  then have "c = 400"
    by (auto simp: require_backend_credentials_def Let_def split: if_splits option.splits)
  with Http_Error show ?thesis by (simp add: send_test_def)
next
  case (Server_Error e)
  then show ?thesis
    by (auto simp: require_backend_credentials_def Let_def split: if_splits option.splits)
qed

subsection \<open>Forms and the live stream\<close>

lemma alerts_form_saved:
  assumes "load_ops_alerts (app_settings a) = Inr ops" "wf_ops ops" "list_all is_scalar (strip email)"
  shows "load_ops_alerts (app_settings (snd (ui_account_alerts email enabled a))) =
    Inr (ops\<lparr>admin_email := JStr (strip email), email_alerts_enabled := JBool enabled\<rparr>)"
proof -
  have "wf_ops (ops\<lparr>admin_email := JStr (strip email), email_alerts_enabled := JBool enabled\<rparr>)"
    using assms(2,3) by (simp add: wf_ops_def ops_asdict_def)
  with assms(1) show ?thesis by (simp add: ui_account_alerts_def load_saved_ops)
qed

text \<open>Nobody is subscribed to the live stream without a signed session of the administrator.\<close>

lemma ws_needs_admin:
  assumes "traffic_ws C now cookie i a = (r, a')" "a' \<noteq> a"
  shows "\<exists>s key. r = Inr None \<and> session_key C (app_box a) = Inr key \<and> session_admin s \<and> \<not> session_must_change s
    \<and> decode_session C now (or_empty cookie) key = Inr (Some s)"
  using assms
  by (auto simp: traffic_ws_def ws_session_def bindE_def session_admin_def
      split: sum.splits option.splits if_splits)

end
