(* ===== verification/Ops_Watch.thy ===== *)
theory Ops_Watch
  imports App_State
begin

section \<open>Capacity alerts (ops/watcher.py, ops/alert\_mail.py)\<close>

text \<open>
  Every thirty seconds \<open>_tick\<close> grades the gateway, keeps the grade for the banner, publishes an
  event when it got worse or changed, and mails the administrator when it is critical, at most
  once in a cool-down. \<open>watch_step\<close> are the ticks of the thread and whatever the rest of the
  program does in between. The MIME text of a report is the argument \<open>compose\<close> (the email
  package, which raises on a header with a line break), the text of a float \<open>float_text\<close>.
\<close>

subsection \<open>Mailing a report through the driver\<close>

record report_mail =
  rm_from :: pystr
  rm_to :: pystr
  rm_subject :: pystr
  rm_body :: pystr
  rm_attachment :: "(bytes \<times> pystr) option"

record report_lib =
  compose :: "report_mail \<Rightarrow> bytes res"
  float_text :: "secs \<Rightarrow> pystr"

text \<open>User name, password and sender, or \<open>None\<close> when credentials are missing.\<close>

definition service_account :: "gateway_config \<Rightarrow> (pystr \<times> pystr \<times> pystr) option" where
  "service_account cfg =
     (case ews cfg of
        None \<Rightarrow> None
      | Some e \<Rightarrow>
          if \<not> truthy (ews_username e) \<or> \<not> truthy (ews_password e) then None
          else Some (or_empty (ews_username e), or_empty (ews_password e),
            if truthy (primary_smtp e) then or_empty (primary_smtp e)
            else if truthy (default_sender cfg) then or_empty (default_sender cfg)
            else or_empty (ews_username e)))"

definition report_request :: "gateway_config \<Rightarrow> pystr \<times> pystr \<times> pystr \<Rightarrow> pystr \<Rightarrow> bytes \<Rightarrow> send_request" where
  "report_request cfg account to_email mime =
     (case account of (user, password, sender) \<Rightarrow>
        \<lparr>auth_username = user, auth_password = password, mail_from = sender, rcpt_tos = [to_email],
         mime_bytes = mime, req_default_sender = default_sender cfg\<rparr>)"

definition alert_lines :: "report_lib \<Rightarrow> capacity_status \<Rightarrow> pystr list" where
  "alert_lines L s =
     [lit ''Level: '' @ level_value (cap_level s), lit ''Pending: '' @ str_int (cap_pending s),
      lit ''Oldest age (s): '' @ (case cap_oldest_age s of None \<Rightarrow> lit ''None'' | Some x \<Rightarrow> float_text L x),
      lit ''Circuit open: '' @ (if cap_circuit_open s then lit ''True'' else lit ''False''),
      [], lit ''Reasons:''] @ map (\<lambda>r. lit ''- '' @ r) (cap_reasons s) @ [[], cap_hint s]"

definition alert_mail :: "report_lib \<Rightarrow> capacity_status \<Rightarrow> pystr \<Rightarrow> pystr \<Rightarrow> report_mail" where
  "alert_mail L s sender to_email =
     \<lparr>rm_from = sender, rm_to = to_email,
      rm_subject = lit ''[msgate] '' @ upper (level_value (cap_level s)) @ lit '' capacity '' @ em_dash
        @ lit '' queue '' @ str_int (cap_pending s),
      rm_body = join_with [10] (alert_lines L s), rm_attachment = None\<rparr>"

definition send_capacity_alert ::
    "(gateway_config \<Rightarrow> 'w driver) \<Rightarrow> report_lib \<Rightarrow> capacity_status \<Rightarrow> pystr \<Rightarrow> 'w app
      \<Rightarrow> bool res \<times> 'w app" where
  "send_capacity_alert D L s to_email a =
     (let cfg = runtime_get (app_runtime a)
      in if \<not> drv_configured (D cfg) cfg then (Inr False, a)
         else case service_account cfg of
             None \<Rightarrow> (Inr False, a)
           | Some (user, password, sender) \<Rightarrow>
               (case compose L (alert_mail L s sender to_email) of
                  Inl e \<Rightarrow> (Inl e, a)
                | Inr mime \<Rightarrow>
                    (case drv_send (D cfg) (report_request cfg (user, password, sender) to_email mime) cfg
                            (mw_out (app_mail a)) of
                       (Inl _, out) \<Rightarrow> (Inr False, on_mail (\<lambda>w. w\<lparr>mw_out := out\<rparr>) a)
                     | (Inr _, out) \<Rightarrow> (Inr True, on_mail (\<lambda>w. w\<lparr>mw_out := out\<rparr>) a))))"

subsection \<open>The watcher\<close>

record watcher =
  last_email_at :: secs
  last_level :: capacity_level

definition new_watcher :: watcher where
  "new_watcher = \<lparr>last_email_at = 0, last_level = Level_Ok\<rparr>"

text \<open>The clocks of a tick, in the order they are read.\<close>

record watch_io =
  wi_now :: time
  wi_state_at :: secs
  wi_refresh_at :: secs
  wi_ts :: pystr
  wi_allowed_at :: secs
  wi_sent_at :: secs

definition events_needed :: "watcher \<Rightarrow> capacity_status \<Rightarrow> bool" where
  "events_needed wt s \<longleftrightarrow> cap_level s \<noteq> last_level wt"

definition email_allowed :: "secs \<Rightarrow> json \<Rightarrow> watcher \<Rightarrow> bool res" where
  "email_allowed now cooldown wt =
     bindE (py_number cooldown) (\<lambda>c. Inr (of_int (max 60 c) \<le> now - last_email_at wt))"

definition alert_due :: "secs \<Rightarrow> ops_alerts \<Rightarrow> capacity_status \<Rightarrow> watcher \<Rightarrow> bool res" where
  "alert_due now ops s wt =
     (if \<not> truthy_json (email_alerts_enabled ops) then Inr False
      else bindE (attr_strip (admin_email ops)) (\<lambda>addr.
        if addr = [] \<or> cap_level s \<noteq> Level_Critical then Inr False
        else email_allowed now (alert_cooldown_seconds ops) wt))"

definition publish_capacity :: "capacity_status \<Rightarrow> pystr \<Rightarrow> 'w app \<Rightarrow> 'w app" where
  "publish_capacity s ts a =
     on_mail (publish (if cap_level s = Level_Warn then lit ''capacity.warn'' else lit ''capacity.critical'')
       (let m = join_with (lit ''; '') (cap_reasons s) in if m = [] then level_value (cap_level s) else m)
       [(lit ''level'', JStr (level_value (cap_level s))), (lit ''pending'', JInt (cap_pending s))] ts) a"

text \<open>The mail, if one is due; the boolean says that it was handed over.\<close>

definition mail_stage ::
    "(gateway_config \<Rightarrow> 'w driver) \<Rightarrow> report_lib \<Rightarrow> watch_io \<Rightarrow> ops_alerts \<Rightarrow> capacity_status
      \<Rightarrow> watcher \<times> 'w app \<Rightarrow> bool res \<times> watcher \<times> 'w app" where
  "mail_stage D L io ops s st =
     (case st of (wt, a) \<Rightarrow>
        case alert_due (wi_allowed_at io) ops s wt of
          Inl e \<Rightarrow> (Inl e, wt, a)
        | Inr False \<Rightarrow> (Inr False, wt\<lparr>last_level := cap_level s\<rparr>, a)
        | Inr True \<Rightarrow>
            (case send_capacity_alert D L s (case attr_strip (admin_email ops) of Inl _ \<Rightarrow> [] | Inr x \<Rightarrow> x) a of
               (Inl e, a') \<Rightarrow> (Inl e, wt, a')
             | (Inr True, a') \<Rightarrow>
                 (Inr True, wt\<lparr>last_email_at := wi_sent_at io, last_level := cap_level s\<rparr>, a')
             | (Inr False, a') \<Rightarrow> (Inr False, wt\<lparr>last_level := cap_level s\<rparr>, a')))"

text \<open>\<open>_tick\<close>; the boolean says that an alert was mailed, an error is an exception \<open>_run\<close> logs.\<close>

definition watch_tick ::
    "(gateway_config \<Rightarrow> 'w driver) \<Rightarrow> report_lib \<Rightarrow> watch_io \<Rightarrow> watcher \<times> 'w app
      \<Rightarrow> bool res \<times> watcher \<times> 'w app" where
  "watch_tick D L io st =
     (case st of (wt, a) \<Rightarrow>
        case load_ops_alerts (app_settings a) of
          Inl e \<Rightarrow> (Inl e, wt, a)
        | Inr ops \<Rightarrow>
            (case evaluate_capacity (wi_now io) (wi_state_at io) (service_pending (app_table a)) ops
                    (app_table a) (app_circuit a) of
               (Inl e, b) \<Rightarrow> (Inl e, wt, a\<lparr>app_circuit := b\<rparr>)
             | (Inr s, b) \<Rightarrow>
                 (let a1 = refresh_metrics D (wi_refresh_at io) (a\<lparr>app_circuit := b, capacity_seen := Some s\<rparr>)
                  in if cap_level s = Level_Ok then (Inr False, wt\<lparr>last_level := Level_Ok\<rparr>, a1)
                     else mail_stage D L io ops s
                       (wt, if events_needed wt s then publish_capacity s (wi_ts io) a1 else a1))))"

subsection \<open>Ticks and everything else\<close>

record 'w watch_state =
  ws_watcher :: watcher
  ws_app :: "'w app"
  ws_clock :: secs
  ws_mailed :: "secs list"

inductive watch_step :: "(gateway_config \<Rightarrow> 'w driver) \<Rightarrow> report_lib \<Rightarrow> 'w watch_state \<Rightarrow> 'w watch_state \<Rightarrow> bool"
  for D L where
  Tick: "watch_tick D L io (ws_watcher s, ws_app s) = (r, wt, a) \<Longrightarrow>
    ws_clock s \<le> wi_allowed_at io \<Longrightarrow> wi_allowed_at io \<le> wi_sent_at io \<Longrightarrow>
    watch_step D L s \<lparr>ws_watcher = wt, ws_app = a, ws_clock = wi_sent_at io,
      ws_mailed = ws_mailed s @ (if r = Inr True then [wi_sent_at io] else [])\<rparr>"
| Elsewhere: "watch_step D L s (s\<lparr>ws_app := a\<rparr>)"

inductive watch_reachable :: "(gateway_config \<Rightarrow> 'w driver) \<Rightarrow> report_lib \<Rightarrow> 'w watch_state \<Rightarrow> bool"
  for D L where
  Begin: "0 \<le> t \<Longrightarrow>
    watch_reachable D L \<lparr>ws_watcher = new_watcher, ws_app = a, ws_clock = t, ws_mailed = []\<rparr>"
| Step: "watch_reachable D L s \<Longrightarrow> watch_step D L s s' \<Longrightarrow> watch_reachable D L s'"

text \<open>What a tick does to the time of the last mail.\<close>

lemma mail_stage_outcome:
  assumes "mail_stage D L io ops s (wt, a) = (r, wt', a')"
  shows "if r = Inr True
    then alert_due (wi_allowed_at io) ops s wt = Inr True \<and> last_email_at wt' = wi_sent_at io
    else last_email_at wt' = last_email_at wt"
  using assms
  by (auto simp: mail_stage_def split: sum.splits bool.splits prod.splits)

lemma watch_tick_outcome:
  assumes "watch_tick D L io (wt, a) = (r, wt', a')"
  shows "if r = Inr True
    then last_email_at wt' = wi_sent_at io
      \<and> (\<exists>ops s. load_ops_alerts (app_settings a) = Inr ops
           \<and> fst (evaluate_capacity (wi_now io) (wi_state_at io) (service_pending (app_table a)) ops
                (app_table a) (app_circuit a)) = Inr s
           \<and> alert_due (wi_allowed_at io) ops s wt = Inr True)
    else last_email_at wt' = last_email_at wt"
proof (cases "load_ops_alerts (app_settings a)")
  case (Inl e)
  with assms show ?thesis by (auto simp: watch_tick_def)
next
  case ops: (Inr ops)
  obtain res b where eval: "evaluate_capacity (wi_now io) (wi_state_at io) (service_pending (app_table a)) ops
      (app_table a) (app_circuit a) = (res, b)" by fastforce
  show ?thesis
  proof (cases res)
    case (Inl e)
    with assms show ?thesis by (auto simp: watch_tick_def ops eval)
  next
    case (Inr s)
    show ?thesis
    proof (cases "cap_level s = Level_Ok")
      case True
      with assms Inr show ?thesis by (auto simp: watch_tick_def ops eval Let_def)
    next
      case False
      with assms Inr obtain a1 where "mail_stage D L io ops s (wt, a1) = (r, wt', a')"
        by (auto simp: watch_tick_def ops eval Let_def)
      from mail_stage_outcome [OF this] Inr show ?thesis by (auto simp: ops eval)
    qed
  qed
qed

lemma alert_due_InrD:
  assumes "alert_due now ops s wt = Inr True"
  shows "cap_level s = Level_Critical \<and> (\<exists>addr. attr_strip (admin_email ops) = Inr addr \<and> addr \<noteq> [])
    \<and> (\<exists>c. py_number (alert_cooldown_seconds ops) = Inr c \<and> last_email_at wt + of_int (max 60 c) \<le> now)"
  using assms by (auto simp: alert_due_def email_allowed_def bindE_Inr_iff algebra_simps split: if_splits)

text \<open>The watcher remembers the last mail, and the mails are in order.\<close>

definition watch_ok :: "'w watch_state \<Rightarrow> bool" where
  "watch_ok s \<longleftrightarrow> 0 \<le> last_email_at (ws_watcher s) \<and> list_all (\<lambda>t. t \<le> last_email_at (ws_watcher s)) (ws_mailed s)
     \<and> last_email_at (ws_watcher s) \<le> ws_clock s \<and> sorted_wrt (\<lambda>t u. t + 60 \<le> u) (ws_mailed s)"

lemma watch_step_ok [keep_inv]:
  assumes "watch_ok s" "watch_step D L s s'"
  shows "watch_ok s'"
  using assms(2,1)
proof (cases rule: watch_step.cases)
  case (Tick io r wt a)
  note out = watch_tick_outcome [OF Tick(2)]
  show ?thesis
  proof (cases "r = Inr True")
    case False
    with out Tick assms(1) show ?thesis by (auto simp: watch_ok_def)
  next
    case True
    with out obtain ops c where "last_email_at wt = wi_sent_at io"
      and gap: "last_email_at (ws_watcher s) + of_int (max 60 c) \<le> wi_allowed_at io"
      by (auto dest: alert_due_InrD)
    moreover have "(60::secs) \<le> of_int (max 60 c)" by simp
    then have "last_email_at (ws_watcher s) + 60 \<le> wi_sent_at io"
      using gap Tick(4) by linarith
    ultimately show ?thesis
      using Tick assms(1) True by (auto simp: watch_ok_def list_all_iff sorted_wrt_append)
  qed
next
  case (Elsewhere a)
  with assms(1) show ?thesis by (simp add: watch_ok_def)
qed

lemma watch_reachable_ok: "watch_reachable D L s \<Longrightarrow> watch_ok s"
proof (induction rule: watch_reachable.induct)
  case (Begin t a)
  then show ?case by (simp add: watch_ok_def new_watcher_def)
next
  case (Step s s')
  then show ?case by (blast intro: watch_step_ok)
qed

text \<open>
  C29. The administrator is not flooded: in every run of the watcher, whatever the rest of the
  program does to settings, queue and breaker between its ticks, an alert is only mailed at a
  critical grade to an address that is not blank, not before the cool-down of the settings, and
  never less than a minute, has passed since every alert mailed before; the alerts of a run are a
  minute apart.
\<close>

theorem alerts_spaced_out:
  assumes "watch_reachable D L s"
    and "watch_tick D L io (ws_watcher s, ws_app s) = (Inr True, wt, a)"
    and "load_ops_alerts (app_settings (ws_app s)) = Inr ops"
  shows "sorted_wrt (\<lambda>t u. t + 60 \<le> u) (ws_mailed s)
    \<and> (\<exists>c. py_number (alert_cooldown_seconds ops) = Inr c
         \<and> list_all (\<lambda>t. t + of_int (max 60 c) \<le> wi_allowed_at io) (ws_mailed s))
    \<and> (\<exists>addr. attr_strip (admin_email ops) = Inr addr \<and> addr \<noteq> [])
    \<and> (\<exists>g. fst (evaluate_capacity (wi_now io) (wi_state_at io) (service_pending (app_table (ws_app s))) ops
          (app_table (ws_app s)) (app_circuit (ws_app s))) = Inr g \<and> cap_level g = Level_Critical)"
proof -
  note ok = watch_reachable_ok [OF assms(1), unfolded watch_ok_def]
  from watch_tick_outcome [OF assms(2)] assms(3) obtain g where
    g: "fst (evaluate_capacity (wi_now io) (wi_state_at io) (service_pending (app_table (ws_app s))) ops
          (app_table (ws_app s)) (app_circuit (ws_app s))) = Inr g"
    and due: "alert_due (wi_allowed_at io) ops g (ws_watcher s) = Inr True"
    by auto
  from alert_due_InrD [OF due] obtain c where
    "py_number (alert_cooldown_seconds ops) = Inr c"
    "last_email_at (ws_watcher s) + of_int (max 60 c) \<le> wi_allowed_at io" by blast
  moreover from this(2) ok have "list_all (\<lambda>t. t + of_int (max 60 c) \<le> wi_allowed_at io) (ws_mailed s)"
    by (force simp: list_all_iff)
  ultimately show ?thesis using ok g alert_due_InrD [OF due] by blast
qed

text \<open>A gateway with an open circuit and an administrator to tell.\<close>

definition alarm_ops :: ops_alerts where
  "alarm_ops = default_ops\<lparr>admin_email := JStr (lit ''ops'')\<rparr>"

definition alarm_app :: "send_request list app" where
  "alarm_app = \<lparr>app_runtime = \<lparr>rt_config = sample_config\<rparr>, app_box = \<lparr>box_key = []\<rparr>,
     app_settings = save_ops_alerts alarm_ops [], app_admins = [],
     app_mail = \<lparr>mw_table = [], mw_out = [], mw_hub = None, mw_wake = False\<rparr>,
     app_circuit = (fresh_breaker 5 60)\<lparr>br_state := OPEN, br_opened_at := 900\<rparr>,
     app_worker = \<lparr>wk_workers = 1, wk_threads = [], wk_stop = False, wk_wake = False\<rparr>,
     smtp_running = False, smtp_controller = None, capacity_seen = None\<rparr>"

definition toy_report_lib :: report_lib where
  "toy_report_lib = \<lparr>compose = (\<lambda>_. Inr []), float_text = fmt0\<rparr>"

definition alarm_io :: watch_io where
  "alarm_io = \<lparr>wi_now = 0, wi_state_at = 901, wi_refresh_at = 902, wi_ts = [], wi_allowed_at = 903,
     wi_sent_at = 904\<rparr>"

lemma alarm_ops_loaded: "load_ops_alerts (app_settings alarm_app) = Inr alarm_ops"
  by (simp add: alarm_app_def load_saved_ops wf_ops_def ops_asdict_def alarm_ops_def default_ops_def
      subject_default_def lit_def is_scalar_def)

lemma alarm_mailed:
  "\<exists>wt a. watch_tick (\<lambda>_. mock_driver None) toy_report_lib alarm_io (new_watcher, alarm_app) = (Inr True, wt, a)"
proof -
  have strip_ops: "strip (lit ''ops'') = lit ''ops''" by code_simp
  have user: "ews sample_config \<noteq> None" "service_account sample_config \<noteq> None"
    by (simp_all add: sample_config_def sample_ews_def service_account_def)
  obtain acc where acc: "service_account sample_config = Some acc" using user(2) by blast
  obtain s b where eval: "evaluate_capacity 0 901 (service_pending (app_table alarm_app)) alarm_ops
      (app_table alarm_app) (app_circuit alarm_app) = (Inr s, b)" and crit: "cap_level s = Level_Critical"
    by (simp add: evaluate_capacity_def breaker_defs alarm_app_def app_table_def service_pending_def
        count_pending_def check_depth_def check_age_def oldest_pending_age_seconds_def alarm_ops_def
        default_ops_def py_number_def)
  have due: "alert_due 903 alarm_ops s new_watcher = Inr True"
    by (simp add: alert_due_def alarm_ops_def default_ops_def attr_strip_def strip_ops crit
        email_allowed_def py_number_def new_watcher_def truthy_json_def)
  have sent: "\<exists>a'. send_capacity_alert (\<lambda>_. mock_driver None) toy_report_lib s to_email a = (Inr True, a')"
    if "app_runtime a = \<lparr>rt_config = sample_config\<rparr>" for a to_email
    using that acc
    by (cases acc) (simp add: send_capacity_alert_def Let_def runtime_get_def mock_driver_def toy_report_lib_def)
  define a1 where "a1 = refresh_metrics (\<lambda>_. mock_driver None) 902
    (alarm_app\<lparr>app_circuit := b, capacity_seen := Some s\<rparr>)"
  define a2 where "a2 = publish_capacity s [] a1"
  have news: "events_needed new_watcher s" by (simp add: events_needed_def new_watcher_def crit)
  have "app_runtime a2 = \<lparr>rt_config = sample_config\<rparr>"
    by (simp add: a2_def a1_def publish_capacity_def) (simp add: alarm_app_def)
  from sent [OF this] obtain a' where
    "send_capacity_alert (\<lambda>_. mock_driver None) toy_report_lib s (strip (lit ''ops'')) a2 = (Inr True, a')"
    by blast
  moreover have "attr_strip (admin_email alarm_ops) = Inr (strip (lit ''ops''))"
    by (simp add: alarm_ops_def attr_strip_def)
  ultimately have "mail_stage (\<lambda>_. mock_driver None) toy_report_lib alarm_io alarm_ops s (new_watcher, a2) =
      (Inr True, new_watcher\<lparr>last_email_at := 904, last_level := cap_level s\<rparr>, a')"
    by (simp add: mail_stage_def due alarm_io_def)
  then show ?thesis
    by (simp add: watch_tick_def alarm_ops_loaded eval alarm_io_def crit Let_def news
        flip: a1_def a2_def)
qed

theorem alerts_spaced_out_witness:
  "\<exists>g. fst (evaluate_capacity 0 901 (service_pending (app_table alarm_app)) alarm_ops
      (app_table alarm_app) (app_circuit alarm_app)) = Inr g \<and> cap_level g = Level_Critical"
proof -
  obtain wt a where tick: "watch_tick (\<lambda>_. mock_driver None) toy_report_lib alarm_io (new_watcher, alarm_app) =
      (Inr True, wt, a)"
    using alarm_mailed by blast
  let ?s = "\<lparr>ws_watcher = new_watcher, ws_app = alarm_app, ws_clock = 800, ws_mailed = []\<rparr>"
  have "watch_reachable (\<lambda>_. mock_driver None) toy_report_lib ?s" by (rule Begin) simp
  from alerts_spaced_out [OF this, of alarm_io wt a alarm_ops] tick alarm_ops_loaded show ?thesis
    by (simp add: alarm_io_def)
qed

text \<open>
  The fresh watcher counts the start of the monotonic clock as an alert: nothing is mailed in the
  first cool-down after the machine has booted, however critical the grade.
\<close>

lemma no_alert_after_boot:
  assumes "py_number (alert_cooldown_seconds ops) = Inr c" "now < of_int (max 60 c)"
  shows "alert_due now ops s new_watcher \<noteq> Inr True"
  using assms by (auto simp: alert_due_def email_allowed_def new_watcher_def bindE_Inr_iff split: if_splits)

text \<open>A capacity event is no event the webhooks forward.\<close>

lemma capacity_event_posts_nothing:
  "webhook_on_event urls (lit ''capacity.critical'') m d = []"
  "webhook_on_event urls (lit ''capacity.warn'') m d = []"
  by (simp_all add: webhook_on_event_def startswith_def lit_def)

end
