(* ===== verification/Digest_Report.thy ===== *)
theory Digest_Report
  imports Message_Store Py_Calendar Ops_Capacity
begin

section \<open>The contents of a digest (ops/digest\_report.py)\<close>

text \<open>
  \<open>collect_digest\<close> counts the rows of a window by their outcome, finds the longest delivery and
  ranks the reasons of failures. The order in which the database gives the rows of a query with a
  limit is taken to be that of the table.
\<close>

record digest_report =
  dr_period :: pystr
  dr_start :: time
  dr_end :: time
  dr_sent :: int
  dr_failed :: int
  dr_pending :: int
  dr_retrying :: int
  dr_max_delay :: "secs option"
  dr_max_id :: "pystr option"
  dr_max_why :: "pystr option"
  dr_top_errors :: "pystr list"
  dr_notes :: "pystr list"

subsection \<open>Queries\<close>

definition in_window :: "message_status \<Rightarrow> time \<Rightarrow> time \<Rightarrow> message_row \<Rightarrow> bool" where
  "in_window st a b r \<longleftrightarrow> row_status r = st \<and> a \<le> updated_at r \<and> updated_at r < b"

definition count_status :: "message_status \<Rightarrow> time \<Rightarrow> time \<Rightarrow> table \<Rightarrow> int" where
  "count_status st a b t = int (length (filter (in_window st a b) t))"

definition count_now :: "message_status \<Rightarrow> table \<Rightarrow> int" where
  "count_now st t = int (length (filter (\<lambda>r. row_status r = st) t))"

type_synonym longest = "(secs \<times> pystr \<times> pystr) option"

definition delay_why :: "message_row \<Rightarrow> pystr" where
  "delay_why r = take 200 (strip
     (if truthy (last_error r) then or_empty (last_error r) else lit ''delivered after queue wait''))"

definition longer_delay :: "longest \<Rightarrow> message_row \<Rightarrow> longest" where
  "longer_delay best r =
     (let delay = seconds_between (created_at r) (updated_at r)
      in if delay < 0 then best
         else case best of
             None \<Rightarrow> Some (delay, row_id r, delay_why r)
           | Some (d, _, _) \<Rightarrow> if d < delay then Some (delay, row_id r, delay_why r) else best)"

definition max_sent_delay :: "time \<Rightarrow> time \<Rightarrow> table \<Rightarrow> longest" where
  "max_sent_delay a b t = foldl longer_delay None (take 5000 (filter (in_window SENT a b) t))"

definition error_key :: "pystr \<Rightarrow> pystr" where
  "error_key err =
     (let k = take 120 (strip (if err = [] then lit ''unknown'' else err))
      in if k = [] then lit ''unknown'' else k)"

text \<open>\<open>counts[key] = counts.get(key, 0) + 1\<close>\<close>

fun count_keys :: "pystr list \<Rightarrow> int dict \<Rightarrow> int dict" where
  "count_keys [] counts = counts"
| "count_keys (k # ks) counts =
     count_keys ks (AList.update k ((case map_of counts k of None \<Rightarrow> 0 | Some n \<Rightarrow> n) + 1) counts)"

definition window_errors :: "time \<Rightarrow> time \<Rightarrow> table \<Rightarrow> pystr list" where
  "window_errors a b t =
     take 200 (map (\<lambda>r. or_empty (last_error r)) (filter (\<lambda>r. in_window FAILED a b r \<and> last_error r \<noteq> None) t))"

text \<open>\<open>sorted(..., key=lambda kv: (-kv[1], kv[0]))\<close>: two stable sorts.\<close>

definition rank_counts :: "int dict \<Rightarrow> int dict" where
  "rank_counts counts = sort_key (\<lambda>kv. - snd kv) (sort_key fst counts)"

definition error_line :: "pystr \<times> int \<Rightarrow> pystr" where
  "error_line kv = str_int (snd kv) @ [215, 32] @ fst kv"

definition top_errors :: "time \<Rightarrow> time \<Rightarrow> table \<Rightarrow> pystr list" where
  "top_errors a b t =
     map error_line (take 5 (rank_counts (count_keys (map error_key (window_errors a b t)) [])))"

definition digest_notes :: "int \<Rightarrow> int \<Rightarrow> int \<Rightarrow> longest \<Rightarrow> pystr list" where
  "digest_notes failed pending retrying longest =
     (if failed \<noteq> 0 then [str_int failed @ lit '' message(s) ended in failed during the window''] else [])
     @ (if 0 < pending + retrying
        then [str_int (pending + retrying) @ lit '' still queued/retrying at report time''] else [])
     @ (case longest of None \<Rightarrow> []
        | Some (d, _, _) \<Rightarrow> if 300 \<le> d
            then [lit ''max delay '' @ [8805] @ lit '' 5 minutes ('' @ fmt0 d @ lit ''s)''] else [])"

definition collect_digest :: "pystr \<Rightarrow> time \<Rightarrow> time \<Rightarrow> table \<Rightarrow> digest_report" where
  "collect_digest period a b t =
     (let failed = count_status FAILED a b t; pending = count_now QUEUED t; retrying = count_now RETRYING t;
          longest = max_sent_delay a b t
      in \<lparr>dr_period = period, dr_start = a, dr_end = b, dr_sent = count_status SENT a b t,
          dr_failed = failed, dr_pending = pending, dr_retrying = retrying,
          dr_max_delay = map_option fst longest, dr_max_id = map_option (\<lambda>x. fst (snd x)) longest,
          dr_max_why = map_option (\<lambda>x. snd (snd x)) longest, dr_top_errors = top_errors a b t,
          dr_notes = digest_notes failed pending retrying longest\<rparr>)"

definition window_for :: "pystr \<Rightarrow> time \<Rightarrow> time \<times> time" where
  "window_for period now =
     (if period = lit ''weekly'' then (now - 7 * day_us, now) else (now - day_us, now))"

subsection \<open>Text\<close>

text \<open>\<open>s.replace(old, new)\<close> for an \<open>old\<close> that is not empty.\<close>

function replace_all :: "pystr \<Rightarrow> pystr \<Rightarrow> pystr \<Rightarrow> pystr" where
  "replace_all old new [] = []"
| "replace_all old new (c # cs) =
     (if old \<noteq> [] \<and> startswith (c # cs) old
      then new @ replace_all old new (drop (length old) (c # cs))
      else c # replace_all old new cs)"
  by pat_completeness auto
termination
  by (relation "measure (\<lambda>(old, new, s). length s)") (auto simp: neq_Nil_conv)

definition report_subject :: "pystr \<Rightarrow> digest_report \<Rightarrow> pystr" where
  "report_subject template r =
     replace_all (lit ''{to}'') (date_text (dr_end r))
       (replace_all (lit ''{from}'') (date_text (dr_start r))
         (replace_all (lit ''{period}'') (dr_period r) template))"

definition body_lines :: "digest_report \<Rightarrow> pystr list" where
  "body_lines r =
     [lit ''msgate '' @ dr_period r @ lit '' digest'',
      lit ''Window (UTC): '' @ iso_text (dr_start r) @ lit '' '' @ arrow @ lit '' '' @ iso_text (dr_end r), [],
      lit ''Sent: '' @ str_int (dr_sent r), lit ''Failed: '' @ str_int (dr_failed r),
      lit ''Pending now: '' @ str_int (dr_pending r), lit ''Retrying now: '' @ str_int (dr_retrying r), []]
     @ (case dr_max_delay r of
          None \<Rightarrow> [lit ''Max delivery delay: '' @ em_dash]
        | Some d \<Rightarrow>
            [lit ''Max delivery delay: '' @ fmt0 d @ lit ''s (id=''
               @ (if truthy (dr_max_id r) then or_empty (dr_max_id r) else em_dash) @ lit '')'']
            @ (if truthy (dr_max_why r) then [lit ''  why: '' @ or_empty (dr_max_why r)] else []))
     @ [[]]
     @ (if dr_notes r \<noteq> []
        then lit ''Critical / notable:'' # map (\<lambda>n. lit ''- '' @ n) (dr_notes r) @ [[]] else [])
     @ (if dr_top_errors r \<noteq> []
        then lit ''Top failure reasons:'' # map (\<lambda>e. lit ''- '' @ e) (dr_top_errors r) else [])"

subsection \<open>Counting and ranking\<close>

lemma count_keys_map_of:
  "map_of (count_keys ks counts) k =
    (if k \<in> set ks then Some ((case map_of counts k of None \<Rightarrow> 0 | Some n \<Rightarrow> n) + int (count_list ks k))
     else map_of counts k)"
proof (induction ks arbitrary: counts)
  case (Cons x ks)
  show ?case by (auto simp: Cons.IH split: option.split)
qed simp

lemma count_keys_distinct: "distinct (map fst counts) \<Longrightarrow> distinct (map fst (count_keys ks counts))"
  by (induction ks arbitrary: counts) (simp_all add: distinct_update)

lemma rank_counts_sorted:
  assumes "distinct (map fst counts)"
  shows "sorted_wrt (\<lambda>x y. snd y < snd x \<or> snd x = snd y \<and> fst x < fst y) (rank_counts counts)"
proof -
  have split: "sorted_wrt (\<lambda>x y. f x < f y \<or> f x = f y \<and> P x y) (sort_key f xs)"
    if "sorted_wrt P xs" for f :: "'a \<Rightarrow> int" and P xs
    using that
  proof (induction xs)
    case (Cons x xs)
    let ?Q = "\<lambda>x y. f x < f y \<or> f x = f y \<and> P x y"
    have ins: "sorted_wrt ?Q (insort_key f x ys)" if "sorted_wrt ?Q ys" "\<forall>y\<in>set ys. P x y" for ys
      using that
    proof (induction ys)
      case (Cons y ys)
      then show ?case by (auto simp: set_insort_key not_le)
    qed simp
    show ?case using Cons by (auto intro!: ins)
  qed simp
  have "sorted_wrt (<) (map fst (sort_key fst counts))"
    using assms by (simp add: strict_sorted_iff distinct_map)
  then have "sorted_wrt (\<lambda>x y. fst x < fst y) (sort_key fst counts)" by (simp add: sorted_wrt_map)
  from split [OF this, of "\<lambda>kv. - snd kv"] show ?thesis
    by (simp add: rank_counts_def)
qed

text \<open>
  The reasons of failures in a digest: they are the first five lines of a ranking that has every
  reason met in the window once, with the number of times it occurs among the errors read, larger
  numbers first and equal ones in alphabetical order.
\<close>

lemma top_errors_ranked:
  "\<exists>ranking. top_errors a b t = map error_line (take 5 ranking)
     \<and> set (map fst ranking) = set (map error_key (window_errors a b t)) \<and> distinct (map fst ranking)
     \<and> list_all (\<lambda>(k, n). n = int (count_list (map error_key (window_errors a b t)) k)) ranking
     \<and> sorted_wrt (\<lambda>x y. snd y < snd x \<or> snd x = snd y \<and> fst x < fst y) ranking"
proof -
  define keys where "keys = map error_key (window_errors a b t)"
  define counts where "counts = count_keys keys []"
  have d: "distinct (map fst counts)" unfolding counts_def by (rule count_keys_distinct) simp
  have dom: "fst ` set counts = set keys"
    using count_keys_map_of [of keys "[]"] unfolding counts_def [symmetric]
    by (auto simp: dom_map_of_conv_image_fst [symmetric] dom_def split: if_splits)
  have cnt: "n = int (count_list keys k)" if "(k, n) \<in> set counts" for k n
    using count_keys_map_of [of keys "[]" k] map_of_eq_Some_iff [OF d, of k n] that
    unfolding counts_def [symmetric] by (auto split: if_splits)
  have "set (rank_counts counts) = set counts" by (simp add: rank_counts_def)
  moreover from this have "distinct (map fst (rank_counts counts))"
    using d by (simp add: distinct_map rank_counts_def)
  ultimately show ?thesis
    using dom cnt rank_counts_sorted [OF d]
    by (intro exI [of _ "rank_counts counts"])
      (auto simp: top_errors_def keys_def [symmetric] counts_def [symmetric] list_all_iff)
qed

subsection \<open>The longest delivery\<close>

definition delay_of :: "message_row \<Rightarrow> secs" where
  "delay_of r = seconds_between (created_at r) (updated_at r)"

lemma longer_delay_fold:
  "case foldl longer_delay best rows of
     None \<Rightarrow> best = None \<and> list_all (\<lambda>r. delay_of r < 0) rows
   | Some (d, i, w) \<Rightarrow> list_all (\<lambda>r. delay_of r \<le> d \<or> delay_of r < 0) rows
       \<and> (case best of None \<Rightarrow> True | Some (d', _, _) \<Rightarrow> d' \<le> d)
       \<and> (best = Some (d, i, w) \<or> (\<exists>r\<in>set rows. delay_of r = d \<and> 0 \<le> d \<and> row_id r = i \<and> delay_why r = w))"
proof (induction rows arbitrary: best)
  case Nil
  then show ?case by (cases best) auto
next
  case (Cons r rows)
  from Cons.IH [of "longer_delay best r"] show ?case
    by (auto simp: longer_delay_def Let_def delay_of_def split: option.splits if_splits prod.splits)
qed

text \<open>
  \<open>mark_sent\<close> clears the last error, so the reason given for the longest delivery is the same for
  every mail that was retried: the error that delayed it is lost.
\<close>

definition sent_clean :: "table \<Rightarrow> bool" where
  "sent_clean t \<longleftrightarrow> list_all (\<lambda>r. row_status r \<noteq> SENT \<or> last_error r = None) t"

lemma mark_sent_clean: "sent_clean t \<Longrightarrow> sent_clean (mark_sent i now t)"
  by (auto simp: sent_clean_def mark_sent_def update_row_def list_all_iff)

lemma why_is_lost:
  assumes "sent_clean t" "max_sent_delay a b t = Some (d, i, w)"
  shows "w = lit ''delivered after queue wait''"
proof -
  from longer_delay_fold [of None "take 5000 (filter (in_window SENT a b) t)"] assms(2)
  obtain r where "r \<in> set (take 5000 (filter (in_window SENT a b) t))" and w: "delay_why r = w"
    by (auto simp: max_sent_delay_def)
  from in_set_takeD [OF this(1)] assms(1) have "last_error r = None"
    by (auto simp: sent_clean_def in_window_def list_all_iff)
  moreover have "take 200 (strip (lit ''delivered after queue wait'')) = lit ''delivered after queue wait''"
    by code_simp
  ultimately show ?thesis using w by (simp add: delay_why_def)
qed

end
