(* ===== verification/Text_Pdf.thy ===== *)
theory Text_Pdf
  imports Py_Codecs
begin

section \<open>The PDF of a digest (ops/digest\_pdf.py)\<close>

text \<open>
  \<open>text_pdf\<close> writes a document of one page by hand: five objects, the table of their byte
  offsets and the trailer that says where the table starts. The document is a list of bytes,
  as the \<open>bytearray\<close> of the code. What is shown is that a reader finds every object at the
  offset the table gives and the table where the trailer says.
\<close>

definition replace_char :: "int \<Rightarrow> pystr \<Rightarrow> pystr \<Rightarrow> pystr" where
  "replace_char c w s = concat (map (\<lambda>x. if x = c then w else [x]) s)"

definition pdf_esc :: "pystr \<Rightarrow> pystr" where
  "pdf_esc s = take 200
     (replace_char 10 [32] (replace_char 13 [32] (replace_char 41 [92, 41]
       (replace_char 40 [92, 40] (replace_char 92 [92, 92] s)))))"

definition latin1_replace :: "pystr \<Rightarrow> bytes" where
  "latin1_replace s = to_bytes (map (\<lambda>c. if c < 256 then c else 63) s)"

definition text_op :: "string \<Rightarrow> int \<Rightarrow> pystr \<Rightarrow> pystr" where
  "text_op sz y s = lit ''BT /F1 '' @ lit sz @ lit '' Tf 50 '' @ str_int y @ lit '' Td (''
     @ pdf_esc s @ lit '') Tj ET''"

text \<open>The loop over the lines; it ends below the margin.\<close>

fun page_lines :: "int \<Rightarrow> pystr list \<Rightarrow> pystr list" where
  "page_lines y [] = []"
| "page_lines y (l # ls) = (if y < 50 then [] else text_op ''10'' y l # page_lines (y - 14) ls)"

definition page_stream :: "pystr \<Rightarrow> pystr list \<Rightarrow> int \<Rightarrow> bytes" where
  "page_stream title ls page_height = latin1_replace (join_with [10]
     (text_op ''14'' (page_height - 50) title # page_lines (page_height - 80) ls))"

definition ascii :: "pystr \<Rightarrow> bytes" where
  "ascii s = to_bytes s"

definition stream_object :: "bytes \<Rightarrow> bytes" where
  "stream_object stream =
     ascii (lit ''4 0 obj<< /Length '') @ ascii (str_int (int (length stream)))
       @ ascii (lit '' >>stream'' @ [10]) @ stream @ ascii (10 # lit ''endstream'' @ 10 # lit ''endobj'' @ [10])"

definition pdf_objects :: "int \<Rightarrow> int \<Rightarrow> bytes \<Rightarrow> bytes list" where
  "pdf_objects page_width page_height stream =
     [ascii (lit ''1 0 obj<< /Type /Catalog /Pages 2 0 R >>endobj'' @ [10]),
      ascii (lit ''2 0 obj<< /Type /Pages /Kids [3 0 R] /Count 1 >>endobj'' @ [10]),
      ascii (lit ''3 0 obj<< /Type /Page /Parent 2 0 R /MediaBox [0 0 '' @ str_int page_width @ lit '' ''
        @ str_int page_height @ lit ''] /Contents 4 0 R /Resources << /Font << /F1 5 0 R >> >> >>endobj'' @ [10]),
      stream_object stream,
      ascii (lit ''5 0 obj<< /Type /Font /Subtype /Type1 /BaseFont /Helvetica >>endobj'' @ [10])]"

text \<open>The loop that appends the objects and notes where each one starts.\<close>

fun append_objects :: "bytes list \<Rightarrow> nat list \<Rightarrow> bytes \<Rightarrow> nat list \<times> bytes" where
  "append_objects [] offsets out = (offsets, out)"
| "append_objects (ob # obs) offsets out = append_objects obs (offsets @ [length out]) (out @ ob)"

definition pad10 :: "nat \<Rightarrow> pystr" where
  "pad10 n = (let d = str_int (int n) in replicate (10 - length d) 48 @ d)"

definition xref_table :: "nat \<Rightarrow> nat list \<Rightarrow> pystr" where
  "xref_table n offsets = lit ''xref'' @ 10 # lit ''0 '' @ str_int (int n) @ [10]
     @ lit ''0000000000 65535 f '' @ [10] @ concat (map (\<lambda>off. pad10 off @ lit '' 00000 n '' @ [10]) offsets)"

definition pdf_trailer :: "nat \<Rightarrow> nat \<Rightarrow> pystr" where
  "pdf_trailer n xref_pos = lit ''trailer<< /Size '' @ str_int (int n) @ lit '' /Root 1 0 R >>'' @ 10 #
     lit ''startxref'' @ 10 # str_int (int xref_pos) @ 10 # lit ''%%EOF'' @ [10]"

definition pdf_header :: bytes where
  "pdf_header = ascii (lit ''%PDF-1.4'' @ [10])"

definition text_pdf :: "pystr \<Rightarrow> pystr list \<Rightarrow> int \<Rightarrow> int \<Rightarrow> bytes" where
  "text_pdf title ls page_width page_height =
     (let objects = pdf_objects page_width page_height (page_stream title ls page_height)
      in case append_objects objects [0] pdf_header of
           (offsets, out) \<Rightarrow>
             out @ ascii (xref_table (length objects + 1) (tl offsets))
               @ ascii (pdf_trailer (length objects + 1) (length out)))"

subsection \<open>Offsets\<close>

lemma append_objects_out: "snd (append_objects obs offs out) = out @ concat obs"
  by (induction obs offs out rule: append_objects.induct) simp_all

lemma append_objects_offsets:
  "fst (append_objects obs offs out) =
     offs @ map (\<lambda>k. length out + length (concat (take k obs))) [0..<length obs]"
proof (induction obs offs out rule: append_objects.induct)
  case (2 ob obs offs out)
  have "[0..<length (ob # obs)] = 0 # map Suc [0..<length obs]"
    by (simp only: length_Cons map_Suc_upt upt_conv_Cons [of 0 "Suc (length obs)"] zero_less_Suc)
  with 2 show ?case by (simp add: add.assoc del: upt_Suc)
qed simp

lemma drop_concat_take: "k < length obs \<Longrightarrow> \<exists>rest. drop (length (concat (take k obs))) (concat obs) = obs ! k @ rest"
proof -
  assume k: "k < length obs"
  have "concat obs = concat (take k obs) @ concat (drop k obs)"
    by (metis append_take_drop_id concat_append)
  moreover have "concat (drop k obs) = obs ! k @ concat (drop (Suc k) obs)"
    using Cons_nth_drop_Suc [OF k] by (metis concat.simps(2))
  ultimately show ?thesis by (metis append_eq_conv_conj)
qed

definition object_head :: "nat \<Rightarrow> bytes" where
  "object_head k = ascii (str_int (int k) @ lit '' 0 obj<<'')"

definition has_at :: "bytes \<Rightarrow> nat \<Rightarrow> bytes \<Rightarrow> bool" where
  "has_at doc off w \<longleftrightarrow> take (length w) (drop off doc) = w"

lemma has_at_append: "has_at doc off w \<Longrightarrow> has_at (doc @ rest) off w"
proof -
  assume h: "has_at doc off w"
  then have "length w \<le> length (drop off doc)"
    unfolding has_at_def by (metis length_take min.cobounded1)
  with h show ?thesis
    by (cases "off \<le> length doc") (auto simp: has_at_def)
qed

lemma ascii_append: "ascii (a @ b) = ascii a @ ascii b"
  by (simp add: ascii_def to_bytes_def)

lemma object_heads:
  "list_all (\<lambda>k. \<exists>rest. pdf_objects w h st ! k = object_head (Suc k) @ rest) [0..<5]"
  by (simp add: upt_rec pdf_objects_def stream_object_def object_head_def str_int_def digits.simps
      lit_def ascii_def to_bytes_def)

text \<open>
  C38. The PDF can be read: it starts with the header, the number after \<open>startxref\<close> is the
  position of the table, the table has an entry for each of the five objects, and at the offset
  of entry \<open>k\<close> stands the head of object \<open>k\<close>, for every title, lines and size of page. The length
  given for the stream is the number of bytes between \<open>stream\<close> and \<open>endstream\<close>.
\<close>

theorem pdf_xref_locates_objects:
  "\<exists>body offsets. text_pdf title ls w h = body @ ascii (xref_table 6 offsets) @ ascii (pdf_trailer 6 (length body))
     \<and> length offsets = 5 \<and> has_at body 0 pdf_header
     \<and> list_all (\<lambda>k. has_at body (offsets ! k) (object_head (Suc k))) [0..<5]
     \<and> has_at body (offsets ! 3) (stream_object (page_stream title ls h))"
proof -
  define obs where "obs = pdf_objects w h (page_stream title ls h)"
  define body where "body = pdf_header @ concat obs"
  define offsets where "offsets = map (\<lambda>k. length pdf_header + length (concat (take k obs))) [0..<5]"
  have len: "length obs = 5" by (simp add: obs_def pdf_objects_def)
  have "append_objects obs [0] pdf_header = (0 # offsets, body)"
    using append_objects_offsets [of obs "[0]" pdf_header] append_objects_out [of obs "[0]" pdf_header]
    by (simp add: prod_eq_iff offsets_def body_def len)
  then have "text_pdf title ls w h = body @ ascii (xref_table 6 offsets) @ ascii (pdf_trailer 6 (length body))"
    unfolding text_pdf_def obs_def [symmetric] Let_def by (simp add: len)
  moreover have at: "\<exists>rest. drop (offsets ! k) body = obs ! k @ rest" if "k < 5" for k
    using drop_concat_take [of k obs] that by (simp add: len offsets_def body_def)
  have "list_all (\<lambda>k. has_at body (offsets ! k) (object_head (Suc k))) [0..<5]"
    using object_heads [of w h "page_stream title ls h"] at
    by (fastforce simp: list_all_iff has_at_def obs_def)
  moreover have "has_at body (offsets ! 3) (stream_object (page_stream title ls h))"
    using at [of 3] by (auto simp: has_at_def obs_def pdf_objects_def)
  moreover have "has_at body 0 pdf_header" by (simp add: has_at_def body_def)
  moreover have "length offsets = 5" by (simp add: offsets_def)
  ultimately show ?thesis by blast
qed

text \<open>
  Cutting the escaped text after 200 characters may cut an escape in two: the last character is
  then a backslash, which escapes the closing parenthesis of the string.
\<close>

lemma esc_cuts_escape:
  "pdf_esc (replicate 199 97 @ [40]) = replicate 199 97 @ [92]"
  by code_simp

lemma page_holds_48_lines: "length (page_lines (792 - 80) ls) = min (length ls) 48"
proof -
  have "length (page_lines y ls) = min (length ls) (nat ((y - 50) div 14 + 1))" if "36 \<le> y" for y
    using that
  proof (induction y ls rule: page_lines.induct)
    case (2 y l ls)
    show ?case
    proof (cases "y < 50")
      case True
      with 2 have "(y - 50) div 14 = -1" by linarith
      with True show ?thesis by simp
    next
      case False
      then have "(y - 14 - 50) div 14 = (y - 50) div 14 - 1" "0 \<le> (y - 50) div 14" by linarith+
      with 2 False show ?thesis by (simp add: nat_add_distrib)
    qed
  qed simp
  from this [of "792 - 80"] show ?thesis by simp
qed

end
