(* ===== verification/Digest_Scheduler.thy ===== *)
theory Digest_Scheduler
  imports Digest_Report Text_Pdf Ops_Watch
begin

section \<open>Sending digests on time (ops/digest\_scheduler.py, ops/digest\_mail.py)\<close>

text \<open>
  \<open>scheduler_tick\<close> is \<open>tick\<close>: it loads the settings and the markers of the last digests, sends what
  is due and stores the new marker. \<open>digest_step\<close> are the ticks of the thread, with a clock that
  does not run backwards, and whatever else the program does, which leaves the markers alone.
\<close>

record digest_send_result =
  ds_ok :: bool
  ds_error :: pystr

definition digest_failed :: "pystr \<Rightarrow> digest_send_result" where
  "digest_failed msg = \<lparr>ds_ok = False, ds_error = msg\<rparr>"

definition no_backend_error :: pystr where
  "no_backend_error = lit ''Mail backend not configured (Settings '' @ arrow @ lit '' Exchange).''"

definition no_credentials_error :: pystr where
  "no_credentials_error = lit ''EWS username/password missing '' @ em_dash
     @ lit '' open Settings '' @ arrow @ lit '' Exchange and save credentials.''"

definition digest_mail :: "digest_report \<Rightarrow> pystr \<Rightarrow> pystr \<Rightarrow> pystr \<Rightarrow> bool \<Rightarrow> report_mail" where
  "digest_mail report subject sender to_email include_body =
     (let ls = body_lines report
      in \<lparr>rm_from = sender, rm_to = to_email, rm_subject = subject,
          rm_body = (if include_body
            then join_with [10] ls @ [10, 10] @ lit ''(See PDF attachment for the same report.)'' @ [10]
            else lit ''msgate digest attached as PDF.'' @ [10]),
          rm_attachment = Some (text_pdf (lit ''msgate '' @ dr_period report @ lit '' digest'') ls 612 792,
            lit ''msgate-'' @ dr_period report @ lit ''-digest.pdf'')\<rparr>)"

text \<open>The template is an unchecked setting; \<open>.replace\<close> of what is no string raises.\<close>

definition send_digest ::
    "(gateway_config \<Rightarrow> 'w driver) \<Rightarrow> report_lib \<Rightarrow> digest_report \<Rightarrow> pystr \<Rightarrow> json \<Rightarrow> bool \<Rightarrow> 'w app
      \<Rightarrow> digest_send_result res \<times> 'w app" where
  "send_digest D L report to_email template include_body a =
     (let cfg = runtime_get (app_runtime a)
      in if \<not> drv_configured (D cfg) cfg then (Inr (digest_failed no_backend_error), a)
         else case service_account cfg of
             None \<Rightarrow> (Inr (digest_failed no_credentials_error), a)
           | Some (user, password, sender) \<Rightarrow>
               (case template of
                  JStr tmpl \<Rightarrow>
                    (case compose L (digest_mail report (report_subject tmpl report) sender to_email include_body) of
                       Inl e \<Rightarrow> (Inl e, a)
                     | Inr mime \<Rightarrow>
                         (case drv_send (D cfg) (report_request cfg (user, password, sender) to_email mime) cfg
                                 (mw_out (app_mail a)) of
                            (Inl e, out) \<Rightarrow>
                              (Inr (digest_failed (lit ''EWS send failed: '' @ exn_text e)),
                               on_mail (\<lambda>w. w\<lparr>mw_out := out\<rparr>) a)
                          | (Inr _, out) \<Rightarrow>
                              (Inr \<lparr>ds_ok = True, ds_error = []\<rparr>, on_mail (\<lambda>w. w\<lparr>mw_out := out\<rparr>) a)))
                | _ \<Rightarrow> (Inl no_attribute, a)))"

subsection \<open>What is due\<close>

definition clamp :: "int \<Rightarrow> int \<Rightarrow> int \<Rightarrow> int" where
  "clamp lo hi x = max lo (min hi x)"

definition daily_due :: "ops_alerts \<Rightarrow> digest_state \<Rightarrow> time \<Rightarrow> bool res" where
  "daily_due ops st now =
     bindE (to_int (digest_hour_utc ops)) (\<lambda>h.
       Inr (clamp 0 23 h \<le> hour_of now \<and> last_daily st \<noteq> date_text now))"

definition weekly_due :: "ops_alerts \<Rightarrow> digest_state \<Rightarrow> time \<Rightarrow> bool res" where
  "weekly_due ops st now =
     bindE (to_int (digest_weekday ops)) (\<lambda>d.
       if weekday now \<noteq> clamp 0 6 d then Inr False
       else bindE (to_int (digest_hour_utc ops)) (\<lambda>h.
         Inr (clamp 0 23 h \<le> hour_of now \<and> last_weekly st \<noteq> iso_week now)))"

definition build_report :: "pystr \<Rightarrow> time \<Rightarrow> 'w app \<Rightarrow> digest_report" where
  "build_report period now a =
     (case window_for period now of (start, stop) \<Rightarrow> collect_digest period start stop (app_table a))"

definition dispatch ::
    "(gateway_config \<Rightarrow> 'w driver) \<Rightarrow> report_lib \<Rightarrow> ops_alerts \<Rightarrow> digest_report \<Rightarrow> 'w app
      \<Rightarrow> digest_send_result res \<times> 'w app" where
  "dispatch D L ops report a =
     (case attr_strip (admin_email ops) of
        Inl e \<Rightarrow> (Inl e, a)
      | Inr addr \<Rightarrow> send_digest D L report addr
          (if truthy_json (digest_subject ops) then digest_subject ops else JStr subject_default)
          (truthy_json (digest_include_body ops)) a)"

text \<open>
  One digest: due or not, sent or not, and the marker. The result is whether it was sent, the
  exception that ended the tick, if any, and the state of the markers the code goes on with.
\<close>

definition digest_part ::
    "(gateway_config \<Rightarrow> 'w driver) \<Rightarrow> report_lib \<Rightarrow> ops_alerts \<Rightarrow> pystr \<Rightarrow> time \<Rightarrow> json \<Rightarrow> bool res
      \<Rightarrow> (digest_state \<Rightarrow> digest_state) \<Rightarrow> digest_state \<times> 'w app
      \<Rightarrow> bool \<times> exn option \<times> digest_state \<times> 'w app" where
  "digest_part D L ops period now enabled due mark sa =
     (case sa of (st, a) \<Rightarrow>
        if \<not> truthy_json enabled then (False, None, st, a)
        else case due of
            Inl e \<Rightarrow> (False, Some e, st, a)
          | Inr False \<Rightarrow> (False, None, st, a)
          | Inr True \<Rightarrow>
              (case dispatch D L ops (build_report period now a) a of
                 (Inl e, a') \<Rightarrow> (False, Some e, st, a')
               | (Inr r, a') \<Rightarrow>
                   if \<not> ds_ok r then (False, None, st, a')
                   else (case load_digest_state (app_settings a') of
                       Inl e \<Rightarrow> (True, Some e, st, a')
                     | Inr st' \<Rightarrow> (True, None, mark st',
                         a'\<lparr>app_settings := save_digest_state (mark st') (app_settings a')\<rparr>))))"

text \<open>The periods sent, with the exception that ended the tick, if any.\<close>

definition scheduler_tick ::
    "(gateway_config \<Rightarrow> 'w driver) \<Rightarrow> report_lib \<Rightarrow> time \<Rightarrow> 'w app \<Rightarrow> pystr list \<times> exn option \<times> 'w app" where
  "scheduler_tick D L now a =
     (case load_ops_alerts (app_settings a) of
        Inl e \<Rightarrow> ([], Some e, a)
      | Inr ops \<Rightarrow> (case load_digest_state (app_settings a) of
        Inl e \<Rightarrow> ([], Some e, a)
      | Inr st \<Rightarrow> (case attr_strip (admin_email ops) of
        Inl e \<Rightarrow> ([], Some e, a)
      | Inr addr \<Rightarrow>
          if addr = [] then ([], None, a)
          else (case digest_part D L ops (lit ''daily'') now (digest_daily_enabled ops) (daily_due ops st now)
                  (\<lambda>s. s\<lparr>last_daily := date_text now\<rparr>) (st, a) of
             (d, Some e, st1, a1) \<Rightarrow> (if d then [lit ''daily''] else [], Some e, a1)
           | (d, None, st1, a1) \<Rightarrow>
               (case digest_part D L ops (lit ''weekly'') now (digest_weekly_enabled ops)
                       (weekly_due ops st1 now) (\<lambda>s. s\<lparr>last_weekly := iso_week now\<rparr>) (st1, a1) of
                  (w, err, st2, a2) \<Rightarrow>
                    ((if d then [lit ''daily''] else []) @ (if w then [lit ''weekly''] else []), err, a2))))))"

definition send_manual ::
    "(gateway_config \<Rightarrow> 'w driver) \<Rightarrow> report_lib \<Rightarrow> pystr \<Rightarrow> time \<Rightarrow> 'w app \<Rightarrow> digest_send_result res \<times> 'w app" where
  "send_manual D L period now a =
     (case load_ops_alerts (app_settings a) of
        Inl e \<Rightarrow> (Inl e, a)
      | Inr ops \<Rightarrow>
          (case attr_strip (admin_email ops) of
             Inl e \<Rightarrow> (Inl e, a)
           | Inr addr \<Rightarrow>
               if addr = [] then (Inr (digest_failed (lit ''Admin alert email is empty '' @ em_dash
                 @ lit '' save it under Capacity alerts first.'')), a)
               else dispatch D L ops (build_report period now a) a))"

subsection \<open>Runs\<close>

record 'w digest_run =
  dg_app :: "'w app"
  dg_clock :: time
  dg_daily :: "time list"
  dg_weekly :: "time list"

inductive digest_step :: "(gateway_config \<Rightarrow> 'w driver) \<Rightarrow> report_lib \<Rightarrow> 'w digest_run \<Rightarrow> 'w digest_run \<Rightarrow> bool"
  for D L where
  Tick: "dg_clock s \<le> now \<Longrightarrow> scheduler_tick D L now (dg_app s) = (sent, err, a) \<Longrightarrow>
    digest_step D L s \<lparr>dg_app = a, dg_clock = now,
      dg_daily = dg_daily s @ (if lit ''daily'' \<in> set sent then [now] else []),
      dg_weekly = dg_weekly s @ (if lit ''weekly'' \<in> set sent then [now] else [])\<rparr>"
| Elsewhere: "get_setting (app_settings a) digest_key = get_setting (app_settings (dg_app s)) digest_key \<Longrightarrow>
    digest_step D L s (s\<lparr>dg_app := a\<rparr>)"

text \<open>The markers are texts without lone surrogates, as the scheduler writes them.\<close>

definition markers_clean :: "settings \<Rightarrow> bool" where
  "markers_clean db \<longleftrightarrow> (case load_digest_state db of Inl _ \<Rightarrow> True
     | Inr st \<Rightarrow> list_all is_scalar (last_daily st) \<and> list_all is_scalar (last_weekly st))"

inductive digest_reachable :: "(gateway_config \<Rightarrow> 'w driver) \<Rightarrow> report_lib \<Rightarrow> 'w digest_run \<Rightarrow> bool" for D L where
  Begin: "markers_clean (app_settings a) \<Longrightarrow>
    digest_reachable D L \<lparr>dg_app = a, dg_clock = t, dg_daily = [], dg_weekly = []\<rparr>"
| Step: "digest_reachable D L s \<Longrightarrow> digest_step D L s s' \<Longrightarrow> digest_reachable D L s'"

subsection \<open>What a tick does to the markers\<close>

lemma send_digest_settings: "send_digest D L report to t b a = (r, a') \<Longrightarrow> app_settings a' = app_settings a"
  by (auto simp: send_digest_def Let_def split: if_splits option.splits prod.splits json.splits sum.splits)

lemma dispatch_settings: "dispatch D L ops report a = (r, a') \<Longrightarrow> app_settings a' = app_settings a"
  by (auto simp: dispatch_def split: sum.splits dest: send_digest_settings)

text \<open>A part that sent its digest was due, and the marker that is read next is the new one.\<close>

lemma digest_part_outcome:
  assumes "digest_part D L ops period now enabled due mark (st, a) = (sent, err, st', a')"
    and "load_digest_state (app_settings a) = Inr st"
    and "list_all is_scalar (last_daily (mark st))" "list_all is_scalar (last_weekly (mark st))"
  shows "if sent then due = Inr True \<and> err = None \<and> st' = mark st \<and> load_digest_state (app_settings a') = Inr st'
    else st' = st \<and> app_settings a' = app_settings a"
proof (cases "truthy_json enabled \<and> due = Inr True")
  case False
  with assms show ?thesis by (auto simp: digest_part_def split: if_splits sum.splits bool.splits)
next
  case True
  obtain r a1 where d: "dispatch D L ops (build_report period now a) a = (r, a1)" by fastforce
  note s = dispatch_settings [OF d]
  show ?thesis
  proof (cases r)
    case (Inl e)
    with assms True d s show ?thesis by (auto simp: digest_part_def)
  next
    case (Inr x)
    with assms True d s load_saved_digest_state [of "mark st"] show ?thesis
      by (auto simp: digest_part_def split: if_splits)
  qed
qed

lemma text_scalar: "list_all is_scalar (date_text t)" "list_all is_scalar (iso_week t)"
proof -
  have pad: "list_all is_scalar (pad_to n i)" for n i
    using str_int_scalar by (auto simp: pad_to_def Let_def list_all_iff is_scalar_def [of 48])
  then show "list_all is_scalar (date_text t)" "list_all is_scalar (iso_week t)"
    by (auto simp: date_text_def iso_week_def Let_def str_int_scalar lit_def is_scalar_def [of 45]
        is_scalar_def [of 87] split: prod.split)
qed

lemma daily_due_InrD: "daily_due ops st now = Inr True \<Longrightarrow> last_daily st \<noteq> date_text now"
  by (auto simp: daily_due_def bindE_Inr_iff)

lemma weekly_due_InrD:
  "weekly_due ops st now = Inr True \<Longrightarrow> last_weekly st \<noteq> iso_week now \<and> weekday now \<in> {0..6}"
  by (auto simp: weekly_due_def bindE_Inr_iff weekday_def split: if_splits)

lemma scheduler_tick_outcome:
  assumes "scheduler_tick D L now a = (sent, err, a')" "markers_clean (app_settings a)"
  shows "(sent = [] \<and> app_settings a' = app_settings a)
    \<or> (\<exists>st st'. load_digest_state (app_settings a) = Inr st \<and> load_digest_state (app_settings a') = Inr st'
        \<and> list_all is_scalar (last_daily st') \<and> list_all is_scalar (last_weekly st')
        \<and> (if lit ''daily'' \<in> set sent then last_daily st \<noteq> date_text now \<and> last_daily st' = date_text now
           else last_daily st' = last_daily st)
        \<and> (if lit ''weekly'' \<in> set sent then last_weekly st \<noteq> iso_week now \<and> last_weekly st' = iso_week now
           else last_weekly st' = last_weekly st))"
proof (cases "\<exists>ops st addr. load_ops_alerts (app_settings a) = Inr ops \<and> load_digest_state (app_settings a) = Inr st
    \<and> attr_strip (admin_email ops) = Inr addr \<and> addr \<noteq> []")
  case False
  with assms(1) show ?thesis by (auto simp: scheduler_tick_def split: sum.splits if_splits)
next
  case True
  then obtain ops st addr where l: "load_ops_alerts (app_settings a) = Inr ops"
    "load_digest_state (app_settings a) = Inr st" "attr_strip (admin_email ops) = Inr addr" "addr \<noteq> []" by blast
  with assms(2) have clean: "list_all is_scalar (last_daily st)" "list_all is_scalar (last_weekly st)"
    by (auto simp: markers_clean_def)
  obtain d e1 st1 a1 where p1: "digest_part D L ops (lit ''daily'') now (digest_daily_enabled ops)
      (daily_due ops st now) (\<lambda>s. s\<lparr>last_daily := date_text now\<rparr>) (st, a) = (d, e1, st1, a1)"
    by (metis prod.exhaust)
  have o1: "if d then daily_due ops st now = Inr True \<and> e1 = None \<and> st1 = st\<lparr>last_daily := date_text now\<rparr>
        \<and> load_digest_state (app_settings a1) = Inr st1
      else st1 = st \<and> app_settings a1 = app_settings a"
    using digest_part_outcome [OF p1 l(2)] clean text_scalar by simp
  then have l1: "load_digest_state (app_settings a1) = Inr st1" using l(2) by (auto split: if_splits)
  have clean1: "list_all is_scalar (last_daily st1)" "list_all is_scalar (last_weekly st1)"
    using o1 clean text_scalar by (auto split: if_splits)
  obtain w e2 st2 a2 where p2: "digest_part D L ops (lit ''weekly'') now (digest_weekly_enabled ops)
      (weekly_due ops st1 now) (\<lambda>s. s\<lparr>last_weekly := iso_week now\<rparr>) (st1, a1) = (w, e2, st2, a2)"
    by (metis prod.exhaust)
  have o2: "if w then weekly_due ops st1 now = Inr True \<and> e2 = None \<and> st2 = st1\<lparr>last_weekly := iso_week now\<rparr>
        \<and> load_digest_state (app_settings a2) = Inr st2
      else st2 = st1 \<and> app_settings a2 = app_settings a1"
    using digest_part_outcome [OF p2 l1] clean1 text_scalar by simp
  then have l2: "load_digest_state (app_settings a2) = Inr st2" using l1 by (auto split: if_splits)
  have clean2: "list_all is_scalar (last_daily st2)" "list_all is_scalar (last_weekly st2)"
    using o2 clean1 text_scalar by (auto split: if_splits)
  show ?thesis
  proof (cases e1)
    case (Some e)
    with assms(1) l p1 o1 show ?thesis by (auto simp: scheduler_tick_def split: if_splits)
  next
    case None
    with assms(1) l p1 p2 have r: "sent = (if d then [lit ''daily''] else []) @ (if w then [lit ''weekly''] else [])"
      "a' = a2" by (auto simp: scheduler_tick_def)
    have "(lit ''daily'' \<in> set sent) = d" "(lit ''weekly'' \<in> set sent) = w" by (auto simp: r)
    with o1 o2 l2 clean2 l(2) show ?thesis
      by (intro disjI2 exI [of _ st] exI [of _ st2])
        (auto simp: r(2) dest!: daily_due_InrD weekly_due_InrD split: if_splits)
  qed
qed

subsection \<open>Once a day, once a week\<close>

definition marks :: "(time \<Rightarrow> int) \<Rightarrow> (time \<Rightarrow> pystr) \<Rightarrow> (digest_state \<Rightarrow> pystr) \<Rightarrow> time list \<Rightarrow> 'w digest_run \<Rightarrow> bool" where
  "marks number render marker ts s \<longleftrightarrow> sorted_wrt (\<lambda>t u. number t < number u) ts
     \<and> list_all (\<lambda>t. t \<le> dg_clock s) ts
     \<and> (ts = [] \<or> (case load_digest_state (app_settings (dg_app s)) of
          Inl _ \<Rightarrow> False | Inr st \<Rightarrow> marker st = render (last ts)))"

definition digest_ok :: "'w digest_run \<Rightarrow> bool" where
  "digest_ok s \<longleftrightarrow> markers_clean (app_settings (dg_app s))
     \<and> marks day_number date_text last_daily (dg_daily s) s
     \<and> marks week_number iso_week last_weekly (dg_weekly s) s"

text \<open>The argument both digests share: a new entry is of a later day, or week.\<close>

lemma sorted_number_snoc:
  assumes "sorted_wrt (\<lambda>t u. (number t :: int) < number u) ts" "list_all (\<lambda>t. t \<le> clock) (ts :: time list)" "clock \<le> now"
    and "ts = [] \<or> render (last ts) \<noteq> render now"
    and "\<And>t u. t \<le> u \<Longrightarrow> number t \<le> number u" "\<And>t u. number t = number u \<Longrightarrow> render t = render u"
  shows "sorted_wrt (\<lambda>t u. number t < number u) (ts @ [now])"
proof -
  have "number t < number now" if "t \<in> set ts" for t
  proof -
    from that have ne: "ts \<noteq> []" by auto
    then have "ts = butlast ts @ [last ts]" by simp
    with assms(1) that have "number t \<le> number (last ts)"
      by (metis (no_types, lifting) Un_iff empty_iff insert_iff list.set(1) list.set(2)
          order_less_imp_le order_refl set_append sorted_wrt_append)
    moreover have "last ts \<le> now"
      using assms(2,3) last_in_set [OF ne] by (fastforce simp: list_all_iff)
    then have "number (last ts) \<le> number now" by (rule assms(5))
    moreover have "number (last ts) \<noteq> number now" using assms(4,6) ne by blast
    ultimately show ?thesis by simp
  qed
  with assms(1) show ?thesis by (simp add: sorted_wrt_append)
qed

lemma marks_step:
  assumes "marks number render marker ts s" "dg_clock s \<le> now"
    and "\<And>t u. t \<le> u \<Longrightarrow> number t \<le> number u" "\<And>t u. number t = number u \<Longrightarrow> render t = render u"
    and "load_digest_state (app_settings (dg_app s)) = Inr st"
    and "load_digest_state (app_settings (dg_app s')) = Inr st'" "dg_clock s' = now"
    and "if b then marker st \<noteq> render now \<and> marker st' = render now else marker st' = marker st"
  shows "marks number render marker (ts @ (if b then [now] else [])) s'"
proof -
  have old: "sorted_wrt (\<lambda>t u. number t < number u) ts" "list_all (\<lambda>t. t \<le> dg_clock s) ts"
    "ts = [] \<or> marker st = render (last ts)"
    using assms(1,5) by (auto simp: marks_def)
  then have new: "list_all (\<lambda>t. t \<le> now) ts" using assms(2) by (auto simp: list_all_iff)
  show ?thesis
  proof (cases b)
    case True
    with assms(8) old(3) have "ts = [] \<or> render (last ts) \<noteq> render now" by auto
    from sorted_number_snoc [OF old(1,2) assms(2) this assms(3,4)] True assms(6,7,8) new show ?thesis
      by (simp add: marks_def)
  next
    case False
    with assms(6,7,8) old new show ?thesis by (simp add: marks_def)
  qed
qed

lemma marks_same_settings:
  assumes "marks number render marker ts s" "dg_clock s \<le> dg_clock s'"
    and "load_digest_state (app_settings (dg_app s')) = load_digest_state (app_settings (dg_app s))"
  shows "marks number render marker ts s'"
  using assms by (auto simp: marks_def list_all_iff)

lemma digest_step_ok [keep_inv]:
  assumes "digest_ok s" "digest_step D L s s'"
  shows "digest_ok s'"
  using assms(2,1)
proof (cases rule: digest_step.cases)
  case (Tick now sent err a)
  have clean: "markers_clean (app_settings (dg_app s))" using assms(1) by (simp add: digest_ok_def)
  from scheduler_tick_outcome [OF Tick(3) clean] show ?thesis
  proof
    assume same: "sent = [] \<and> app_settings a = app_settings (dg_app s)"
    with assms(1) Tick(1,2) show ?thesis
      by (auto simp: digest_ok_def intro: marks_same_settings)
  next
    assume "\<exists>st st'. load_digest_state (app_settings (dg_app s)) = Inr st \<and> load_digest_state (app_settings a) = Inr st'
        \<and> list_all is_scalar (last_daily st') \<and> list_all is_scalar (last_weekly st')
        \<and> (if lit ''daily'' \<in> set sent then last_daily st \<noteq> date_text now \<and> last_daily st' = date_text now
           else last_daily st' = last_daily st)
        \<and> (if lit ''weekly'' \<in> set sent then last_weekly st \<noteq> iso_week now \<and> last_weekly st' = iso_week now
           else last_weekly st' = last_weekly st)"
    then obtain st st' where l: "load_digest_state (app_settings (dg_app s)) = Inr st"
      "load_digest_state (app_settings (dg_app s')) = Inr st'"
      "list_all is_scalar (last_daily st')" "list_all is_scalar (last_weekly st')"
      and d: "if lit ''daily'' \<in> set sent then last_daily st \<noteq> date_text now \<and> last_daily st' = date_text now
           else last_daily st' = last_daily st"
      and w: "if lit ''weekly'' \<in> set sent then last_weekly st \<noteq> iso_week now \<and> last_weekly st' = iso_week now
           else last_weekly st' = last_weekly st"
      using Tick(1) by auto
    have "marks day_number date_text last_daily (dg_daily s') s'"
      using marks_step [where b = "lit ''daily'' \<in> set sent" and marker = last_daily and number = day_number
          and render = date_text, OF _ Tick(2) day_number_mono date_text_of_day l(1,2) _ d] assms(1) Tick(1)
      by (simp add: digest_ok_def)
    moreover have "marks week_number iso_week last_weekly (dg_weekly s') s'"
      using marks_step [where b = "lit ''weekly'' \<in> set sent" and marker = last_weekly and number = week_number
          and render = iso_week, OF _ Tick(2) week_number_mono iso_week_of_week l(1,2) _ w] assms(1) Tick(1)
      by (simp add: digest_ok_def)
    ultimately show ?thesis using l by (simp add: digest_ok_def markers_clean_def)
  qed
next
  case (Elsewhere a)
  then have same: "load_digest_state (app_settings (dg_app s')) = load_digest_state (app_settings (dg_app s))"
    by (simp add: load_digest_state_def)
  with assms(1) Elsewhere(1) show ?thesis
    by (auto simp: digest_ok_def markers_clean_def intro: marks_same_settings)
qed

lemma digest_reachable_ok: "digest_reachable D L s \<Longrightarrow> digest_ok s"
proof (induction rule: digest_reachable.induct)
  case (Begin a t)
  then show ?case by (simp add: digest_ok_def marks_def)
next
  case (Step s s')
  then show ?case by (blast intro: digest_step_ok)
qed


text \<open>A gateway that sends a daily digest at noon of the leap day of 2024.\<close>

definition daily_ops :: ops_alerts where
  "daily_ops = default_ops\<lparr>admin_email := JStr (lit ''ops''), digest_daily_enabled := JBool True\<rparr>"

definition daily_app :: "send_request list app" where
  "daily_app = alarm_app\<lparr>app_settings := save_ops_alerts daily_ops []\<rparr>"

definition leap_noon :: time where
  "leap_noon = 19782 * day_us + 12 * 3600000000"

lemma daily_ops_loaded: "load_ops_alerts (app_settings daily_app) = Inr daily_ops"
  by (simp add: daily_app_def load_saved_ops wf_ops_def ops_asdict_def daily_ops_def default_ops_def
      subject_default_def lit_def is_scalar_def)

lemma no_marker_yet: "load_digest_state (app_settings daily_app) = Inr \<lparr>last_daily = [], last_weekly = []\<rparr>"
  by (simp add: daily_app_def) (simp add: load_digest_state_def get_setting_def)

lemma dispatch_sends:
  assumes "app_runtime a = \<lparr>rt_config = sample_config\<rparr>"
  shows "\<exists>a'. dispatch (\<lambda>_. mock_driver None) toy_report_lib daily_ops report a = (Inr \<lparr>ds_ok = True, ds_error = []\<rparr>, a')"
proof -
  obtain acc where "service_account sample_config = Some acc"
    by (simp add: sample_config_def sample_ews_def service_account_def)
  with assms show ?thesis
    by (cases acc) (simp add: dispatch_def daily_ops_def default_ops_def attr_strip_def truthy_json_def
        subject_default_def send_digest_def Let_def runtime_get_def mock_driver_def toy_report_lib_def)
qed

lemma daily_tick:
  "\<exists>a. scheduler_tick (\<lambda>_. mock_driver None) toy_report_lib leap_noon daily_app = ([lit ''daily''], None, a)"
proof -
  let ?D = "\<lambda>_. mock_driver None"
  let ?st = "\<lparr>last_daily = [], last_weekly = []\<rparr>"
  have due: "daily_due daily_ops ?st leap_noon = Inr True"
    by code_simp
  have rt: "app_runtime daily_app = \<lparr>rt_config = sample_config\<rparr>" by (simp add: daily_app_def alarm_app_def)
  obtain a1 where sends: "dispatch ?D toy_report_lib daily_ops (build_report (lit ''daily'') leap_noon daily_app) daily_app =
      (Inr \<lparr>ds_ok = True, ds_error = []\<rparr>, a1)"
    using dispatch_sends [OF rt] by blast
  note same = dispatch_settings [OF this]
  have markers: "load_digest_state (app_settings a1) = Inr ?st"
    unfolding same by (rule no_marker_yet)
  have addr: "attr_strip (admin_email daily_ops) = Inr (lit ''ops'')" by code_simp
  have on: "truthy_json (digest_daily_enabled daily_ops)" "\<not> truthy_json (digest_weekly_enabled daily_ops)"
    by (simp_all add: daily_ops_def default_ops_def truthy_json_def)
  have "digest_part ?D toy_report_lib daily_ops (lit ''daily'') leap_noon (digest_daily_enabled daily_ops)
      (daily_due daily_ops ?st leap_noon) (\<lambda>s. s\<lparr>last_daily := date_text leap_noon\<rparr>) (?st, daily_app) =
    (True, None, ?st\<lparr>last_daily := date_text leap_noon\<rparr>,
      a1\<lparr>app_settings := save_digest_state (?st\<lparr>last_daily := date_text leap_noon\<rparr>) (app_settings a1)\<rparr>)"
    by (simp add: digest_part_def on due sends markers)
  then show ?thesis
    by (simp add: scheduler_tick_def daily_ops_loaded no_marker_yet addr digest_part_def on)
qed


end
