(* ===== verification/Log_Reader.thy ===== *)
theory Log_Reader
  imports Py_Codecs Py_Calendar "HOL-Library.List_Lexorder"
begin

section \<open>Reading and purging the log files (observability/log\_reader.py, log\_retention.py)\<close>

text \<open>
  The log directory is the list of its entries: the name, the bytes or \<open>None\<close> where reading
  raises OSError, and the time of the last change. \<open>search_logs\<close> walks the files from the newest
  name to the oldest and each file from its last line to its first, and stops at the limit.
  \<open>parse_line\<close> is the regular expression of the module; of \<open>\d\<close> the ASCII digits are taken.
\<close>

record log_file =
  lf_name :: pystr
  lf_bytes :: "bytes option"
  lf_mtime :: "time option"
  lf_locked :: bool

record log_entry =
  le_ts :: pystr
  le_level :: pystr
  le_logger :: pystr
  le_message :: pystr
  le_source :: pystr
  le_raw :: pystr

text \<open>\<open>glob(''msgate-*.log'')\<close>\<close>

definition is_log_name :: "pystr \<Rightarrow> bool" where
  "is_log_name n \<longleftrightarrow> startswith n (lit ''msgate-'') \<and> endswith n (lit ''.log'') \<and> 11 \<le> length n"

text \<open>\<open>sorted(..., reverse=True)\<close>; the names of a directory are distinct.\<close>

definition list_log_files :: "log_file list option \<Rightarrow> log_file list" where
  "list_log_files directory =
     (case directory of None \<Rightarrow> []
      | Some fs \<Rightarrow> rev (sort_key lf_name (filter (\<lambda>f. is_log_name (lf_name f)) fs)))"

subsection \<open>Lines\<close>

definition is_line_break :: "int \<Rightarrow> bool" where
  "is_line_break c \<longleftrightarrow> c \<in> {10, 11, 12, 13, 28, 29, 30, 133, 8232, 8233}"

text \<open>\<open>str.splitlines()\<close>: a carriage return and a line feed are one break, and a break at the
  end of the text starts no line.\<close>

fun lines_from :: "pystr \<Rightarrow> pystr \<Rightarrow> pystr list" where
  "lines_from cur [] = (if cur = [] then [] else [rev cur])"
| "lines_from cur (c # s) =
     (if \<not> is_line_break c then lines_from (c # cur) s
      else rev cur # (if c = 13 \<and> s \<noteq> [] \<and> hd s = 10 then lines_from [] (tl s) else lines_from [] s))"

definition splitlines :: "pystr \<Rightarrow> pystr list" where
  "splitlines s = lines_from [] s"

text \<open>The shape of a time stamp: \<open>d\<close> stands for a digit.\<close>

definition match_shape :: "string \<Rightarrow> pystr \<Rightarrow> bool" where
  "match_shape shape s \<longleftrightarrow>
     list_all2 (\<lambda>p c. if p = CHR ''d'' then is_digit c else c = of_char p) shape s"

definition is_upper_az :: "int \<Rightarrow> bool" where
  "is_upper_az c \<longleftrightarrow> 65 \<le> c \<and> c \<le> 90"

definition line_fields :: "pystr \<Rightarrow> (pystr \<times> pystr \<times> pystr \<times> pystr) option" where
  "line_fields raw =
     (let ts = take 19 raw; r1 = drop 19 raw
      in if \<not> match_shape ''dddd-dd-ddTdd:dd:dd'' ts \<or> \<not> startswith r1 (lit '' '') then None
         else let r2 = tl r1; lvl = takeWhile is_upper_az r2; r3 = dropWhile is_upper_az r2
      in if lvl = [] \<or> \<not> startswith r3 (lit '' ['') then None
         else let r4 = drop 2 r3; lg = takeWhile (\<lambda>c. c \<noteq> 93) r4; r5 = dropWhile (\<lambda>c. c \<noteq> 93) r4
      in if lg = [] \<or> \<not> startswith r5 (lit ''] '') \<or> 10 \<in> set (drop 2 r5) then None
         else Some (ts, lvl, lg, drop 2 r5))"

definition parse_line :: "pystr \<Rightarrow> pystr \<Rightarrow> log_entry" where
  "parse_line raw source =
     (case line_fields raw of
        None \<Rightarrow> \<lparr>le_ts = [], le_level = [], le_logger = [], le_message = raw, le_source = source, le_raw = raw\<rparr>
      | Some (ts, lvl, lg, msg) \<Rightarrow>
          \<lparr>le_ts = ts, le_level = lvl, le_logger = lg, le_message = msg, le_source = source, le_raw = raw\<rparr>)"

subsection \<open>Searching\<close>

record log_query =
  lq_query :: pystr
  lq_level :: pystr
  lq_logger :: pystr
  lq_day :: pystr
  lq_limit :: int

definition clamp_limit :: "int \<Rightarrow> int" where
  "clamp_limit n = max 1 (min n 2000)"

definition entry_matches_query :: "log_query \<Rightarrow> log_entry \<Rightarrow> bool" where
  "entry_matches_query Q e \<longleftrightarrow>
     (let q = lower (strip (lq_query Q)); lvl = upper (strip (lq_level Q)); lg = lower (strip (lq_logger Q))
      in \<not> (lvl \<noteq> [] \<and> le_level e \<noteq> lvl) \<and> \<not> (lg \<noteq> [] \<and> \<not> contains lg (lower (le_logger e)))
         \<and> \<not> (q \<noteq> [] \<and> \<not> contains q (lower (le_raw e))))"

text \<open>The loops with their \<open>continue\<close>s; the flag says that the limit was reached and the search returned.\<close>

fun scan_lines :: "log_query \<Rightarrow> nat \<Rightarrow> pystr \<Rightarrow> pystr list \<Rightarrow> log_entry list \<Rightarrow> bool \<times> log_entry list" where
  "scan_lines Q limit source [] out = (False, out)"
| "scan_lines Q limit source (raw # rest) out =
     (if strip raw = [] then scan_lines Q limit source rest out
      else let e = parse_line raw source
           in if \<not> entry_matches_query Q e then scan_lines Q limit source rest out
              else let out' = out @ [e]
                   in if limit \<le> length out' then (True, out') else scan_lines Q limit source rest out')"

fun scan_files :: "log_query \<Rightarrow> nat \<Rightarrow> log_file list \<Rightarrow> log_entry list \<Rightarrow> log_entry list" where
  "scan_files Q limit [] out = out"
| "scan_files Q limit (f # fs) out =
     (case lf_bytes f of
        None \<Rightarrow> scan_files Q limit fs out
      | Some bs \<Rightarrow>
          (case scan_lines Q limit (lf_name f) (rev (splitlines (utf8_decode_replace bs))) out of
             (True, out') \<Rightarrow> out'
           | (False, out') \<Rightarrow> scan_files Q limit fs out'))"

definition files_of_day :: "pystr \<Rightarrow> log_file list \<Rightarrow> log_file list" where
  "files_of_day day fs = (if day \<noteq> [] then filter (\<lambda>f. contains day (lf_name f)) fs else fs)"

definition search_logs :: "log_query \<Rightarrow> log_file list option \<Rightarrow> log_entry list" where
  "search_logs Q directory =
     scan_files Q (nat (clamp_limit (lq_limit Q)))
       (files_of_day (strip (lq_day Q)) (list_log_files directory)) []"

subsection \<open>Purging\<close>

definition retention_days :: "environ \<Rightarrow> int" where
  "retention_days env =
     (case py_int (case env (lit ''MSGATE_LOG_RETENTION_DAYS'') of None \<Rightarrow> lit ''14'' | Some v \<Rightarrow> v) of
        Inl _ \<Rightarrow> 14 | Inr n \<Rightarrow> max 1 n)"

text \<open>
  A file that cannot be examined or removed stays, and the loop goes on. (Retentions beyond the
  range of \<open>datetime\<close>, which raise OverflowError, are not modelled.)
\<close>

definition purged :: "time \<Rightarrow> log_file \<Rightarrow> bool" where
  "purged cutoff f \<longleftrightarrow> is_log_name (lf_name f) \<and> \<not> lf_locked f
     \<and> (case lf_mtime f of None \<Rightarrow> False | Some t \<Rightarrow> t < cutoff)"

definition purge_old_logs :: "environ \<Rightarrow> time \<Rightarrow> log_file list option \<Rightarrow> nat \<times> log_file list option" where
  "purge_old_logs env now directory =
     (case directory of
        None \<Rightarrow> (0, None)
      | Some fs \<Rightarrow> (let cutoff = now - retention_days env * day_us
                   in (length (filter (purged cutoff) fs), Some (filter (\<lambda>f. \<not> purged cutoff f) fs))))"

subsection \<open>The search as one expression\<close>

text \<open>Every line that is not blank, newest file first, last line first.\<close>

definition file_entries :: "log_file \<Rightarrow> log_entry list" where
  "file_entries f = (case lf_bytes f of None \<Rightarrow> []
     | Some bs \<Rightarrow> map (\<lambda>raw. parse_line raw (lf_name f))
         (filter (\<lambda>raw. strip raw \<noteq> []) (rev (splitlines (utf8_decode_replace bs)))))"

definition line_hits :: "log_query \<Rightarrow> pystr \<Rightarrow> pystr list \<Rightarrow> log_entry list" where
  "line_hits Q source rows = filter (entry_matches_query Q)
     (map (\<lambda>raw. parse_line raw source) (filter (\<lambda>raw. strip raw \<noteq> []) rows))"

lemma scan_lines_spec:
  assumes "length out < limit"
  shows "scan_lines Q limit source rows out =
    (limit \<le> length out + length (line_hits Q source rows), take limit (out @ line_hits Q source rows))"
  using assms
proof (induction rows arbitrary: out)
  case (Cons raw rows)
  show ?case
  proof (cases "strip raw \<noteq> [] \<and> entry_matches_query Q (parse_line raw source)")
    case False
    then show ?thesis using Cons by (auto simp: line_hits_def Let_def)
  next
    case True
    then have hits: "line_hits Q source (raw # rows) = parse_line raw source # line_hits Q source rows"
      by (simp add: line_hits_def)
    show ?thesis
    proof (cases "limit \<le> Suc (length out)")
      case True': True
      with Cons.prems have "limit = Suc (length out)" by simp
      with True show ?thesis by (simp add: hits Let_def)
    next
      case False
      with True Cons.IH [of "out @ [parse_line raw source]"] show ?thesis by (simp add: hits Let_def)
    qed
  qed
qed (simp add: line_hits_def)

lemma scan_files_spec:
  assumes "length out < limit"
  shows "scan_files Q limit fs out =
    take limit (out @ filter (entry_matches_query Q) (concat (map file_entries fs)))"
  using assms
proof (induction fs arbitrary: out)
  case (Cons f fs)
  show ?case
  proof (cases "lf_bytes f")
    case None
    then show ?thesis using Cons by (simp add: file_entries_def)
  next
    case (Some bs)
    define hits where "hits = line_hits Q (lf_name f) (rev (splitlines (utf8_decode_replace bs)))"
    have scan: "scan_lines Q limit (lf_name f) (rev (splitlines (utf8_decode_replace bs))) out =
        (limit \<le> length out + length hits, take limit (out @ hits))"
      unfolding hits_def using Cons.prems by (rule scan_lines_spec)
    have entries: "filter (entry_matches_query Q) (file_entries f) = hits"
      using Some by (simp add: file_entries_def hits_def line_hits_def)
    show ?thesis
    proof (cases "limit \<le> length out + length hits")
      case True
      then show ?thesis by (simp add: Some scan entries)
    next
      case False
      then have "take limit (out @ hits) = out @ hits" "length (out @ hits) < limit" by simp_all
      with Cons.IH [of "out @ hits"] False show ?thesis
        unfolding scan_files.simps Some option.case scan by (simp add: entries)
    qed
  qed
qed simp

lemma clamp_range: "1 \<le> clamp_limit n \<and> clamp_limit n \<le> 2000"
  by (auto simp: clamp_limit_def)

text \<open>
  C37. The search that stops early returns what a search of everything would: the first \<open>limit\<close>
  entries, the limit being clamped to 1 .. 2000, among all entries of the files of the day, newest
  file and last line first, that match the query.
\<close>

theorem search_logs_first_matches:
  "search_logs Q directory = take (nat (clamp_limit (lq_limit Q)))
     (filter (entry_matches_query Q)
       (concat (map file_entries (files_of_day (strip (lq_day Q)) (list_log_files directory)))))"
  unfolding search_logs_def using clamp_range [of "lq_limit Q"] by (subst scan_files_spec) auto

text \<open>A line the logger wrote is taken apart into its fields again.\<close>

lemma line_fields_formatted:
  assumes "match_shape ''dddd-dd-ddTdd:dd:dd'' ts" "lvl \<noteq> []" "list_all is_upper_az lvl"
    and "lg \<noteq> []" "93 \<notin> set lg" "10 \<notin> set msg"
  shows "line_fields (ts @ lit '' '' @ lvl @ lit '' ['' @ lg @ lit ''] '' @ msg) = Some (ts, lvl, lg, msg)"
proof -
  have "length ts = 19" using assms(1) by (auto simp: match_shape_def dest: list_all2_lengthD)
  moreover have "takeWhile is_upper_az (lvl @ lit '' ['' @ r) = lvl"
    "dropWhile is_upper_az (lvl @ lit '' ['' @ r) = lit '' ['' @ r" for r
    using assms(3) by (simp_all add: list_all_iff takeWhile_append2 dropWhile_append2 lit_def is_upper_az_def)
  moreover have "takeWhile (\<lambda>c. c \<noteq> 93) (lg @ lit ''] '' @ r) = lg"
    "dropWhile (\<lambda>c. c \<noteq> 93) (lg @ lit ''] '' @ r) = lit ''] '' @ r" for r
    using assms(5) by (simp_all add: takeWhile_append dropWhile_append lit_def)
  ultimately show ?thesis
    using assms by (simp add: line_fields_def Let_def lit_def startswith_def)
qed

text \<open>Purging keeps everything that is younger than a day, whatever the environment says.\<close>

lemma retention_at_least_a_day: "1 \<le> retention_days env"
  by (auto simp: retention_days_def split: sum.split)

lemma purge_keeps_recent:
  assumes "purge_old_logs env now (Some fs) = (n, Some fs')" "f \<in> set fs" "lf_mtime f = Some t"
    and "now - day_us \<le> t"
  shows "f \<in> set fs'"
proof -
  have "day_us \<le> retention_days env * day_us"
    using mult_right_mono [OF retention_at_least_a_day [of env], of day_us] by (simp add: day_us_def)
  with assms show ?thesis by (auto simp: purge_old_logs_def purged_def Let_def)
qed

end
