(* ===== verification/Cli_Commands.thy ===== *)
theory Cli_Commands
  imports App_State Tls_Negotiate
begin

section \<open>Commands (\_\_main\_\_.py, cli/admin.py)\<close>

text \<open>
  \<open>cmd_reset_password\<close> and \<open>cmd_tls_probe\<close> give the exit code, and the probe the lines it prints;
  \<open>reset_password_prints\<close> is what the first prints. The command \<open>serve\<close> is in \<open>Serve_Command\<close>.
\<close>

subsection \<open>Resetting the password\<close>

text \<open>The application is built first, which a ValueError may end; other exceptions leave the command.\<close>

definition cmd_reset_password ::
    "crypto \<Rightarrow> bytes \<Rightarrow> int \<Rightarrow> pystr \<Rightarrow> pystr \<Rightarrow> 'w app res \<Rightarrow> admin_table \<Rightarrow> int res \<times> admin_table" where
  "cmd_reset_password C salt euid password confirm built t =
     (if euid \<noteq> 0 \<or> password \<noteq> confirm then (Inr 1, t)
      else case bindE built (\<lambda>a. set_admin_password C salt password True (app_admins a)) of
          Inl e \<Rightarrow> (if exn_kind e \<in> {ValueError, UnicodeError} then Inr 1 else Inl e,
                    case built of Inl _ \<Rightarrow> t | Inr a \<Rightarrow> app_admins a)
        | Inr t' \<Rightarrow> (Inr 0, t'))"

text \<open>The one line it prints, to the error output or not; nothing when another exception leaves it.\<close>

definition reset_password_prints ::
    "crypto \<Rightarrow> bytes \<Rightarrow> int \<Rightarrow> pystr \<Rightarrow> pystr \<Rightarrow> 'w app res \<Rightarrow> (bool \<times> pystr) option" where
  "reset_password_prints C salt euid password confirm built =
     (if euid \<noteq> 0 then Some (True, lit ''msgate admin reset-password must be run as root (uid 0).'')
      else if password \<noteq> confirm then Some (True, lit ''Passwords do not match.'')
      else case bindE built (\<lambda>a. set_admin_password C salt password True (app_admins a)) of
          Inl e \<Rightarrow> if exn_kind e \<in> {ValueError, UnicodeError} then Some (True, exn_text e) else None
        | Inr _ \<Rightarrow> Some (False, lit ''Admin password updated. User must set a new password on next login.''))"

lemma reset_password_says_so:
  "fst (cmd_reset_password C salt euid password confirm built t) = Inr 0 \<longleftrightarrow>
     map_option fst (reset_password_prints C salt euid password confirm built) = Some False"
  by (auto simp: cmd_reset_password_def reset_password_prints_def split: sum.split)

subsection \<open>Probing the TLS profiles\<close>

definition probe_line :: "tls_profile_id \<Rightarrow> probe_result \<Rightarrow> pystr" where
  "probe_line pid r =
     lit ''  ['' @ (if probe_ok r then lit ''OK'' else lit ''FAIL'') @ lit ''] '' @ profile_value pid @ lit '': ''
       @ (if truthy (negotiated r) then or_empty (negotiated r) else or_empty (probe_error r))"

fun probe_each ::
    "network \<Rightarrow> pystr \<Rightarrow> int \<Rightarrow> ews_config \<Rightarrow> tls_profile_id list \<Rightarrow> bool \<Rightarrow> pystr list \<Rightarrow> (bool \<times> pystr list) res" where
  "probe_each N host port cfg [] any_ok out = Inr (any_ok, out)"
| "probe_each N host port cfg (pid # pids) any_ok out =
     bindE (probe_profile N host port pid (ca_file cfg) (trust_self_signed cfg)) (\<lambda>r.
       probe_each N host port cfg pids (any_ok \<or> probe_ok r) (out @ [probe_line pid r]))"

definition bool_text :: "bool \<Rightarrow> pystr" where
  "bool_text b = (if b then lit ''True'' else lit ''False'')"

definition probe_header :: "pystr \<Rightarrow> int \<Rightarrow> tls_mode \<Rightarrow> ews_config \<Rightarrow> pystr list" where
  "probe_header host port mode cfg =
     [lit ''endpoint='' @ host @ [58] @ str_int port @ lit '' mode='' @ mode_value mode,
      lit ''ca_file='' @ (if truthy (ca_file cfg) then or_empty (ca_file cfg) else lit ''(system)'')
        @ lit '' trust_self_signed='' @ bool_text (trust_self_signed cfg)]"

definition cmd_tls_probe ::
    "network \<Rightarrow> pydantic \<Rightarrow> environ \<Rightarrow> bool \<Rightarrow> tls_state \<Rightarrow> (int \<times> pystr list) res \<times> tls_state" where
  "cmd_tls_probe N P env apply_cache st =
     (case load_config_from_env P env of
        Inl e \<Rightarrow> (Inl e, st)
      | Inr config \<Rightarrow> (case ews config of
        None \<Rightarrow> (Inr (2, []), st)
      | Some cfg \<Rightarrow>
          (case bindE (endpoint_from_url (server_url cfg)) (\<lambda>(host, port).
                 bindE (parse_mode (tls_mode cfg)) (\<lambda>mode.
                   probe_each N host port cfg (ladder_for_mode mode) False (probe_header host port mode cfg))) of
             Inl e \<Rightarrow> (Inl e, st)
           | Inr (any_ok, out) \<Rightarrow>
               if apply_cache \<and> any_ok
               then (case prepare_ews_tls N cfg True st of
                   (Inl e, st') \<Rightarrow> (Inl e, st')
                 | (Inr neg, st') \<Rightarrow>
                     (Inr (0, out @ [lit ''cached_profile='' @ profile_value (neg_profile neg)]), st'))
               else (Inr (if any_ok then 0 else 1, out), st))))"

subsection \<open>Exit codes\<close>

lemma probe_each_any:
  assumes "probe_each N host port cfg pids any_ok out = Inr (b, out')"
  shows "b = (any_ok \<or> list_ex (\<lambda>pid. \<exists>r. probe_profile N host port pid (ca_file cfg) (trust_self_signed cfg) = Inr r
      \<and> probe_ok r) pids) \<and> length out' = length out + length pids"
  using assms
proof (induction pids arbitrary: any_ok out)
  case (Cons pid pids)
  then obtain r where r: "probe_profile N host port pid (ca_file cfg) (trust_self_signed cfg) = Inr r"
    and rest: "probe_each N host port cfg pids (any_ok \<or> probe_ok r) (out @ [probe_line pid r]) = Inr (b, out')"
    by (auto simp: bindE_Inr_iff)
  from Cons.IH [OF rest] r show ?case by auto
qed simp

text \<open>Only root changes the password, and the table only changes with exit code 0 once the gateway is built.\<close>

lemma reset_needs_root:
  assumes "cmd_reset_password C salt euid password confirm (Inr a) (app_admins a) = (r, t')" "t' \<noteq> app_admins a"
  shows "euid = 0 \<and> password = confirm \<and> r = Inr 0"
  using assms by (auto simp: cmd_reset_password_def split: if_splits sum.splits)

lemma reset_sets_flag:
  assumes "cmd_reset_password C salt 0 password password (Inr a) (app_admins a) = (Inr 0, t')"
  shows "\<exists>row. get_admin t' = Some row \<and> ad_must_change row"
  using assms
  by (auto simp: cmd_reset_password_def set_admin_password_def create_admin_def bindE_Inr_iff get_admin_def
      split: sum.splits option.splits if_splits)

end
