(* ===== verification/Logging_Setup.thy ===== *)
theory Logging_Setup
  imports Py_Calendar Config_Boot
begin

section \<open>Paths and logging (paths.py, logging\_setup.py, observability/log\_retention.py, alembic/env.py)\<close>

text \<open>
  The names of the files of the gateway, and the loggers of the module logging: a tree under dotted
  names, kept as the dictionary of the loggers that exist with the root beside it. A record
  given to a logger goes to the handlers of the logger and of those above it (\<open>log_record\<close>), unless
  the logger is disabled. The migrations of a start read the logging section of alembic.ini with
  \<open>fileConfig\<close>, which changes the same tree. That \<open>fileConfig\<close> closes the handlers has no effect: a
  file handler opens its file again with the next record.
\<close>

subsection \<open>Paths\<close>

text \<open>A path is a directory as given and the components joined to it.\<close>

type_synonym path = "pystr \<times> pystr list"

definition joined :: "path \<Rightarrow> string \<Rightarrow> path" where
  "joined p name = (fst p, snd p @ [lit name])"

definition data_dir :: "environ \<Rightarrow> path" where
  "data_dir env =
     (let raw = strip (or_empty (env (lit ''MSGATE_DATA_DIR'')))
      in (if raw \<noteq> [] then raw else lit ''data'', []))"

definition db_path :: "environ \<Rightarrow> path" where
  "db_path env = joined (data_dir env) ''msgate.db''"

definition log_dir :: "environ \<Rightarrow> path" where
  "log_dir env =
     (let raw = strip (or_empty (env (lit ''MSGATE_LOG_DIR'')))
      in if raw \<noteq> [] then (raw, []) else joined (data_dir env) ''logs'')"

definition secret_key_path :: "environ \<Rightarrow> path" where
  "secret_key_path env = joined (data_dir env) ''.secret_key''"

definition tls_cache_path :: "environ \<Rightarrow> path" where
  "tls_cache_path env = joined (data_dir env) ''tls_cache.json''"

subsection \<open>The tree of loggers\<close>

datatype log_handler = Stderr_Handler | File_Handler path | Console_Handler | Last_Resort

record logger =
  lo_handlers :: "log_handler list"
  lo_level :: pystr
  lo_propagate :: bool
  lo_disabled :: bool

definition new_logger :: logger where
  "new_logger = \<lparr>lo_handlers = [], lo_level = lit ''NOTSET'', lo_propagate = True, lo_disabled = False\<rparr>"

type_synonym loggers = "logger dict"

record logging =
  root_lgr :: logger
  lgrs :: loggers

text \<open>\<open>logging.getLogger\<close> makes the logger it does not find.\<close>

definition getLogger :: "pystr \<Rightarrow> loggers \<Rightarrow> loggers" where
  "getLogger name L = (if map_of L name = None then L @ [(name, new_logger)] else L)"

definition on_logger :: "pystr \<Rightarrow> (logger \<Rightarrow> logger) \<Rightarrow> loggers \<Rightarrow> loggers" where
  "on_logger name f L = map (\<lambda>(n, l). (n, if n = name then f l else l)) L"

text \<open>The number of a level; \<open>NOTSET\<close> is 0.\<close>

definition level_no :: "pystr \<Rightarrow> nat" where
  "level_no lv = (if lv = lit ''DEBUG'' then 10 else if lv = lit ''INFO'' then 20
     else if lv = lit ''WARNING'' \<or> lv = lit ''WARN'' then 30 else if lv = lit ''ERROR'' then 40
     else if lv = lit ''CRITICAL'' then 50 else 0)"

text \<open>The logger of a name, those above it by dotted name that exist, and the root.\<close>

definition lookup_names :: "pystr \<Rightarrow> pystr list" where
  "lookup_names name = (let ws = split_at 46 name in map (\<lambda>k. join_with [46] (take k ws)) (rev [1..<length ws + 1]))"

definition chain :: "logging \<Rightarrow> pystr \<Rightarrow> logger list" where
  "chain T name = List.map_filter (map_of (lgrs T)) (lookup_names name) @ [root_lgr T]"

fun effective_level :: "logger list \<Rightarrow> nat" where
  "effective_level [] = 0"
| "effective_level (l # ls) = (if level_no (lo_level l) \<noteq> 0 then level_no (lo_level l) else effective_level ls)"

fun reached :: "logger list \<Rightarrow> log_handler list" where
  "reached [] = []"
| "reached (l # ls) = lo_handlers l @ (if lo_propagate l then reached ls else [])"

text \<open>
  Where a record of level \<open>n\<close> goes that the logger \<open>name\<close> is given; with no handler at all, warnings
  go to the handler of last resort.
\<close>

definition log_record :: "logging \<Rightarrow> pystr \<Rightarrow> nat \<Rightarrow> log_handler list" where
  "log_record T name n = (case map_of (lgrs T) name of
       None \<Rightarrow> []
     | Some l \<Rightarrow>
         if lo_disabled l \<or> n < effective_level (chain T name) then []
         else (case reached (chain T name) of
             [] \<Rightarrow> (if 30 \<le> n then [Last_Resort] else [])
           | h # hs \<Rightarrow> h # hs))"

subsection \<open>Setting up the log\<close>

definition msgate_name :: pystr where "msgate_name = lit ''msgate''"

definition get_logger :: "pystr \<Rightarrow> pystr" where
  "get_logger name = lit ''msgate.'' @ name"

definition level_logger :: "pystr \<Rightarrow> logger \<Rightarrow> logger" where
  "level_logger level l = l\<lparr>lo_level := upper level\<rparr>"

definition setup_logging :: "pystr \<Rightarrow> loggers \<Rightarrow> loggers" where
  "setup_logging level L =
     on_logger msgate_name (\<lambda>lgr.
       if lo_handlers lgr \<noteq> [] then level_logger level lgr
       else level_logger level (lgr\<lparr>lo_handlers := [Stderr_Handler], lo_propagate := False\<rparr>)) (getLogger msgate_name L)"

definition is_file_handler :: "log_handler \<Rightarrow> bool" where
  "is_file_handler h = (case h of File_Handler _ \<Rightarrow> True | _ \<Rightarrow> False)"

definition log_file_path :: "environ \<Rightarrow> time \<Rightarrow> path" where
  "log_file_path env now = (fst (log_dir env),
     snd (log_dir env) @ [lit ''msgate-'' @ filter (\<lambda>c. c \<noteq> 45) (date_text now) @ lit ''.log''])"

definition file_logging :: "environ \<Rightarrow> bool" where
  "file_logging env \<longleftrightarrow>
     lower (env_get env ''MSGATE_FILE_LOGGING'' (lit ''true'')) \<notin> {lit ''0'', lit ''false'', lit ''no''}"

text \<open>\<open>mkdir_error\<close> and \<open>open_error\<close> are the OSErrors of making the directory and opening the file.\<close>

definition setup_file_logging ::
    "environ \<Rightarrow> time \<Rightarrow> exn option \<Rightarrow> exn option \<Rightarrow> pystr \<Rightarrow> loggers \<Rightarrow> path option res \<times> loggers" where
  "setup_file_logging env now mkdir_error open_error level L =
     (if \<not> file_logging env then (Inr None, L)
      else case mkdir_error of
          Some e \<Rightarrow> (Inl e, L)
        | None \<Rightarrow>
            let path = log_file_path env now; L1 = getLogger msgate_name L;
                held = (case map_of L1 msgate_name of None \<Rightarrow> [] | Some l \<Rightarrow> lo_handlers l)
            in if list_ex is_file_handler held then (Inr (Some path), L1)
               else (case open_error of
                   Some e \<Rightarrow> (Inl e, L1)
                 | None \<Rightarrow> (Inr (Some path), on_logger msgate_name (\<lambda>l.
                     level_logger level (l\<lparr>lo_handlers := lo_handlers l @ [File_Handler path]\<rparr>)) L1)))"

subsection \<open>What the migrations do to it (alembic/env.py)\<close>

text \<open>
  \<open>fileConfig(file)\<close> of the module logging: the root and the named loggers are configured; a logger
  that existed and is below one of them which existed loses its handlers, and every other logger
  that existed is disabled (\<open>disable_existing_loggers\<close> is true unless the caller says otherwise).
\<close>

type_synonym logger_section = "pystr \<times> pystr \<times> log_handler list"

definition configured :: "pystr \<Rightarrow> log_handler list \<Rightarrow> logger" where
  "configured level hs = \<lparr>lo_handlers = hs, lo_level = level, lo_propagate = True, lo_disabled = False\<rparr>"

definition fileConfig :: "pystr \<Rightarrow> log_handler list \<Rightarrow> logger_section list \<Rightarrow> logging \<Rightarrow> logging" where
  "fileConfig root_level root_handlers sections T =
     (let L = lgrs T; existing = set (map fst L); named = set (map fst sections);
          below = (\<lambda>n. list_ex (\<lambda>q. q \<in> existing \<and> startswith n (q @ [46])) (map fst sections));
          L1 = fold (\<lambda>(q, lv, hs) M. on_logger q (\<lambda>_. configured lv hs) (getLogger q M)) sections L
      in \<lparr>root_lgr = (root_lgr T)\<lparr>lo_level := root_level, lo_handlers := root_handlers\<rparr>,
          lgrs = map (\<lambda>(n, l). (n,
            if n \<in> named \<or> n \<notin> existing then l
            else if below n then l\<lparr>lo_handlers := [], lo_level := lit ''NOTSET'', lo_propagate := True\<rparr>
            else l\<lparr>lo_disabled := True\<rparr>)) L1\<rparr>)"

text \<open>The sections of alembic.ini, which env.py reads before it migrates.\<close>

definition alembic_logging :: "logging \<Rightarrow> logging" where
  "alembic_logging = fileConfig (lit ''WARN'') [Console_Handler]
     [(lit ''sqlalchemy.engine'', lit ''WARN'', []), (lit ''alembic'', lit ''INFO'', [])]"

subsection \<open>The loggers of the program\<close>

text \<open>In the order in which the imports of \_\_main\_\_.py make them; the last four come with \<open>_cmd_serve\<close>.\<close>

definition import_loggers :: "pystr list" where
  "import_loggers = map lit [''crypto'', ''webhooks'', ''ews.cache'', ''tls.cache'', ''tls.probe'', ''tls.negotiate'',
     ''ews'', ''drivers.ews'', ''queue.processor'', ''queue.service'', ''queue.worker'', ''log_retention'',
     ''smtp.auth'', ''smtp.handler'', ''smtp.server'']"

definition late_loggers :: "pystr list" where
  "late_loggers = map lit [''ops.digest_mail'', ''ops.digest_scheduler'', ''ops.alert_mail'', ''ops.watcher'']"

definition get_all :: "pystr list \<Rightarrow> loggers \<Rightarrow> loggers" where
  "get_all ns = fold (\<lambda>n. getLogger (get_logger n)) ns"

subsection \<open>Looking up\<close>

lemma getLogger_get: "map_of (getLogger q L) n
    = (if n = q \<and> map_of L q = None then Some new_logger else map_of L n)"
  by (auto simp: getLogger_def map_add_def split: option.splits)

lemma on_logger_get: "map_of (on_logger q f L) n = (if n = q then map_option f (map_of L n) else map_of L n)"
  unfolding on_logger_def by (induction L) auto

lemma on_logger_names [simp]: "map fst (on_logger q f L) = map fst L"
  by (induction L) (auto simp: on_logger_def)

lemma get_all_get: "map_of (get_all ns L) n
    = (if map_of L n = None \<and> n \<in> get_logger ` set ns then Some new_logger else map_of L n)"
  unfolding get_all_def by (induction ns arbitrary: L) (auto simp: getLogger_get)

lemma map_of_keyed: "map_of (map (\<lambda>(n, l). (n, f n l)) L) n = map_option (f n) (map_of L n)"
  by (induction L) auto

text \<open>A logger no section names is kept by the configuration, and disabled when it existed.\<close>

lemma configured_other:
  "n \<notin> fst ` set sections \<Longrightarrow>
    map_of (fold (\<lambda>(q, lv, hs) M. on_logger q (\<lambda>_. configured lv hs) (getLogger q M)) sections L) n = map_of L n"
  by (induction sections arbitrary: L) (auto simp: on_logger_get getLogger_get)

lemma fileConfig_disables:
  assumes "map_of (lgrs T) n = Some l" "n \<notin> fst ` set sections" "list_all (\<lambda>q. \<not> startswith n (q @ [46])) (map fst sections)"
  shows "map_of (lgrs (fileConfig lv hs sections T)) n = Some (l\<lparr>lo_disabled := True\<rparr>)"
proof -
  have "n \<in> set (map fst (lgrs T))" using assms(1) by (force dest: map_of_SomeD)
  moreover have "\<not> list_ex (\<lambda>q. q \<in> set (map fst (lgrs T)) \<and> startswith n (q @ [46])) (map fst sections)"
    using assms(3) by (auto simp: list_all_iff list_ex_iff)
  ultimately show ?thesis
    using assms(1,2) by (simp add: fileConfig_def Let_def map_of_keyed configured_other)
qed

lemma disabled_silent: "map_of (lgrs T) n = Some l \<Longrightarrow> lo_disabled l \<Longrightarrow> log_record T n lv = []"
  by (simp add: log_record_def)

lemma startswith_hd: "startswith n p \<Longrightarrow> p \<noteq> [] \<Longrightarrow> n \<noteq> [] \<and> hd n = hd p"
  by (cases n; cases p) (auto simp: startswith_def)

lemma alembic_disables:
  assumes "map_of (lgrs T) n = Some l" "startswith n (lit ''msgate'')"
  shows "map_of (lgrs (alembic_logging T)) n = Some (l\<lparr>lo_disabled := True\<rparr>)"
proof -
  have first: "hd n = 109" using startswith_hd [OF assms(2)] by (simp add: lit_def)
  have "\<not> startswith n (lit ''sqlalchemy.engine'' @ [46])" "\<not> startswith n (lit ''alembic'' @ [46])"
    using startswith_hd [of n] first by (fastforce simp: lit_def)+
  moreover have "n \<noteq> lit ''sqlalchemy.engine''" "n \<noteq> lit ''alembic''"
    using first by (auto simp: lit_def)
  ultimately show ?thesis
    unfolding alembic_logging_def by (intro fileConfig_disables [OF assms(1)]) simp_all
qed

subsection \<open>Where a record of the program goes\<close>

text \<open>The loggers below \<open>msgate\<close> are as they were made, but for being disabled.\<close>

definition plain_below :: "loggers \<Rightarrow> bool" where
  "plain_below L \<longleftrightarrow> (\<forall>x l. map_of L (get_logger x) = Some l
     \<longrightarrow> lo_handlers l = [] \<and> lo_level l = lit ''NOTSET'' \<and> lo_propagate l)"

lemma get_logger_not_msgate [simp]: "get_logger x \<noteq> msgate_name" "msgate_name \<noteq> get_logger x"
  by (auto simp: get_logger_def msgate_name_def dest: arg_cong [of _ _ length])

lemma get_logger_inject [simp]: "get_logger x = get_logger y \<longleftrightarrow> x = y"
  by (simp add: get_logger_def)

lemma get_logger_starts: "startswith (get_logger x) (lit ''msgate'')" "startswith msgate_name (lit ''msgate'')"
  by (simp_all add: startswith_def get_logger_def msgate_name_def lit_def)

lemma lookup_get_logger: "\<exists>xs. lookup_names (get_logger x) = map get_logger xs @ [msgate_name]"
proof -
  let ?ws = "split_at 46 x"
  have dot: "46 \<notin> set (lit ''msgate'')" by (simp add: lit_def)
  have "get_logger x = lit ''msgate'' @ 46 # x" by (simp add: get_logger_def lit_def)
  then have "split_at 46 (get_logger x) = lit ''msgate'' # ?ws" using split_at_append [OF dot] by metis
  then have names: "lookup_names (get_logger x)
      = map (\<lambda>k. join_with [46] (take k (lit ''msgate'' # ?ws))) (rev [1..<length ?ws + 2])"
    by (simp add: lookup_names_def Let_def)
  have below: "join_with [46] (take k (lit ''msgate'' # ?ws)) = get_logger (join_with [46] (take (k - 1) ?ws))"
    if "k \<in> set [2..<length ?ws + 2]" for k
  proof -
    from that have "k = Suc (k - 1)" "take (k - 1) ?ws \<noteq> []" by auto
    then show ?thesis
      by (cases "take (k - 1) ?ws") (auto simp: get_logger_def lit_def take_Cons')
  qed
  have "rev [1..<length ?ws + 2] = rev [2..<length ?ws + 2] @ [1]"
    using upt_conv_Cons [of 1 "length ?ws + 2"] by (simp add: numeral_2_eq_2)
  then have "lookup_names (get_logger x)
      = map (get_logger \<circ> (\<lambda>k. join_with [46] (take (k - 1) ?ws))) (rev [2..<length ?ws + 2]) @ [msgate_name]"
    unfolding names using below by (simp add: msgate_name_def rev_map)
  then show ?thesis by (metis map_map)
qed

lemma map_filter_append: "List.map_filter f (xs @ ys) = List.map_filter f xs @ List.map_filter f ys"
  by (simp add: List.map_filter_def)

lemma chain_plain:
  assumes "plain_below L"
  shows "effective_level (List.map_filter (map_of L) (map get_logger xs) @ ls) = effective_level ls
    \<and> reached (List.map_filter (map_of L) (map get_logger xs) @ ls) = reached ls"
proof (induction xs)
  case (Cons x xs)
  have "level_no (lit ''NOTSET'') = 0" by (simp add: level_no_def)
  then show ?case
    using Cons assms by (cases "map_of L (get_logger x)") (simp_all add: List.map_filter_simps plain_below_def)
qed (simp add: List.map_filter_simps)

lemma record_reaches:
  assumes "plain_below (lgrs T)" "map_of (lgrs T) msgate_name = Some m" "\<not> lo_propagate m" "lo_handlers m \<noteq> []"
    and "level_no (lo_level m) \<noteq> 0" "level_no (lo_level m) \<le> n"
    and "map_of (lgrs T) (get_logger x) = Some l" "\<not> lo_disabled l"
  shows "log_record T (get_logger x) n = lo_handlers m"
proof -
  from lookup_get_logger [of x] obtain xs where "lookup_names (get_logger x) = map get_logger xs @ [msgate_name]" ..
  then have "chain T (get_logger x) = List.map_filter (map_of (lgrs T)) (map get_logger xs) @ [m, root_lgr T]"
    using assms(2) by (simp add: chain_def map_filter_append List.map_filter_simps)
  with chain_plain [OF assms(1)] assms show ?thesis
    by (simp add: log_record_def split: list.split)
qed

lemma plain_getLogger: "plain_below L \<Longrightarrow> plain_below (getLogger n L)"
  by (auto simp: plain_below_def getLogger_get new_logger_def)

lemma plain_get_all: "plain_below L \<Longrightarrow> plain_below (get_all ns L)"
  unfolding get_all_def by (induction ns arbitrary: L) (simp_all add: plain_getLogger)

lemma alembic_absent:
  assumes "map_of (lgrs T) (get_logger x) = None"
  shows "map_of (lgrs (alembic_logging T)) (get_logger x) = None"
proof -
  have "get_logger x \<noteq> lit ''sqlalchemy.engine''" "get_logger x \<noteq> lit ''alembic''"
    by (auto simp: get_logger_def lit_def)
  then show ?thesis
    using assms by (simp add: alembic_logging_def fileConfig_def Let_def map_of_keyed on_logger_get getLogger_get)
qed

lemma plain_alembic: "plain_below (lgrs T) \<Longrightarrow> plain_below (lgrs (alembic_logging T))"
  unfolding plain_below_def
proof (intro allI impI)
  fix x l assume plain: "\<forall>x l. map_of (lgrs T) (get_logger x) = Some l
     \<longrightarrow> lo_handlers l = [] \<and> lo_level l = lit ''NOTSET'' \<and> lo_propagate l"
    and l: "map_of (lgrs (alembic_logging T)) (get_logger x) = Some l"
  then obtain k where k: "map_of (lgrs T) (get_logger x) = Some k" using alembic_absent by fastforce
  from alembic_disables [OF k get_logger_starts(1)] l plain k
  show "lo_handlers l = [] \<and> lo_level l = lit ''NOTSET'' \<and> lo_propagate l" by auto
qed

text \<open>The two set-up functions, on the loggers of the imports.\<close>

lemma set_up_msgate:
  assumes "map_of L msgate_name = None" "file_logging env"
    and "setup_file_logging env now e1 e2 level (setup_logging level L) = (Inr f, L')"
  shows "f = Some (log_file_path env now)
    \<and> map_of L' msgate_name = Some \<lparr>lo_handlers = [Stderr_Handler, File_Handler (log_file_path env now)],
        lo_level = upper level, lo_propagate = False, lo_disabled = False\<rparr>
    \<and> (\<forall>x. map_of L' (get_logger x) = map_of L (get_logger x))"
  using assms
  by (auto simp: setup_file_logging_def setup_logging_def Let_def on_logger_get getLogger_get new_logger_def
      level_logger_def is_file_handler_def split: option.splits)

lemma set_up_succeeds: "\<exists>f L'. setup_file_logging env now None None level L = (Inr f, L')"
  by (simp add: setup_file_logging_def Let_def)

text \<open>
  Once a log file is open it is kept: set up again on a later day, the function names the file of
  that day and goes on writing to the old one. No other code changes the handlers.
\<close>

lemma log_file_not_rotated:
  assumes "map_of L msgate_name = Some m" "File_Handler p \<in> set (lo_handlers m)"
    and "setup_file_logging env now None None level L = (Inr (Some q), L')"
  shows "q = log_file_path env now \<and> L' = L"
proof -
  have "list_ex is_file_handler (lo_handlers m)"
    using assms(2) by (auto simp: list_ex_iff is_file_handler_def intro!: bexI [of _ "File_Handler p"])
  moreover have "getLogger msgate_name L = L" using assms(1) by (simp add: getLogger_def)
  ultimately show ?thesis
    using assms(1,3) by (auto simp: setup_file_logging_def Let_def split: if_splits)
qed

end
