(* ===== verification/Serve_Command.thy ===== *)
theory Serve_Command
  imports Api_Routes Ops_Watch Digest_Scheduler Log_Reader Cli_Commands Logging_Setup
begin

section \<open>Running the gateway (\_\_main\_\_.py)\<close>

text \<open>
  \<open>cmd_serve\<close> is the start of the server in the order of the code, \<open>cmd_shutdown\<close> what its
  \<open>finally\<close> does, and \<open>serve_process\<close> the whole: between the two the process sleeps until a signal.
  The command line is in \<open>Cli_Args\<close>. The two background threads are
  \<open>background\<close> objects; whether the port of the SMTP server can be bound, the log file opened and
  the Exchange server reached are arguments, and so is the result of \<open>build_app_state\<close>, whose
  migrations change the loggers; what a failed build leaves of them is left out.
\<close>

subsection \<open>Background threads\<close>

text \<open>
  \<open>CapacityWatcher\<close> and \<open>DigestScheduler\<close> start and stop their thread alike: the thread object stays
  after a stop, and whether it has ended by then depends on the tick that was running.
\<close>

record background =
  bg_stop :: bool
  bg_thread :: "bool option"

definition new_background :: background where
  "new_background = \<lparr>bg_stop = False, bg_thread = None\<rparr>"

definition watcher_start :: "background \<Rightarrow> background" where
  "watcher_start b = (if bg_thread b = Some True then b else \<lparr>bg_stop = False, bg_thread = Some True\<rparr>)"

definition watcher_stop :: "bool \<Rightarrow> background \<Rightarrow> background" where
  "watcher_stop ended b = \<lparr>bg_stop = True, bg_thread = map_option (\<lambda>alive. alive \<and> \<not> ended) (bg_thread b)\<rparr>"

definition scheduler_start :: "background \<Rightarrow> background" where
  "scheduler_start b = (if bg_thread b = Some True then b else \<lparr>bg_stop = False, bg_thread = Some True\<rparr>)"

definition scheduler_stop :: "bool \<Rightarrow> background \<Rightarrow> background" where
  "scheduler_stop ended b = \<lparr>bg_stop = True, bg_thread = map_option (\<lambda>alive. alive \<and> \<not> ended) (bg_thread b)\<rparr>"

text \<open>The loops of the two threads: a tick whose exception is logged, then the wait.\<close>

fun watcher_run ::
    "(gateway_config \<Rightarrow> 'w driver) \<Rightarrow> report_lib \<Rightarrow> (bool \<times> watch_io) list \<Rightarrow> watcher \<times> 'w app \<Rightarrow> watcher \<times> 'w app" where
  "watcher_run D L [] st = st"
| "watcher_run D L ((stopped, io) # ios) st =
     (if stopped then st else watcher_run D L ios (snd (watch_tick D L io st)))"

fun scheduler_run ::
    "(gateway_config \<Rightarrow> 'w driver) \<Rightarrow> report_lib \<Rightarrow> (bool \<times> time) list \<Rightarrow> 'w app \<Rightarrow> 'w app" where
  "scheduler_run D L [] a = a"
| "scheduler_run D L ((stopped, now) # ios) a =
     (if stopped then a else scheduler_run D L ios (snd (snd (scheduler_tick D L now a))))"

subsection \<open>Serving\<close>

record serve_args =
  sa_log_level :: pystr
  sa_api_host :: pystr
  sa_api_port :: int

record serve_io =
  si_env :: environ
  si_now :: time
  si_mkdir_error :: "exn option"
  si_open_error :: "exn option"
  si_logs :: "log_file list option"
  si_network :: network
  si_bind_error :: "exn option"

record process =
  pr_logging :: logging
  pr_logs :: "log_file list option"
  pr_app :: "ews_state app option"
  pr_api :: "(pystr \<times> int) option"
  pr_watcher :: "background option"
  pr_scheduler :: "background option"
  pr_stderr :: "pystr list"

text \<open>The options argparse fills in; a port in the environment that is no number ends every command.\<close>

definition parser_defaults :: "environ \<Rightarrow> (pystr \<times> int) res" where
  "parser_defaults env =
     bindE (py_int (env_get env ''MSGATE_API_PORT'' (lit ''8080''))) (\<lambda>port.
       Inr (env_get env ''MSGATE_API_HOST'' (lit ''127.0.0.1''), port))"

definition api_address :: "environ \<Rightarrow> serve_args \<Rightarrow> (pystr \<times> int) res" where
  "api_address env args =
     (let host = (if sa_api_host args \<noteq> [] then sa_api_host args
                  else env_get env ''MSGATE_API_HOST'' (lit ''127.0.0.1''))
      in if sa_api_port args \<noteq> 0 then Inr (host, sa_api_port args)
         else bindE (py_int (env_get env ''MSGATE_API_PORT'' (lit ''8080''))) (\<lambda>port. Inr (host, port)))"

definition api_url :: "pystr \<times> int \<Rightarrow> pystr" where
  "api_url hp = lit ''http://'' @ fst hp @ [58] @ str_int (snd hp)"

text \<open>What is printed for the operator, as texts without their frame.\<close>

definition startup_notices :: "pystr \<times> int \<Rightarrow> 'w app \<Rightarrow> pystr list" where
  "startup_notices hp a =
     (if ews (runtime_get (app_runtime a)) = None
      then [lit '' msgate: Exchange not configured '' @ em_dash @ lit '' open '' @ api_url hp @ lit ''/ui/settings''] else [])
     @ (if \<not> admin_configured a
        then [lit '' msgate: No admin account yet.'',
              lit '' Open '' @ api_url hp @ lit ''/ in your browser to set your password.''] else [])"

text \<open>The components in the order they are started; the SMTP server comes last and may fail to bind.\<close>

definition start_components ::
    "network \<Rightarrow> exn option \<Rightarrow> ews_state app \<Rightarrow> exn option \<times> ews_state app" where
  "start_components N bind_error a =
     (let a1 = prepare_tls N (runtime_get (app_runtime a)) a;
          a2 = a1\<lparr>app_worker := worker_start (app_worker a1)\<rparr>
      in case bind_error of
           Some e \<Rightarrow> (Some e, a2)
         | None \<Rightarrow> (None, serve_start a2))"

definition cmd_serve ::
    "serve_io \<Rightarrow> serve_args \<Rightarrow> ews_state app res \<Rightarrow> logging \<Rightarrow> exn option \<times> process" where
  "cmd_serve io args built T =
     (case setup_file_logging (si_env io) (si_now io) (si_mkdir_error io) (si_open_error io) (sa_log_level args)
             (setup_logging (sa_log_level args) (lgrs T)) of
        (lp, L) \<Rightarrow>
          let p0 = \<lparr>pr_logging = T\<lparr>lgrs := L\<rparr>, pr_logs = si_logs io, pr_app = None, pr_api = None, pr_watcher = None,
                pr_scheduler = None, pr_stderr = []\<rparr>
          in case lp of
               Inl e \<Rightarrow> (Some e, p0)
             | Inr _ \<Rightarrow>
                 let p1 = p0\<lparr>pr_logging := T\<lparr>lgrs := getLogger (get_logger (lit ''cli'')) L\<rparr>,
                       pr_logs := snd (purge_old_logs (si_env io) (si_now io) (si_logs io))\<rparr>
                 in case built of
                      Inl e \<Rightarrow> (Some e, p1)
                    | Inr a \<Rightarrow>
                        let p2 = p1\<lparr>pr_logging := alembic_logging (pr_logging p1)\<rparr>
                        in case api_address (si_env io) args of
                             Inl e \<Rightarrow> (Some e, p2)
                           | Inr hp \<Rightarrow>
                               (case start_components (si_network io) (si_bind_error io) a of
                                  (failed, a') \<Rightarrow>
                                    (failed, p2\<lparr>pr_app := Some a', pr_api := Some hp,
                                       pr_logging := (pr_logging p2)\<lparr>lgrs := get_all late_loggers (lgrs (pr_logging p2))\<rparr>,
                                       pr_watcher := Some (watcher_start new_background),
                                       pr_scheduler := Some (scheduler_start new_background),
                                       pr_stderr := (if failed = None then startup_notices hp a' else [])\<rparr>)))"

text \<open>The booleans say whether the two threads ended within the five seconds of their join.\<close>

definition cmd_shutdown :: "bool \<Rightarrow> bool \<Rightarrow> process \<Rightarrow> int \<times> process" where
  "cmd_shutdown watcher_ended scheduler_ended p =
     (0, p\<lparr>pr_app := map_option serve_stop (pr_app p),
           pr_watcher := map_option (watcher_stop watcher_ended) (pr_watcher p),
           pr_scheduler := map_option (scheduler_stop scheduler_ended) (pr_scheduler p)\<rparr>)"

text \<open>
  The loop between the two: the flag the handlers of SIGINT and SIGTERM set is looked at before every
  nap of 0.2 seconds. The list holds what it is at each look; \<open>None\<close> is a process that goes on.
\<close>

fun naps :: "bool list \<Rightarrow> nat option" where
  "naps [] = None"
| "naps (stop # stops) = (if stop then Some 0 else map_option Suc (naps stops))"

definition serve_process ::
    "serve_io \<Rightarrow> serve_args \<Rightarrow> ews_state app res \<Rightarrow> logging \<Rightarrow> bool list \<Rightarrow> bool \<Rightarrow> bool \<Rightarrow> (int res \<times> process) option" where
  "serve_process io args built T stops watcher_ended scheduler_ended =
     (case cmd_serve io args built T of
        (Some e, p) \<Rightarrow> Some (Inl e, p)
      | (None, p) \<Rightarrow>
          (case naps stops of
             None \<Rightarrow> None
           | Some _ \<Rightarrow>
               (case cmd_shutdown watcher_ended scheduler_ended p of (n, p') \<Rightarrow> Some (Inr n, p'))))"

subsection \<open>From start to stop\<close>

lemma started_threads: "wk_threads q = [] \<Longrightarrow> length (wk_threads (worker_start q)) = nat (wk_workers q)"
    "wk_workers (worker_start q) = wk_workers q" "\<not> wk_stop (worker_start q) \<or> wk_threads q \<noteq> []"
  by (simp_all add: worker_start_def)

lemma worker_start_again: "1 \<le> wk_workers q \<Longrightarrow> worker_start (worker_start q) = worker_start q"
  by (auto simp: worker_start_def)

lemma start_components_spec:
  assumes "start_components N e a = (failed, a')" "1 \<le> wk_workers (app_worker a)" "wk_threads (app_worker a) = []"
  shows "failed = e \<and> length (wk_threads (app_worker a')) = nat (wk_workers (app_worker a))
    \<and> app_settings a' = app_settings a \<and> app_admins a' = app_admins a \<and> app_table a' = app_table a
    \<and> app_runtime a' = app_runtime a
    \<and> (if e = None then smtp_ok a' \<and> smtp_controller a' = Some (fst (create_controller (rt_config (app_runtime a))))
       else smtp_running a' = smtp_running a)"
proof -
  have w: "app_worker (prepare_tls N c a) = app_worker a" "smtp_running (prepare_tls N c a) = smtp_running a"
    "app_table (prepare_tls N c a) = app_table a" for c
    by (simp_all add: prepare_tls_def app_table_def split: option.split)
  then show ?thesis
    using assms started_threads worker_start_again
    by (auto simp: start_components_def Let_def serve_start_def smtp_ok_def runtime_get_def app_table_def
        split: option.splits)
qed

lemma start_components_fails: "fst (start_components N e a) = e"
  by (simp add: start_components_def Let_def split: option.split)

text \<open>The command runs until it is told to stop, and only a failed start ends it with an exception.\<close>

lemma naps_None: "naps stops = None \<longleftrightarrow> True \<notin> set stops"
  by (induction stops) auto

lemma serve_process_ends:
  assumes "cmd_serve io args built T = (failed, p)"
  shows "case serve_process io args built T stops we se of
      None \<Rightarrow> failed = None \<and> True \<notin> set stops
    | Some (r, p') \<Rightarrow> (case failed of Some e \<Rightarrow> r = Inl e \<and> p' = p
        | None \<Rightarrow> True \<in> set stops \<and> r = Inr 0 \<and> p' = snd (cmd_shutdown we se p))"
  using assms naps_None [of stops]
  by (auto simp: serve_process_def cmd_shutdown_def split: option.splits)

text \<open>
  C14. A start brings up every part, and a stop takes all of them down: when \<open>serve\<close> comes
  through, the SMTP server listens on the address and port of the configuration, as many
  worker threads run as configured and both background threads are alive, whether or not the
  Exchange server can be reached; when the SMTP port cannot be bound, the command ends with that
  exception and no mail is accepted. The stop ends with 0, stops the SMTP server, tells every
  thread to stop and leaves messages, settings and administrators alone.
\<close>

theorem serve_starts_and_stops:
  assumes "wk_threads (app_worker a) = []" "1 \<le> wk_workers (app_worker a)" "\<not> smtp_running a"
    and "cmd_serve io args (Inr a) T = (failed, p)" "pr_app p = Some a'"
  shows "failed = si_bind_error io
    \<and> (if failed = None then smtp_ok a'
         \<and> map_option ctl_port (smtp_controller a') = Some (smtp_port (smtp (rt_config (app_runtime a))))
         \<and> map_option ctl_hostname (smtp_controller a') = Some (bind_address (smtp (rt_config (app_runtime a))))
       else \<not> smtp_ok a')
    \<and> length (wk_threads (app_worker a')) = nat (wk_workers (app_worker a))
    \<and> map_option bg_thread (pr_watcher p) = Some (Some True) \<and> map_option bg_thread (pr_scheduler p) = Some (Some True)
    \<and> (\<exists>p' a2. cmd_shutdown we se p = (0, p') \<and> pr_app p' = Some a2 \<and> \<not> smtp_ok a2
        \<and> wk_stop (app_worker a2) \<and> wk_threads (app_worker a2) = []
        \<and> map_option bg_stop (pr_watcher p') = Some True \<and> map_option bg_stop (pr_scheduler p') = Some True
        \<and> app_table a2 = app_table a \<and> app_settings a2 = app_settings a \<and> app_admins a2 = app_admins a)"
proof -
  from assms(4,5) obtain hp where p: "start_components (si_network io) (si_bind_error io) a = (failed, a')"
    "pr_watcher p = Some (watcher_start new_background)" "pr_scheduler p = Some (scheduler_start new_background)"
    by (auto simp: cmd_serve_def Let_def bindE_def split: prod.splits sum.splits)
  note s = start_components_spec [OF p(1) assms(2,1)]
  show ?thesis
    using s p(2,3) assms(3,5)
    by (auto simp: cmd_shutdown_def serve_stop_def worker_stop_def smtp_ok_def create_controller_def app_table_def
        watcher_start_def scheduler_start_def new_background_def watcher_stop_def scheduler_stop_def)
qed

definition toy_serve :: serve_io where
  "toy_serve = \<lparr>si_env = (\<lambda>_. None), si_now = 0, si_mkdir_error = None, si_open_error = None, si_logs = None,
     si_network = old_network, si_bind_error = None\<rparr>"

definition toy_args :: serve_args where
  "toy_args = \<lparr>sa_log_level = lit ''INFO'', sa_api_host = lit ''127.0.0.1'', sa_api_port = 8080\<rparr>"

definition first_logging :: logging where
  "first_logging = \<lparr>root_lgr = new_logger\<lparr>lo_level := lit ''WARNING''\<rparr>, lgrs = get_all import_loggers []\<rparr>"

lemma no_msgate_logger: "map_of (lgrs first_logging) msgate_name = None"
  by (auto simp: first_logging_def get_all_get)

lemma toy_start:
  obtains p a' where "cmd_serve toy_serve toy_args (Inr web_app) first_logging = (None, p)" "pr_app p = Some a'"
proof -
  obtain failed p where run: "cmd_serve toy_serve toy_args (Inr web_app) first_logging = (failed, p)" by fastforce
  obtain f L where "setup_file_logging (\<lambda>_. None) 0 None None (lit ''INFO'') (setup_logging (lit ''INFO'') (lgrs first_logging))
      = (Inr f, L)" using set_up_succeeds by blast
  then obtain a' where "pr_app p = Some a'" "failed = None"
    using run start_components_fails [of old_network None web_app]
    by (auto simp: cmd_serve_def toy_serve_def toy_args_def api_address_def Let_def split: prod.splits)
  with run that show ?thesis by blast
qed

theorem serve_starts_and_stops_witness:
  "\<exists>p a'. cmd_serve toy_serve toy_args (Inr web_app) first_logging = (None, p)
    \<and> pr_app p = Some a' \<and> smtp_ok a' \<and> length (wk_threads (app_worker a')) = 2"
proof -
  have "worker_count (\<lambda>_. None) = 2" by code_simp
  then have w: "wk_workers (app_worker web_app) = 2" "wk_threads (app_worker web_app) = []" "\<not> smtp_running web_app"
    by (simp_all add: web_app_def wire_components_def new_worker_def toy_boot_def)
  obtain p a' where run: "cmd_serve toy_serve toy_args (Inr web_app) first_logging = (None, p)" "pr_app p = Some a'"
    by (rule toy_start)
  with serve_starts_and_stops [OF w(2) _ w(3) run] w(1) show ?thesis by auto
qed

subsection \<open>The log after the start\<close>

lemma level_names: "list_all (\<lambda>lv. upper lv = lv \<and> level_no lv \<noteq> 0)
    [lit ''DEBUG'', lit ''INFO'', lit ''WARNING'', lit ''ERROR'']"
  by code_simp

lemma first_below: "map_of (lgrs first_logging) (get_logger x) = (if x \<in> set import_loggers then Some new_logger else None)"
  by (auto simp: first_logging_def get_all_get)

text \<open>
  C7. The start silences its own log. Set up, the loggers of the program write every record of
  the chosen level or above to the standard error and to the day's log file; but the migrations
  of the same start disable them, all those the imports and the command have made, so for the
  rest of its life the gateway logs nothing of the SMTP side, the queue, Exchange, TLS, webhooks
  and the command itself. Only the watcher and the scheduler, whose loggers are made later,
  still write.
\<close>

theorem start_silences_log:
  assumes "file_logging (si_env io)" "sa_log_level args \<in> {lit ''DEBUG'', lit ''INFO'', lit ''WARNING'', lit ''ERROR''}"
    and "cmd_serve io args (Inr a) first_logging = (failed, p)" "pr_app p = Some a'"
    and "level_no (sa_log_level args) \<le> n"
    and "L = snd (setup_file_logging (si_env io) (si_now io) (si_mkdir_error io) (si_open_error io) (sa_log_level args)
      (setup_logging (sa_log_level args) (lgrs first_logging)))"
    and "hs = [Stderr_Handler, File_Handler (log_file_path (si_env io) (si_now io))]"
  shows "(\<forall>x \<in> set import_loggers. log_record (first_logging\<lparr>lgrs := L\<rparr>) (get_logger x) n = hs)
    \<and> (\<forall>x \<in> set (lit ''cli'' # import_loggers). log_record (pr_logging p) (get_logger x) n = [])
    \<and> (\<forall>x \<in> set late_loggers. log_record (pr_logging p) (get_logger x) n = hs)"
proof -
  let ?T = "first_logging\<lparr>lgrs := getLogger (get_logger (lit ''cli'')) L\<rparr>"
  from assms(3,4,6) obtain f where f: "setup_file_logging (si_env io) (si_now io) (si_mkdir_error io) (si_open_error io)
        (sa_log_level args) (setup_logging (sa_log_level args) (lgrs first_logging)) = (Inr f, L)"
    and p: "pr_logging p = (alembic_logging ?T)\<lparr>lgrs := get_all late_loggers (lgrs (alembic_logging ?T))\<rparr>"
    by (auto simp: cmd_serve_def Let_def split: prod.splits sum.splits)
  note up = set_up_msgate [OF no_msgate_logger assms(1) f]
  obtain m where m: "map_of L msgate_name = Some m" "lo_handlers m = hs" "lo_level m = upper (sa_log_level args)"
      "\<not> lo_propagate m" "\<not> lo_disabled m"
    using up assms(7) that [of "\<lparr>lo_handlers = hs, lo_level = upper (sa_log_level args), lo_propagate = False,
      lo_disabled = False\<rparr>"] by simp
  have lv: "level_no (lo_level m) = level_no (sa_log_level args)" "level_no (lo_level m) \<noteq> 0"
    using assms(2) m(3) level_names by (auto simp: list_all_iff)
  have here: "map_of L (get_logger x) = (if x \<in> set import_loggers then Some new_logger else None)" for x
    using up first_below by simp
  then have plain: "plain_below L" by (simp add: plain_below_def new_logger_def)
  have now: "log_record (first_logging\<lparr>lgrs := L\<rparr>) (get_logger x) n = hs" if "x \<in> set import_loggers" for x
    using record_reaches [of "first_logging\<lparr>lgrs := L\<rparr>" m n x new_logger] that here plain m lv assms(5,7)
    by (simp add: new_logger_def)
  have T: "map_of (lgrs ?T) msgate_name = Some m"
    "\<And>x. map_of (lgrs ?T) (get_logger x) = (if x \<in> set (lit ''cli'' # import_loggers) then Some new_logger else None)"
    using m(1) here by (auto simp: getLogger_get)
  have after: "map_of (lgrs (alembic_logging ?T)) msgate_name = Some (m\<lparr>lo_disabled := True\<rparr>)"
    "\<And>x. x \<in> set (lit ''cli'' # import_loggers) \<Longrightarrow>
      map_of (lgrs (alembic_logging ?T)) (get_logger x) = Some (new_logger\<lparr>lo_disabled := True\<rparr>)"
    "\<And>x. x \<notin> set (lit ''cli'' # import_loggers) \<Longrightarrow> map_of (lgrs (alembic_logging ?T)) (get_logger x) = None"
    using alembic_disables [OF T(1) get_logger_starts(2)] alembic_disables [OF _ get_logger_starts(1)] T(2)
      alembic_absent by simp_all
  have silent: "log_record (pr_logging p) (get_logger x) n = []" if "x \<in> set (lit ''cli'' # import_loggers)" for x
    using disabled_silent [of "pr_logging p" "get_logger x"] after(2) [OF that] by (simp add: p get_all_get)
  have "list_all (\<lambda>x. x \<notin> set (lit ''cli'' # import_loggers)) late_loggers" by code_simp
  then have late: "log_record (pr_logging p) (get_logger x) n = hs" if "x \<in> set late_loggers" for x
    using record_reaches [of "pr_logging p" "m\<lparr>lo_disabled := True\<rparr>" n x new_logger] that after m lv assms(5,7)
      plain_get_all [OF plain_alembic [of ?T]] plain_getLogger [OF plain]
    by (auto simp: p get_all_get list_all_iff new_logger_def)
  show ?thesis using now silent late by blast
qed

theorem start_silences_log_witness:
  "\<exists>p. cmd_serve toy_serve toy_args (Inr web_app) first_logging = (None, p)
    \<and> log_record (pr_logging p) (lit ''msgate.smtp.handler'') 40 = []
    \<and> log_record (pr_logging p) (lit ''msgate.ops.watcher'') 20
        = [Stderr_Handler, File_Handler (lit ''data'', [lit ''logs'', lit ''msgate-19700101.log''])]"
proof -
  obtain p a' where run: "cmd_serve toy_serve toy_args (Inr web_app) first_logging = (None, p)" "pr_app p = Some a'"
    by (rule toy_start)
  have args: "file_logging (si_env toy_serve)"
    "sa_log_level toy_args \<in> {lit ''DEBUG'', lit ''INFO'', lit ''WARNING'', lit ''ERROR''}"
    "level_no (sa_log_level toy_args) \<le> 40" "level_no (sa_log_level toy_args) \<le> 20"
    "log_file_path (si_env toy_serve) (si_now toy_serve) = (lit ''data'', [lit ''logs'', lit ''msgate-19700101.log''])"
    by (simp add: toy_serve_def, code_simp) (simp add: toy_args_def, code_simp, code_simp, code_simp)
  note quiet = start_silences_log [OF args(1,2) run _ refl refl]
  have "lit ''smtp.handler'' \<in> set import_loggers" "lit ''ops.watcher'' \<in> set late_loggers"
    by (simp_all add: import_loggers_def late_loggers_def)
  with quiet [OF args(3)] quiet [OF args(4)] args(5) run(1) show ?thesis
    by (auto simp: get_logger_def lit_def)
qed

end
