(* ===== verification/Cli_Args.thy ===== *)
theory Cli_Args
  imports Serve_Command
begin

section \<open>The command line (\_\_main\_\_.py \<open>main\<close>)\<close>

text \<open>
  What \<open>main\<close> uses of argparse: a parser is the table of its option strings, the command line is
  read from the left, long options may be abbreviated and may have their value after an equals
  sign, and what is not understood ends the process with the exit code 2, a question for help or
  the version with 0. The texts argparse prints and the lone double dash are left out. The parser
  of \<open>float\<close> is an argument, as for the breaker.
\<close>

subsection \<open>Options\<close>

datatype 's option_action =
    Show
  | Set "'s \<Rightarrow> 's"
  | Store "pystr \<Rightarrow> 's \<Rightarrow> 's option"

type_synonym 's options = "(pystr \<times> 's option_action) list"

text \<open>What an argument is taken for; the boolean of an option says that its value follows an equals sign.\<close>

datatype 's token =
    Plain
  | Unknown
  | Ambiguous
  | Opt "'s option_action" "pystr option"
  | Cluster "'s option_action" pystr

definition negative_number :: "pystr \<Rightarrow> bool" where
  "negative_number a =
     (case a of [] \<Rightarrow> False
      | c # ds \<Rightarrow> c = 45 \<and> (case partition_at 46 ds of (whole, dot, fraction) \<Rightarrow>
          list_all is_digit whole \<and> list_all is_digit fraction \<and> (if dot then fraction \<noteq> [] else whole \<noteq> [])))"

text \<open>Long options by prefix; one letter after a single dash, what follows it is a cluster.\<close>

definition abbreviated :: "'s options \<Rightarrow> pystr \<Rightarrow> 's token list" where
  "abbreviated opts a =
     (if startswith a (lit ''--'')
      then (case partition_at 61 a of (name, eq, v) \<Rightarrow>
        map (\<lambda>(_, act). Opt act (if eq then Some v else None)) (filter (\<lambda>(n, _). startswith n name) opts))
      else map (\<lambda>(n, act). if n = take 2 a then Cluster act (drop 2 a) else Opt act None)
        (filter (\<lambda>(n, _). n = take 2 a \<or> startswith n a) opts))"

definition classify :: "'s options \<Rightarrow> pystr \<Rightarrow> 's token" where
  "classify opts a =
     (if a = [] \<or> hd a \<noteq> 45 then Plain
      else case map_of opts a of
        Some act \<Rightarrow> Opt act None
      | None \<Rightarrow>
          if length a = 1 then Plain
          else (case partition_at 61 a of (name, eq, v) \<Rightarrow>
            (case (if eq then map_of opts name else None) of
               Some act \<Rightarrow> Opt act (Some v)
             | None \<Rightarrow>
                 (case abbreviated opts a of
                    [tok] \<Rightarrow> tok
                  | _ # _ # _ \<Rightarrow> Ambiguous
                  | [] \<Rightarrow> if negative_number a \<or> 32 \<in> set a then Plain else Unknown))))"

text \<open>
  A cluster of letters starts with \<open>-h\<close>, the only letter there is: the help is shown unless a value
  is forced upon it.
\<close>

fun cluster_shows :: "pystr \<Rightarrow> bool" where
  "cluster_shows [] = True"
| "cluster_shows (c # cs) = (c \<noteq> 61 \<and> c \<noteq> 45 \<and> (if c = 104 then cluster_shows cs else True))"

subsection \<open>Reading the arguments\<close>

datatype 'r parsed = Exits int | Parsed 'r bool

text \<open>
  A parser without sub-commands: the values it found, and whether something was left over. A
  positional argument is left over, too.
\<close>

fun read_options :: "'s options \<Rightarrow> pystr list \<Rightarrow> 's \<Rightarrow> bool \<Rightarrow> 's parsed" where
  "read_options opts [] s extra = Parsed s extra"
| "read_options opts [a] s extra =
     (case classify opts a of
        Opt Show None \<Rightarrow> Exits 0
      | Cluster Show v \<Rightarrow> if cluster_shows v then Exits 0 else Exits 2
      | Opt (Set f) None \<Rightarrow> Parsed (f s) extra
      | Opt (Store f) (Some v) \<Rightarrow> (case f v s of None \<Rightarrow> Exits 2 | Some s' \<Rightarrow> Parsed s' extra)
      | Plain \<Rightarrow> Parsed s True
      | Unknown \<Rightarrow> Parsed s True
      | _ \<Rightarrow> Exits 2)"
| "read_options opts (a # b # as) s extra =
     (case classify opts a of
        Opt Show None \<Rightarrow> Exits 0
      | Cluster Show v \<Rightarrow> if cluster_shows v then Exits 0 else Exits 2
      | Opt (Set f) None \<Rightarrow> read_options opts (b # as) (f s) extra
      | Opt (Store f) (Some v) \<Rightarrow>
          (case f v s of None \<Rightarrow> Exits 2 | Some s' \<Rightarrow> read_options opts (b # as) s' extra)
      | Opt (Store f) None \<Rightarrow>
          if classify opts b = Plain
          then (case f b s of None \<Rightarrow> Exits 2 | Some s' \<Rightarrow> read_options opts as s' extra)
          else Exits 2
      | Plain \<Rightarrow> read_options opts (b # as) s True
      | Unknown \<Rightarrow> read_options opts (b # as) s True
      | _ \<Rightarrow> Exits 2)"

text \<open>
  A parser with sub-commands: the first positional argument names one, which reads all the rest.
  \<open>none\<close> is the outcome when there is no such argument.
\<close>

fun read_command ::
    "unit options \<Rightarrow> (pystr \<times> (pystr list \<Rightarrow> 'r parsed)) list \<Rightarrow> (bool \<Rightarrow> 'r parsed) \<Rightarrow> pystr list \<Rightarrow> bool \<Rightarrow> 'r parsed" where
  "read_command opts subs none [] extra = none extra"
| "read_command opts subs none (a # as) extra =
     (case classify opts a of
        Opt Show None \<Rightarrow> Exits 0
      | Cluster Show v \<Rightarrow> if cluster_shows v then Exits 0 else Exits 2
      | Plain \<Rightarrow>
          (case map_of subs a of
             None \<Rightarrow> Exits 2
           | Some sub \<Rightarrow> (case sub as of Exits n \<Rightarrow> Exits n | Parsed r left \<Rightarrow> Parsed r (extra \<or> left)))
      | Unknown \<Rightarrow> read_command opts subs none as True
      | _ \<Rightarrow> Exits 2)"

subsection \<open>The parsers of \<open>main\<close>\<close>

record probe_args =
  pa_log_level :: pystr
  pa_timeout :: secs
  pa_apply_cache :: bool

datatype invocation =
    Serve_Cmd serve_args
  | Tls_Probe_Cmd probe_args
  | Admin_Reset_Cmd
  | No_Command

definition help_options :: "'s options" where
  "help_options = [(lit ''-h'', Show), (lit ''--help'', Show)]"

definition log_levels :: "pystr set" where
  "log_levels = {lit ''DEBUG'', lit ''INFO'', lit ''WARNING'', lit ''ERROR''}"

definition serve_options :: "serve_args options" where
  "serve_options = help_options @
     [(lit ''--log-level'', Store (\<lambda>v s. if v \<in> log_levels then Some (s\<lparr>sa_log_level := v\<rparr>) else None)),
      (lit ''--api-host'', Store (\<lambda>v s. Some (s\<lparr>sa_api_host := v\<rparr>))),
      (lit ''--api-port'', Store (\<lambda>v s. case py_int v of Inl _ \<Rightarrow> None | Inr n \<Rightarrow> Some (s\<lparr>sa_api_port := n\<rparr>)))]"

definition serve_defaults :: "pystr \<times> int \<Rightarrow> serve_args" where
  "serve_defaults d = \<lparr>sa_log_level = lit ''INFO'', sa_api_host = fst d, sa_api_port = snd d\<rparr>"

definition probe_options :: "(pystr \<Rightarrow> secs option) \<Rightarrow> probe_args options" where
  "probe_options parse_float = help_options @
     [(lit ''--log-level'', Store (\<lambda>v s. if v \<in> log_levels then Some (s\<lparr>pa_log_level := v\<rparr>) else None)),
      (lit ''--timeout'', Store (\<lambda>v s. map_option (\<lambda>t. s\<lparr>pa_timeout := t\<rparr>) (parse_float v))),
      (lit ''--apply-cache'', Set (\<lambda>s. s\<lparr>pa_apply_cache := True\<rparr>))]"

definition probe_defaults :: probe_args where
  "probe_defaults = \<lparr>pa_log_level = lit ''INFO'', pa_timeout = 10, pa_apply_cache = False\<rparr>"

fun map_parsed :: "('s \<Rightarrow> 'r) \<Rightarrow> 's parsed \<Rightarrow> 'r parsed" where
  "map_parsed f (Exits n) = Exits n"
| "map_parsed f (Parsed s extra) = Parsed (f s) extra"

text \<open>\<open>admin\<close> needs its own sub-command, \<open>main\<close> does not.\<close>

definition admin_parser :: "pystr list \<Rightarrow> invocation parsed" where
  "admin_parser args = read_command help_options
     [(lit ''reset-password'', \<lambda>as. read_options help_options as Admin_Reset_Cmd False)] (\<lambda>_. Exits 2) args False"

definition main_parser ::
    "(pystr \<Rightarrow> secs option) \<Rightarrow> pystr \<times> int \<Rightarrow> pystr list \<Rightarrow> invocation parsed" where
  "main_parser parse_float d args = read_command (help_options @ [(lit ''--version'', Show)])
     [(lit ''serve'', \<lambda>as. map_parsed Serve_Cmd (read_options serve_options as (serve_defaults d) False)),
      (lit ''tls-probe'', \<lambda>as. map_parsed Tls_Probe_Cmd (read_options (probe_options parse_float) as probe_defaults False)),
      (lit ''admin'', admin_parser)]
     (\<lambda>extra. Parsed No_Command extra) args False"

text \<open>
  The exit code of \<open>main\<close>: the defaults are computed first, what is left over is an error, without a
  command the help is shown, and otherwise the code is the one the chosen function returns.
\<close>

definition main ::
    "(pystr \<Rightarrow> secs option) \<Rightarrow> environ \<Rightarrow> (invocation \<Rightarrow> int res) \<Rightarrow> pystr list \<Rightarrow> int res" where
  "main parse_float env run args =
     bindE (parser_defaults env) (\<lambda>d.
       case main_parser parse_float d args of
         Exits n \<Rightarrow> Inr n
       | Parsed c extra \<Rightarrow> if extra then Inr 2 else if c = No_Command then Inr 0 else run c)"

text \<open>The functions \<open>set_defaults\<close> names.\<close>

definition run_command ::
    "(serve_args \<Rightarrow> int res) \<Rightarrow> (probe_args \<Rightarrow> int res) \<Rightarrow> int res \<Rightarrow> invocation \<Rightarrow> int res" where
  "run_command serve probe reset c =
     (case c of Serve_Cmd a \<Rightarrow> serve a | Tls_Probe_Cmd p \<Rightarrow> probe p | Admin_Reset_Cmd \<Rightarrow> reset | No_Command \<Rightarrow> Inr 0)"

subsection \<open>Numbers\<close>

lemma digits_no_space: "\<not> is_space (hd (digits n)) \<and> \<not> is_space (last (digits n))"
proof -
  have "is_digit (hd (digits n))" "is_digit (last (digits n))"
    using digits_are_digits hd_in_set last_in_set digits_not_Nil by blast+
  then show ?thesis by (auto simp: is_digit_def is_space_def)
qed

lemma digit_groups_digits: "digit_groups (digits n) = Some (digits n)"
proof -
  have "95 \<notin> set (digits n)" using digits_are_digits [of 95 n] by (auto simp: is_digit_def)
  moreover have "list_all is_digit (digits n)" using digits_are_digits by (auto simp: list_all_iff)
  ultimately show ?thesis by (simp add: digit_groups_def split_at_single)
qed

lemma digits_no_sign: "startswith (digits n) (lit ''-'') = False" "startswith (digits n) (lit ''+'') = False"
proof -
  have "is_digit (hd (digits n))" using digits_are_digits hd_in_set digits_not_Nil by blast
  then show "startswith (digits n) (lit ''-'') = False" "startswith (digits n) (lit ''+'') = False"
    by (cases "digits n"; auto simp: startswith_def is_digit_def lit_def)+
qed

lemma py_int_str_int [simp]: "py_int (str_int i) = Inr i"
proof (cases "i < 0")
  case True
  have "strip (45 # digits (nat (- i))) = 45 # digits (nat (- i))"
    using digits_no_space [of "nat (- i)"] by (intro strip_id) (simp add: is_space_def)
  then show ?thesis using True
    by (simp add: py_int_def str_int_def startswith_def lit_def digit_groups_digits Let_def)
next
  case False
  have "strip (digits (nat i)) = digits (nat i)"
    using digits_no_space [of "nat i"] by (intro strip_id) simp
  then show ?thesis using False
    by (simp add: py_int_def str_int_def digits_no_sign digit_groups_digits Let_def)
qed

subsection \<open>What the commands get\<close>

lemma classify_equals:
  assumes "map_of opts name = Some act" "map_of opts (name @ 61 # v) = None"
    and "hd name = 45" "name \<noteq> []" "61 \<notin> set name"
  shows "classify opts (name @ 61 # v) = Opt act (Some v)"
  using assms partition_at_append [OF assms(5), of v] by (simp add: classify_def)

lemmas option_tables = serve_options_def probe_options_def help_options_def

lemma classify_serve:
  "classify serve_options (lit ''--log-level='' @ v)
     = Opt (Store (\<lambda>v s. if v \<in> log_levels then Some (s\<lparr>sa_log_level := v\<rparr>) else None)) (Some v)"
  "classify serve_options (lit ''--api-host='' @ v) = Opt (Store (\<lambda>v s. Some (s\<lparr>sa_api_host := v\<rparr>))) (Some v)"
  "classify serve_options (lit ''--api-port='' @ v)
     = Opt (Store (\<lambda>v s. case py_int v of Inl _ \<Rightarrow> None | Inr n \<Rightarrow> Some (s\<lparr>sa_api_port := n\<rparr>))) (Some v)"
proof -
  have eq: "lit ''--log-level='' @ v = lit ''--log-level'' @ 61 # v" "lit ''--api-host='' @ v = lit ''--api-host'' @ 61 # v"
    "lit ''--api-port='' @ v = lit ''--api-port'' @ 61 # v" by (simp_all add: lit_def)
  show "classify serve_options (lit ''--log-level='' @ v)
     = Opt (Store (\<lambda>v s. if v \<in> log_levels then Some (s\<lparr>sa_log_level := v\<rparr>) else None)) (Some v)"
    unfolding eq(1) by (rule classify_equals) (simp_all add: option_tables lit_def)
  show "classify serve_options (lit ''--api-host='' @ v) = Opt (Store (\<lambda>v s. Some (s\<lparr>sa_api_host := v\<rparr>))) (Some v)"
    unfolding eq(2) by (rule classify_equals) (simp_all add: option_tables lit_def)
  show "classify serve_options (lit ''--api-port='' @ v)
     = Opt (Store (\<lambda>v s. case py_int v of Inl _ \<Rightarrow> None | Inr n \<Rightarrow> Some (s\<lparr>sa_api_port := n\<rparr>))) (Some v)"
    unfolding eq(3) by (rule classify_equals) (simp_all add: option_tables lit_def)
qed

lemma classify_probe:
  "classify (probe_options pf) (lit ''--log-level='' @ v)
     = Opt (Store (\<lambda>v s. if v \<in> log_levels then Some (s\<lparr>pa_log_level := v\<rparr>) else None)) (Some v)"
  "classify (probe_options pf) (lit ''--timeout='' @ v) = Opt (Store (\<lambda>v s. map_option (\<lambda>t. s\<lparr>pa_timeout := t\<rparr>) (pf v))) (Some v)"
  "classify (probe_options pf) (lit ''--apply-cache'') = Opt (Set (\<lambda>s. s\<lparr>pa_apply_cache := True\<rparr>)) None"
proof -
  have eq: "lit ''--log-level='' @ v = lit ''--log-level'' @ 61 # v" "lit ''--timeout='' @ v = lit ''--timeout'' @ 61 # v"
    by (simp_all add: lit_def)
  show "classify (probe_options pf) (lit ''--log-level='' @ v)
     = Opt (Store (\<lambda>v s. if v \<in> log_levels then Some (s\<lparr>pa_log_level := v\<rparr>) else None)) (Some v)"
    unfolding eq(1) by (rule classify_equals) (simp_all add: option_tables lit_def)
  show "classify (probe_options pf) (lit ''--timeout='' @ v) = Opt (Store (\<lambda>v s. map_option (\<lambda>t. s\<lparr>pa_timeout := t\<rparr>) (pf v))) (Some v)"
    unfolding eq(2) by (rule classify_equals) (simp_all add: option_tables lit_def)
  show "classify (probe_options pf) (lit ''--apply-cache'') = Opt (Set (\<lambda>s. s\<lparr>pa_apply_cache := True\<rparr>)) None"
    by (simp add: classify_def option_tables lit_def)
qed

lemma classify_word: "a \<noteq> [] \<Longrightarrow> hd a \<noteq> 45 \<Longrightarrow> classify opts a = Plain"
  by (simp add: classify_def)

text \<open>A command line that says everything.\<close>

definition serve_line :: "serve_args \<Rightarrow> pystr list" where
  "serve_line a = [lit ''serve'', lit ''--log-level='' @ sa_log_level a, lit ''--api-host='' @ sa_api_host a,
     lit ''--api-port='' @ str_int (sa_api_port a)]"

definition probe_command :: "pystr \<Rightarrow> probe_args \<Rightarrow> pystr list" where
  "probe_command timeout p = [lit ''tls-probe'', lit ''--log-level='' @ pa_log_level p, lit ''--timeout='' @ timeout]
     @ (if pa_apply_cache p then [lit ''--apply-cache''] else [])"

lemma serve_line_read:
  assumes "sa_log_level a \<in> log_levels"
  shows "main_parser pf d (serve_line a) = Parsed (Serve_Cmd a) False"
proof -
  have w: "classify opts (lit ''serve'') = Plain" for opts :: "unit options"
    by (rule classify_word) (simp_all add: lit_def)
  show ?thesis
    using assms by (simp add: main_parser_def serve_line_def w classify_serve serve_defaults_def)
qed

lemma probe_command_read:
  assumes "pa_log_level p \<in> log_levels" "pf timeout = Some (pa_timeout p)"
  shows "main_parser pf d (probe_command timeout p) = Parsed (Tls_Probe_Cmd p) False"
proof -
  have w: "classify opts (lit ''tls-probe'') = Plain" for opts :: "unit options"
    by (rule classify_word) (simp_all add: lit_def)
  have ne: "lit ''tls-probe'' \<noteq> lit ''serve''" by (simp add: lit_def)
  show ?thesis
    using assms
    by (cases "pa_apply_cache p") (simp_all add: main_parser_def probe_command_def w ne classify_probe probe_defaults_def)
qed

lemma words_read:
  "main_parser pf d [lit ''serve''] = Parsed (Serve_Cmd (serve_defaults d)) False"
  "main_parser pf d [lit ''admin'', lit ''reset-password''] = Parsed Admin_Reset_Cmd False"
  "main_parser pf d [lit ''admin''] = Exits 2" "main_parser pf d [] = Parsed No_Command False"
proof -
  have w: "classify opts (lit ''serve'') = Plain" "classify opts (lit ''admin'') = Plain"
    "classify opts (lit ''reset-password'') = Plain" for opts :: "unit options"
    by (rule classify_word; simp add: lit_def)+
  have ne: "lit ''admin'' \<noteq> lit ''serve''" "lit ''admin'' \<noteq> lit ''tls-probe''" by (simp_all add: lit_def)
  show "main_parser pf d [lit ''serve''] = Parsed (Serve_Cmd (serve_defaults d)) False"
    by (simp add: main_parser_def w)
  show "main_parser pf d [lit ''admin'', lit ''reset-password''] = Parsed Admin_Reset_Cmd False"
    "main_parser pf d [lit ''admin''] = Exits 2" "main_parser pf d [] = Parsed No_Command False"
    by (simp_all add: main_parser_def admin_parser_def w ne)
qed

text \<open>
  C39. What is written on the command line is what the command gets: with every option written out,
  whatever the host and the port, \<open>serve\<close> runs with exactly these options and so does \<open>tls-probe\<close>;
  what is not written comes from the environment or is the default; and without a command the help
  is shown. All this holds only while the environment's port is a number: otherwise every command
  ends with an exception, the one that resets the password too.
\<close>

theorem command_line_reads_back:
  assumes "sa_log_level a \<in> log_levels" "pa_log_level p \<in> log_levels" "pf timeout = Some (pa_timeout p)"
  shows "case parser_defaults env of
      Inl e \<Rightarrow> main pf env run args = Inl e
    | Inr d \<Rightarrow> main pf env run (serve_line a) = run (Serve_Cmd a)
        \<and> main pf env run (probe_command timeout p) = run (Tls_Probe_Cmd p)
        \<and> main pf env run [lit ''serve''] = run (Serve_Cmd (serve_defaults d))
        \<and> main pf env run [lit ''admin'', lit ''reset-password''] = run Admin_Reset_Cmd
        \<and> main pf env run [] = Inr 0"
  using assms by (cases "parser_defaults env") (simp_all add: main_def serve_line_read probe_command_read words_read)

theorem command_line_reads_back_witness:
  "main (\<lambda>_. Some 3) (\<lambda>_. None) (\<lambda>c. Inr (if c = Admin_Reset_Cmd then 7 else 5))
      [lit ''admin'', lit ''reset-password''] = Inr 7"
proof -
  have "parser_defaults (\<lambda>_. None) = Inr (lit ''127.0.0.1'', 8080)"
    by (simp add: parser_defaults_def env_get_def) code_simp
  moreover have "lit ''INFO'' \<in> log_levels" by (simp add: log_levels_def)
  ultimately show ?thesis
    using command_line_reads_back [of toy_args "\<lparr>pa_log_level = lit ''INFO'', pa_timeout = 3, pa_apply_cache = False\<rparr>"
      "\<lambda>_. Some 3" "[]" "\<lambda>_. None" "\<lambda>c. Inr (if c = Admin_Reset_Cmd then 7 else 5)" "[]"]
    by (simp add: toy_args_def)
qed

text \<open>Every command line ends in a usage error, a help text, or a command whose log level is one of the four.\<close>

definition level_ok :: "invocation \<Rightarrow> bool" where
  "level_ok c = (case c of Serve_Cmd a \<Rightarrow> sa_log_level a \<in> log_levels
     | Tls_Probe_Cmd p \<Rightarrow> pa_log_level p \<in> log_levels | _ \<Rightarrow> True)"

definition kept_by :: "('s \<Rightarrow> bool) \<Rightarrow> 's option_action \<Rightarrow> bool" where
  "kept_by I act \<longleftrightarrow> (case act of Show \<Rightarrow> True | Set f \<Rightarrow> \<forall>s. I s \<longrightarrow> I (f s)
     | Store f \<Rightarrow> \<forall>v s s'. I s \<longrightarrow> f v s = Some s' \<longrightarrow> I s')"

lemma abbreviated_acts: "Opt act v \<in> set (abbreviated opts a) \<Longrightarrow> act \<in> snd ` set opts"
  by (force simp: abbreviated_def split: if_splits prod.splits)

lemma classify_acts: "classify opts a = Opt act v \<Longrightarrow> act \<in> snd ` set opts"
  using abbreviated_acts [of act v opts a]
  by (force simp: classify_def dest: map_of_SomeD split: if_splits option.splits prod.splits list.splits)

lemma read_options_outcome:
  assumes "\<And>act. act \<in> snd ` set opts \<Longrightarrow> kept_by I act" "I s"
  shows "case read_options opts args s extra of Exits n \<Rightarrow> n \<in> {0, 2} | Parsed s' _ \<Rightarrow> I s'"
  using assms
proof (induction opts args s extra rule: read_options.induct)
  case (2 opts a s extra)
  then show ?case using classify_acts [of opts a]
    by (fastforce simp: kept_by_def split: token.splits option_action.splits option.splits)
next
  case (3 opts a b as s extra)
  then show ?case using classify_acts [of opts a]
    by (fastforce simp: kept_by_def split: token.splits option_action.splits option.splits)
qed simp

lemma read_command_outcome:
  assumes "\<And>name sub as. (name, sub) \<in> set subs \<Longrightarrow> (case sub as of Exits n \<Rightarrow> n \<in> {0, 2} | Parsed c _ \<Rightarrow> I c)"
    and "\<And>e. case none e of Exits n \<Rightarrow> n \<in> {0, 2} | Parsed c _ \<Rightarrow> I c"
  shows "case read_command opts subs none args extra of Exits n \<Rightarrow> n \<in> {0, 2} | Parsed c _ \<Rightarrow> I c"
proof (induction args arbitrary: extra)
  case (Cons a as)
  have sub: "map_of subs a = Some sub \<Longrightarrow> (case sub as of Exits n \<Rightarrow> n \<in> {0, 2} | Parsed c _ \<Rightarrow> I c)" for sub
    using assms(1) map_of_SomeD by metis
  show ?case using Cons sub
    by (auto split: token.split option_action.split option.split parsed.split)
qed (simp add: assms(2))

lemma map_parsed_outcome:
  "(case r of Exits n \<Rightarrow> P n | Parsed s x \<Rightarrow> Q (f s)) \<Longrightarrow> (case map_parsed f r of Exits n \<Rightarrow> P n | Parsed c x \<Rightarrow> Q c)"
  by (cases r) simp_all

lemma main_parser_outcome:
  "case main_parser pf d args of Exits n \<Rightarrow> n \<in> {0, 2} | Parsed c _ \<Rightarrow> level_ok c"
proof -
  have serve: "case map_parsed Serve_Cmd (read_options serve_options as (serve_defaults d) False) of
      Exits n \<Rightarrow> n \<in> {0, 2} | Parsed c _ \<Rightarrow> level_ok c" for as
    by (intro map_parsed_outcome, rule read_options_outcome [where I = "\<lambda>a. level_ok (Serve_Cmd a)", simplified])
      (auto simp: option_tables kept_by_def level_ok_def serve_defaults_def log_levels_def split: if_splits sum.splits)
  have probe: "case map_parsed Tls_Probe_Cmd (read_options (probe_options pf) as probe_defaults False) of
      Exits n \<Rightarrow> n \<in> {0, 2} | Parsed c _ \<Rightarrow> level_ok c" for as
    by (intro map_parsed_outcome, rule read_options_outcome [where I = "\<lambda>a. level_ok (Tls_Probe_Cmd a)", simplified])
      (auto simp: option_tables kept_by_def level_ok_def probe_defaults_def log_levels_def split: if_splits)
  have reset: "case read_options help_options as Admin_Reset_Cmd False of
      Exits n \<Rightarrow> n \<in> {0, 2} | Parsed c _ \<Rightarrow> level_ok c" for as
  proof -
    have "case read_options help_options as Admin_Reset_Cmd False of
      Exits n \<Rightarrow> n \<in> {0, 2} | Parsed c _ \<Rightarrow> c = Admin_Reset_Cmd"
      by (rule read_options_outcome) (auto simp: help_options_def kept_by_def)
    then show ?thesis by (auto simp: level_ok_def split: parsed.splits)
  qed
  have admin: "case admin_parser as of Exits n \<Rightarrow> n \<in> {0, 2} | Parsed c _ \<Rightarrow> level_ok c" for as
    unfolding admin_parser_def by (rule read_command_outcome) (use reset in auto)
  show ?thesis
    unfolding main_parser_def by (rule read_command_outcome) (use serve probe admin in \<open>auto simp: level_ok_def\<close>)
qed

lemma main_outcome:
  "case main pf env run args of
     Inl e \<Rightarrow> parser_defaults env = Inl e \<or> (\<exists>c. level_ok c \<and> run c = Inl e)
   | Inr n \<Rightarrow> n \<in> {0, 2} \<or> (\<exists>c. level_ok c \<and> run c = Inr n)"
proof (cases "parser_defaults env")
  case (Inr d)
  then show ?thesis using main_parser_outcome [of pf d args]
    by (auto simp: main_def split: sum.splits parsed.splits)
qed (simp add: main_def)

end
