(* ===== verification/Web_App.thy ===== *)
theory Web_App
  imports Web_Auth
begin

section \<open>The web application (api/app.py, auth/web_middleware.py)\<close>

text \<open>
  \<open>create_app\<close> puts the session middleware around the gate and the gate around the routers.
  The routes are a table, in the order the routers are included; matching a path against a
  template is the job of Starlette and an argument (\<open>match_law\<close>). A \<open>visit\<close> is one request of a
  browser that keeps the cookie it is given; \<open>serve_request\<close> is what the application does
  with it: the session from the cookie, the gate, the route, and the session back into the
  cookie. A route that is no form of the login leaves the session and the administrators alone.
\<close>

subsection \<open>The routes\<close>

type_synonym route_entry = "pystr \<times> pystr \<times> pystr"

definition route :: "string \<Rightarrow> string \<Rightarrow> string \<Rightarrow> route_entry" where
  "route verb path handler = (lit verb, lit path, lit handler)"

definition app_routes :: "route_entry list" where
  "app_routes = [route ''GET'' ''/openapi.json'' ''openapi'', route ''GET'' ''/docs'' ''swagger_ui'',
     route ''GET'' ''/redoc'' ''redoc_ui'']"

definition auth_ui_routes :: "route_entry list" where
  "auth_ui_routes = [route ''GET'' ''/ui/setup'' ''ui_setup'', route ''POST'' ''/ui/auth/setup'' ''auth_setup'',
     route ''GET'' ''/ui/login'' ''ui_login'', route ''POST'' ''/ui/auth/login'' ''auth_login'',
     route ''GET'' ''/ui/change-password'' ''ui_change_password'',
     route ''POST'' ''/ui/auth/change-password'' ''auth_change_password'',
     route ''POST'' ''/ui/auth/logout'' ''auth_logout'', route ''GET'' ''/ui/help'' ''ui_help'']"

definition ui_routes :: "route_entry list" where
  "ui_routes = [route ''GET'' ''/'' ''ui_dashboard'', route ''GET'' ''/ui/messages'' ''ui_messages'',
     route ''GET'' ''/ui/tools'' ''ui_tools'', route ''GET'' ''/ui/settings'' ''ui_settings'',
     route ''GET'' ''/ui/account'' ''ui_account'', route ''POST'' ''/ui/account/alerts'' ''ui_account_alerts'',
     route ''POST'' ''/ui/account/digests'' ''ui_account_digests'',
     route ''POST'' ''/ui/account/digests/send'' ''ui_account_digests_send'',
     route ''GET'' ''/ui/partials/stats'' ''partial_stats'']"

definition logs_routes :: "route_entry list" where
  "logs_routes = [route ''GET'' ''/ui/logs'' ''ui_logs'']"

definition message_table_routes :: "route_entry list" where
  "message_table_routes = [route ''GET'' ''/ui/partials/message-table'' ''partial_message_table'']"

definition health_routes :: "route_entry list" where
  "health_routes = [route ''GET'' ''/healthz'' ''healthz'', route ''GET'' ''/readyz'' ''readyz'']"

definition metrics_routes :: "route_entry list" where
  "metrics_routes = [route ''GET'' ''/metrics'' ''metrics'']"

definition ha_routes :: "route_entry list" where
  "ha_routes = [route ''GET'' ''/api/v1/ha/status'' ''ha_status'']"

definition stats_routes :: "route_entry list" where
  "stats_routes = [route ''GET'' ''/api/v1/stats'' ''get_stats'']"

definition config_routes :: "route_entry list" where
  "config_routes = [route ''GET'' ''/api/v1/config'' ''get_config'', route ''PUT'' ''/api/v1/config'' ''put_config'',
     route ''POST'' ''/api/v1/config/export'' ''export_gateway_config'',
     route ''POST'' ''/api/v1/config/import'' ''import_gateway_config'']"

definition queue_routes :: "route_entry list" where
  "queue_routes = [route ''GET'' ''/api/v1/queue'' ''get_queue'',
     route ''GET'' ''/api/v1/messages/{message_id}'' ''get_message'',
     route ''GET'' ''/api/v1/ui/messages/{message_id}'' ''ui_message_detail'']"

definition messages_routes :: "route_entry list" where
  "messages_routes = [route ''POST'' ''/api/v1/messages/test'' ''send_test_email'']"

definition tools_routes :: "route_entry list" where
  "tools_routes = [route ''POST'' ''/api/v1/tools/auth-simulate'' ''auth_simulate'',
     route ''GET'' ''/api/v1/tools/backend-health'' ''backend_health'',
     route ''POST'' ''/api/v1/tools/ews-health'' ''ews_health'',
     route ''POST'' ''/api/v1/tools/send-test'' ''send_test_ui'']"

definition create_app :: "route_entry list" where
  "create_app = app_routes @ auth_ui_routes @ ui_routes @ logs_routes @ message_table_routes
     @ health_routes @ metrics_routes @ ha_routes @ stats_routes @ config_routes @ queue_routes
     @ messages_routes @ tools_routes"

text \<open>The first entry of the method whose template matches.\<close>

definition handler_for :: "(pystr \<Rightarrow> pystr \<Rightarrow> bool) \<Rightarrow> pystr \<Rightarrow> pystr \<Rightarrow> pystr option" where
  "handler_for M verb path =
     map_option (\<lambda>(_, _, h). h) (find (\<lambda>(v, template, _). v = verb \<and> M template path) create_app)"

text \<open>
  What Starlette documents: a template without a parameter matches itself only, and one with a
  parameter (an opening brace, 123) only paths that begin like it.
\<close>

definition match_law :: "(pystr \<Rightarrow> pystr \<Rightarrow> bool) \<Rightarrow> bool" where
  "match_law M \<longleftrightarrow> (\<forall>template path. if 123 \<in> set template
     then (if M template path then startswith path (takeWhile (\<lambda>c. c \<noteq> 123) template) else True)
     else M template path = (path = template))"

subsection \<open>One request\<close>

datatype visit =
    Setup_Form pystr pystr
  | Login_Form pystr
  | Change_Form pystr pystr pystr pystr
  | Logout_Form
  | Open_Page pystr

record visit_io =
  vi_now :: int
  vi_salt :: bytes
  vi_accept :: "pystr option"
  vi_hx :: "pystr option"
  vi_prefix :: "pystr option"
  vi_page :: web_response

fun visit_path :: "visit \<Rightarrow> pystr" where
  "visit_path (Setup_Form _ _) = auth_prefix @ lit ''/setup''"
| "visit_path (Login_Form _) = auth_prefix @ lit ''/login''"
| "visit_path (Change_Form _ _ _ _) = auth_prefix @ lit ''/change-password''"
| "visit_path Logout_Form = auth_prefix @ lit ''/logout''"
| "visit_path (Open_Page p) = p"

definition visit_request :: "visit_io \<Rightarrow> visit \<Rightarrow> pystr option \<Rightarrow> web_request" where
  "visit_request io v cookie = \<lparr>req_path = visit_path v, req_accept = vi_accept io, req_hx = vi_hx io,
     req_prefix = vi_prefix io, req_cookie = cookie\<rparr>"

fun run_route ::
    "crypto \<Rightarrow> (pystr \<Rightarrow> pystr) \<Rightarrow> environ \<Rightarrow> visit_io \<Rightarrow> web_request \<Rightarrow> visit \<Rightarrow> session \<Rightarrow> admin_table
      \<Rightarrow> route_result" where
  "run_route C quote_url env io req (Setup_Form p q) s t = auth_setup C (vi_salt io) env req p q s t"
| "run_route C quote_url env io req (Login_Form p) s t = auth_login C env req p s t"
| "run_route C quote_url env io req (Change_Form cur p q nxt) s t =
     auth_change_password C (vi_salt io) quote_url env req cur p q nxt s t"
| "run_route C quote_url env io req Logout_Form s t = auth_logout env req s t"
| "run_route C quote_url env io req (Open_Page p) s t = (vi_page io, s, t)"

text \<open>\<open>None\<close> is the answer 500: an exception passes the middleware and the cookie is left.\<close>

definition serve_request ::
    "crypto \<Rightarrow> secret_box \<Rightarrow> (pystr \<Rightarrow> pystr) \<Rightarrow> environ \<Rightarrow> visit_io \<Rightarrow> visit \<Rightarrow> pystr option \<times> admin_table
      \<Rightarrow> web_response option \<times> pystr option \<times> admin_table" where
  "serve_request C box quote_url env io v st =
     (case st of (cookie, t) \<Rightarrow>
        let req = visit_request io v cookie
        in case bindE (load_session C box (vi_now io) req) (\<lambda>s0.
             bindE (auth_gate C box env (vi_now io) t req) (\<lambda>g.
               let r = (case g of
                     Inl resp \<Rightarrow> (resp, s0, t)
                   | Inr None \<Rightarrow> run_route C quote_url env io req v s0 t
                   | Inr (Some s) \<Rightarrow> run_route C quote_url env io req v s t)
               in case r of (resp, s1, t1) \<Rightarrow>
                 bindE (save_session C box (vi_now io) s1) (\<lambda>c. Inr (resp, c, t1)))) of
           Inl e \<Rightarrow> (None, cookie, t)
         | Inr (resp, c, t1) \<Rightarrow> (Some resp, c, t1))"

fun browse ::
    "crypto \<Rightarrow> secret_box \<Rightarrow> (pystr \<Rightarrow> pystr) \<Rightarrow> environ \<Rightarrow> (visit_io \<times> visit) list
      \<Rightarrow> pystr option \<times> admin_table \<Rightarrow> pystr option \<times> admin_table" where
  "browse C box quote_url env [] st = st"
| "browse C box quote_url env ((io, v) # vs) st =
     browse C box quote_url env vs (snd (serve_request C box quote_url env io v st))"

subsection \<open>What is open without a login\<close>

definition open_handlers :: "bool \<Rightarrow> pystr list" where
  "open_handlers has_admin = map lit ([''healthz'', ''readyz'', ''metrics''] @
     (if has_admin then [''ui_login'', ''auth_login''] else [''ui_setup'', ''auth_setup'']))"

text \<open>The check of the table, entry by entry.\<close>

definition related :: "pystr \<Rightarrow> pystr \<Rightarrow> bool" where
  "related a b \<longleftrightarrow> startswith a b \<or> startswith b a"

definition entry_closed :: "route_entry \<Rightarrow> bool" where
  "entry_closed e = (case e of (v, template, h) \<Rightarrow>
     if 123 \<in> set template
     then list_all (\<lambda>p. \<not> related (takeWhile (\<lambda>c. c \<noteq> 123) template) p)
       (public_paths @ [setup_path, login_path, auth_prefix @ lit ''/setup'', auth_prefix @ lit ''/login''])
     else (if template \<in> set public_paths then h \<in> set (open_handlers True) \<inter> set (open_handlers False) else True)
       \<and> (if is_login template then h \<in> set (open_handlers True) else True)
       \<and> (if is_setup template then h \<in> set (open_handlers False) else True))"

lemma entries_closed: "list_all entry_closed create_app"
  by code_simp

lemma startswith_related: "startswith p a \<Longrightarrow> startswith p b \<Longrightarrow> related a b"
  by (auto simp: related_def startswith_prefix dest: prefix_same_cases)

lemma startswith_refl: "startswith p p"
  by (simp add: startswith_prefix)

lemma find_member: "find P xs = Some x \<Longrightarrow> x \<in> set xs \<and> P x"
  by (induction xs) (auto split: if_splits)

lemma handler_open:
  assumes law: "match_law M" and h: "handler_for M verb p = Some h"
    and open_path: "p \<in> set public_paths \<or> (if has_admin then is_login p else is_setup p)"
  shows "h \<in> set (open_handlers has_admin)"
proof -
  from h obtain v template where "find (\<lambda>(v, template, _). v = verb \<and> M template p) create_app = Some (v, template, h)"
    by (auto simp: handler_for_def)
  from find_member [OF this] have e: "(v, template, h) \<in> set create_app" "M template p"
    by (rule conjunct1, simp)
  then have ok: "entry_closed (v, template, h)" using entries_closed by (simp add: list_all_iff)
  show ?thesis
  proof (cases "123 \<in> set template")
    case True
    then have pre: "startswith p (takeWhile (\<lambda>c. c \<noteq> 123) template)"
      using law e(2) unfolding match_law_def by metis
    from open_path have "\<exists>q\<in>set (public_paths @ [setup_path, login_path, auth_prefix @ lit ''/setup'',
        auth_prefix @ lit ''/login'']). startswith p q"
      using startswith_refl [of p] by (auto simp: is_login_def is_setup_def split: if_splits)
    then obtain q where "q \<in> set (public_paths @ [setup_path, login_path, auth_prefix @ lit ''/setup'',
        auth_prefix @ lit ''/login''])" "startswith p q" by blast
    moreover from startswith_related [OF pre this(2)] have "related (takeWhile (\<lambda>c. c \<noteq> 123) template) q" .
    ultimately have False using ok True by (auto simp: entry_closed_def list_all_iff)
    then show ?thesis ..
  next
    case False
    then have "p = template" using law e(2) unfolding match_law_def by metis
    then show ?thesis using ok open_path False
      by (cases has_admin) (auto simp: entry_closed_def split: if_splits)
  qed
qed


definition exact_match :: "pystr \<Rightarrow> pystr \<Rightarrow> bool" where
  "exact_match template path = (if 123 \<in> set template
     then startswith path (takeWhile (\<lambda>c. c \<noteq> 123) template) else path = template)"

lemma exact_match_law: "match_law exact_match"
  by (simp add: match_law_def exact_match_def)

definition probe_request :: web_request where
  "probe_request = \<lparr>req_path = lit ''/metrics'', req_accept = None, req_hx = None, req_prefix = None, req_cookie = None\<rparr>"


subsection \<open>A session is earned\<close>

text \<open>
  What makes a browser logged in: the form with the right password, or the set-up; and what
  ends it: the logout. \<open>earned\<close> follows a list of visits.
\<close>

definition earns :: "crypto \<Rightarrow> admin_table \<Rightarrow> visit \<Rightarrow> bool" where
  "earns C t v = (case v of
       Login_Form p \<Rightarrow> check_admin_password C p t
     | Setup_Form p q \<Rightarrow> \<not> admin_exists t \<and> p = q \<and> 8 \<le> length p
     | _ \<Rightarrow> False)"

fun earned ::
    "crypto \<Rightarrow> secret_box \<Rightarrow> (pystr \<Rightarrow> pystr) \<Rightarrow> environ \<Rightarrow> (visit_io \<times> visit) list
      \<Rightarrow> pystr option \<times> admin_table \<Rightarrow> bool \<Rightarrow> bool" where
  "earned C box quote_url env [] st flag = flag"
| "earned C box quote_url env ((io, v) # vs) st flag =
     earned C box quote_url env vs (snd (serve_request C box quote_url env io v st))
       (v \<noteq> Logout_Form \<and> (flag \<or> earns C (snd st) v))"

definition session_ok :: "admin_table \<Rightarrow> bool \<Rightarrow> session \<Rightarrow> bool" where
  "session_ok t flag s \<longleftrightarrow> wf_json (JObj s) \<and> (if session_admin s then flag \<and> admin_exists t else True)"

definition cookie_ok :: "crypto \<Rightarrow> secret_box \<Rightarrow> admin_table \<Rightarrow> bool \<Rightarrow> pystr option \<Rightarrow> bool" where
  "cookie_ok C box t flag cookie = (case cookie of
       None \<Rightarrow> True
     | Some c \<Rightarrow> \<exists>key issued s. session_key C box = Inr key \<and> c = encode_session C issued s key \<and> session_ok t flag s)"

lemma sort_keys_JStr [simp]: "sort_keys j = JStr x \<longleftrightarrow> j = JStr x"
  by (cases j) auto

lemma encode_session_nonempty [simp]: "encode_session C now s key \<noteq> []"
  by (simp add: encode_session_def Let_def)

lemma admin_key_no_exp: "lit ''admin_user'' \<noteq> lit ''exp''" "lit ''must_change_password'' \<noteq> lit ''exp''"
    "lit ''admin_user'' \<noteq> lit ''must_change_password''"
  by (simp_all add: lit_def)

lemma load_own_session:
  assumes "hmac_law C" "session_key C box = Inr key" "wf_json (JObj s)"
    and "req_cookie req = Some (encode_session C issued s key)"
  shows "\<exists>d. load_session C box now req = Inr (if issued + max_age < now then [] else d) \<and> wf_json (JObj d)
    \<and> session_admin d = session_admin s
    \<and> map_of d (lit ''must_change_password'') = map_option sort_keys (map_of s (lit ''must_change_password''))"
proof -
  from decode_own_session [OF assms(3,1), of now issued key] obtain d where
    d: "decode_session C now (encode_session C issued s key) key = Inr (if issued + max_age < now then None else Some d)"
    "wf_json (JObj d)"
    "\<And>k. map_of d k = (if k = lit ''exp'' then None else map_option sort_keys (map_of s k))" by blast
  have "load_session C box now req = Inr (if issued + max_age < now then [] else d)"
    using d(1) by (simp add: load_session_def assms(2,4))
  moreover have "session_admin d = session_admin s"
    by (auto simp: session_admin_def d(3) admin_key_no_exp)
  ultimately show ?thesis using d(2,3) admin_key_no_exp by auto
qed

lemma load_cookie_ok:
  assumes "hmac_law C" "cookie_ok C box t flag (req_cookie req)"
  shows "req_cookie req = None \<or> (\<exists>s key. session_key C box = Inr key \<and> load_session C box now req = Inr s \<and> session_ok t flag s)"
proof (cases "req_cookie req")
  case (Some c)
  with assms(2) obtain key issued s where key: "session_key C box = Inr key" "c = encode_session C issued s key"
    "session_ok t flag s" by (auto simp: cookie_ok_def)
  then have "wf_json (JObj s)" by (simp add: session_ok_def)
  from load_own_session [OF assms(1) key(1) this, of req issued now] Some key(2) obtain d where
    "load_session C box now req = Inr (if issued + max_age < now then [] else d)" "wf_json (JObj d)"
    "session_admin d = session_admin s" by auto
  then show ?thesis using key by (auto simp: session_ok_def session_admin_def)
qed simp

lemma load_no_cookie: "req_cookie req = None \<Longrightarrow> load_session C box now req = Inr s \<Longrightarrow> s = []"
  by (auto simp: load_session_def bindE_Inr_iff)

lemma session_ok_Nil [simp]: "session_ok t flag []"
  by (simp add: session_ok_def session_admin_def)

lemma session_ok_later: "session_ok t flag s \<Longrightarrow> (admin_exists t \<Longrightarrow> admin_exists t') \<Longrightarrow> session_ok t' (flag \<or> b) s"
  by (auto simp: session_ok_def split: if_splits)

lemma wf_update: "wf_json (JObj s) \<Longrightarrow> list_all is_scalar k \<Longrightarrow> wf_json v \<Longrightarrow> wf_json (JObj (AList.update k v s))"
proof -
  assume wf: "wf_json (JObj s)" and kv: "list_all is_scalar k" "wf_json v"
  have "set (AList.update k v s) \<subseteq> insert (k, v) (set s)"
    by (induction s) (auto split: if_splits)
  then have "list_all (\<lambda>(k, v). list_all is_scalar k \<and> wf_json v) (AList.update k v s)"
    using wf kv by (fastforce simp: list_all_iff)
  then show ?thesis using wf distinct_update [of s k v] by simp
qed

lemma wf_login_session: "wf_json (JObj s) \<Longrightarrow> wf_json (JObj (login_session b s))"
  unfolding login_session_def by (intro wf_update) (simp_all add: admin_username_def lit_def is_scalar_def)

lemma login_session_ok: "wf_json (JObj s) \<Longrightarrow> admin_exists t \<Longrightarrow> session_ok t True (login_session b s)"
  using wf_login_session [of s b] by (simp add: session_ok_def)

lemma change_session_ok:
  "session_ok t flag s \<Longrightarrow> session_ok t flag (AList.update (lit ''must_change_password'') (JBool b) s)"
proof -
  assume s: "session_ok t flag s"
  have "wf_json (JObj (AList.update (lit ''must_change_password'') (JBool b) s))"
    using s by (intro wf_update) (simp_all add: session_ok_def lit_def is_scalar_def)
  moreover have "session_admin (AList.update (lit ''must_change_password'') (JBool b) s) = session_admin s"
    by (simp add: session_admin_def update_conv' lit_def)
  ultimately show ?thesis using s by (simp add: session_ok_def)
qed

lemma created_admin: "create_admin C salt p b t = Inr t' \<Longrightarrow> admin_exists t' \<and> 8 \<le> length p"
  by (auto simp: create_admin_def bindE_Inr_iff hash_password_def admin_exists_def get_admin_def update_conv' split: if_splits)

lemma admin_set: "set_admin_password C salt p b t = Inr t' \<Longrightarrow> admin_exists t'"
  by (auto simp: set_admin_password_def bindE_Inr_iff admin_exists_def get_admin_def update_conv'
      split: option.splits dest!: created_admin)

text \<open>A route keeps the invariant, with what its visit earns.\<close>

lemma run_route_ok:
  assumes run: "run_route C quote_url env io req v s t = (resp, s1, t1)" and s: "session_ok t flag s"
  shows "session_ok t1 (v \<noteq> Logout_Form \<and> (flag \<or> earns C t v)) s1"
proof -
  have wf: "wf_json (JObj s)" using s by (simp add: session_ok_def)
  have same: "t1 = t \<and> s1 = s \<Longrightarrow> v \<noteq> Logout_Form \<Longrightarrow> ?thesis" using session_ok_later [OF s] by auto
  show ?thesis
  proof (cases v)
    case (Setup_Form p q)
    show ?thesis
    proof (cases "t1 = t \<and> s1 = s")
      case False
      then obtain t2 where "p = q" "\<not> admin_exists t" "create_admin C (vi_salt io) p False t = Inr t2"
        "s1 = login_session False s" "t1 = t2"
        using run Setup_Form by (auto simp: auth_setup_def split: if_splits sum.splits)
      then show ?thesis using created_admin login_session_ok [OF wf] Setup_Form by (simp add: earns_def)
    qed (use same Setup_Form in blast)
  next
    case (Login_Form p)
    show ?thesis
    proof (cases "t1 = t \<and> s1 = s")
      case False
      then obtain b where "admin_exists t" "check_admin_password C p t" "s1 = login_session b s" "t1 = t"
        using run Login_Form by (auto simp: auth_login_def admin_exists_def split: if_splits option.splits)
      then show ?thesis using login_session_ok [OF wf] Login_Form by (simp add: earns_def)
    qed (use same Login_Form in blast)
  next
    case (Change_Form cur p q nxt)
    show ?thesis
    proof (cases "t1 = t \<and> s1 = s")
      case False
      then have "s1 = AList.update (lit ''must_change_password'') (JBool False) s" "admin_exists t1"
        using run Change_Form admin_set
        by (auto simp: auth_change_password_def Let_def split: if_splits sum.splits)
      then show ?thesis
        using session_ok_later [OF change_session_ok [OF s, of False], of t1] Change_Form by simp
    qed (use same Change_Form in blast)
  next
    case Logout_Form
    then show ?thesis using run by (simp add: auth_logout_def)
  next
    case (Open_Page p)
    then show ?thesis using run same by simp
  qed
qed

lemma logout_path: "visit_path Logout_Form \<notin> set public_paths" "\<not> is_setup (visit_path Logout_Form)"
    "visit_path Logout_Form \<in> set change_allowed"
  by code_simp+

lemma logout_passes:
  assumes "load_session C box now req = Inr s" "session_ok t flag s" "session_admin s"
    and "req_path req = visit_path Logout_Form"
  shows "\<exists>g. auth_gate C box env now t req = Inr (Inr (Some s))"
  using assms logout_path by (simp add: auth_gate_def Let_def session_ok_def)

lemma gate_session:
  assumes "load_session C box now req = Inr s" "auth_gate C box env now t req = Inr (Inr (Some s'))"
  shows "s' = s"
  using assms by (auto simp: auth_gate_def Let_def split: if_splits)

lemma gate_total: "load_session C box now req = Inr s \<Longrightarrow> \<exists>g. auth_gate C box env now t req = Inr g"
  by (auto simp: auth_gate_def Let_def)

lemma serve_request_ok:
  assumes law: "hmac_law C" and ok: "cookie_ok C box t flag cookie"
    and run: "serve_request C box quote_url env io v (cookie, t) = (resp, cookie', t')"
  shows "cookie_ok C box t' (v \<noteq> Logout_Form \<and> (flag \<or> earns C t v)) cookie'"
proof -
  let ?req = "visit_request io v cookie" and ?flag = "v \<noteq> Logout_Form \<and> (flag \<or> earns C t v)"
  have req: "req_cookie ?req = cookie" "req_path ?req = visit_path v" by (simp_all add: visit_request_def)
  note loaded = load_cookie_ok [OF law, of box t flag ?req "vi_now io", unfolded req, OF ok]
  show ?thesis
  proof (cases "load_session C box (vi_now io) ?req")
    case (Inl e)
    then have "cookie = None" using loaded by auto
    then show ?thesis using run Inl by (simp add: serve_request_def cookie_ok_def)
  next
    case (Inr s)
    have s: "session_ok t flag s"
      using loaded Inr load_no_cookie [OF _ Inr] req(1) by (cases cookie) auto
    obtain key where key: "session_key C box = Inr key"
      using Inr by (auto simp: load_session_def bindE_Inr_iff)
    obtain g where g: "auth_gate C box env (vi_now io) t ?req = Inr g" using gate_total [OF Inr] by blast
    define r where "r = (case g of Inl resp \<Rightarrow> (resp, s, t)
      | Inr None \<Rightarrow> run_route C quote_url env io ?req v s t
      | Inr (Some s) \<Rightarrow> run_route C quote_url env io ?req v s t)"
    obtain resp1 s1 t1 where r1: "r = (resp1, s1, t1)" by (cases r)
    have s1: "session_ok t1 ?flag s1"
    proof (cases g)
      case (Inl x)
      then have "s1 = s" "t1 = t" using r1 by (simp_all add: r_def)
      moreover have "v = Logout_Form \<Longrightarrow> \<not> session_admin s"
        using logout_passes [OF Inr s, of env] g Inl req(2) by auto
      ultimately show ?thesis using s session_ok_later [OF s, of t] by (auto simp: session_ok_def split: if_splits)
    next
      case (Inr y)
      have "run_route C quote_url env io ?req v s t = (resp1, s1, t1)"
      proof (cases y)
        case (Some s')
        have "s' = s" using gate_session [OF \<open>load_session C box (vi_now io) ?req = Inr s\<close>] g Inr Some by simp
        then show ?thesis using r1 Inr Some by (simp add: r_def)
      qed (use r1 Inr in \<open>simp add: r_def\<close>)
      then show ?thesis by (rule run_route_ok [OF _ s])
    qed
    have "serve_request C box quote_url env io v (cookie, t)
        = (Some resp1, if s1 = [] then None else Some (encode_session C (vi_now io) s1 key), t1)"
      using r1 unfolding serve_request_def
      by (simp add: Let_def Inr g r_def [symmetric] save_session_def key)
    then show ?thesis using run s1 key by (auto simp: cookie_ok_def split: if_splits)
  qed
qed

lemma browse_ok:
  assumes "hmac_law C" "cookie_ok C box t flag cookie" "browse C box quote_url env vs (cookie, t) = (cookie', t')"
  shows "cookie_ok C box t' (earned C box quote_url env vs (cookie, t) flag) cookie'"
  using assms(2,3)
proof (induction vs arbitrary: cookie t flag)
  case (Cons x vs)
  obtain io v where x: "x = (io, v)" by fastforce
  obtain resp c1 t1 where st: "serve_request C box quote_url env io v (cookie, t) = (resp, c1, t1)"
    by (metis prod_cases3)
  from Cons.IH [OF serve_request_ok [OF assms(1) Cons.prems(1) st]] Cons.prems(2)
  show ?case by (simp add: x st)
qed simp

text \<open>
  C10. A session is earned: a browser that started without a cookie and whatever it then asked
  for, in whatever order and at whatever times, is granted a session only if since its last
  logout it sent the login form with the password the table recognised then, or made the first
  set-up with a password of eight characters.
\<close>

theorem sessions_are_earned:
  assumes "hmac_law C" "browse C box quote_url env vs (None, t) = (cookie, t')"
    and "req_cookie req = cookie" "auth_gate C box env now t' req = Inr (Inr (Some s))"
  shows "earned C box quote_url env vs (None, t) False"
proof -
  have "cookie_ok C box t False None" by (simp add: cookie_ok_def)
  from browse_ok [OF assms(1) this assms(2)] have ok: "cookie_ok C box t' (earned C box quote_url env vs (None, t) False) cookie" .
  have "session_admin s" using gate_reached [OF assms(4)] by simp
  moreover obtain s0 where load: "load_session C box now req = Inr s0"
    using assms(4) by (auto simp: auth_gate_def Let_def bindE_Inr_iff split: if_splits)
  moreover have "s = s0" by (rule gate_session [OF load assms(4)])
  moreover have "session_ok t' (earned C box quote_url env vs (None, t) False) s0"
    using load_cookie_ok [OF assms(1) ok [folded assms(3)], of now] load load_no_cookie [OF _ load]
    by (cases "req_cookie req") auto
  ultimately show ?thesis by (simp add: session_ok_def)
qed

text \<open>A login lets in.\<close>

lemma login_path_facts: "visit_path (Login_Form p) \<notin> set public_paths" "\<not> is_setup (visit_path (Login_Form p))"
    "is_login (visit_path (Login_Form p))"
  unfolding visit_path.simps by code_simp+

lemma login_session_admin: "session_admin (login_session b s)"
    "map_of (login_session b s) (lit ''must_change_password'') = Some (JBool b)"
  by (simp_all add: session_admin_def login_session_def update_conv' lit_def)

lemma serve_login:
  assumes key: "session_key C box = Inr key" and row: "get_admin t = Some row" and pw: "check_admin_password C p t"
  shows "serve_request C box quote_url env io (Login_Form p) (None, t)
    = (Some (Redirect_To (join_root env (visit_request io (Login_Form p) None)
         (if ad_must_change row then change_path else [47])) 303),
       Some (encode_session C (vi_now io) (login_session (ad_must_change row) []) key), t)"
proof -
  let ?req = "visit_request io (Login_Form p) None"
  have load: "load_session C box (vi_now io) ?req = Inr []"
    by (simp add: load_session_def key visit_request_def)
  have "req_path ?req = visit_path (Login_Form p)" by (simp add: visit_request_def)
  then have "auth_gate C box env (vi_now io) t ?req = Inr (Inr None)"
    using login_path_facts [of p] row load
    by (simp add: auth_gate_def Let_def admin_exists_def session_admin_def)
  moreover have "login_session (ad_must_change row) [] \<noteq> []" by (simp add: login_session_def lit_def)
  ultimately show ?thesis
    using load row pw key by (simp add: serve_request_def Let_def auth_login_def save_session_def)
qed

text \<open>
  A login lets in: the form with the right password answers with a redirect and a cookie,
  and for the seven days after it every request that brings this cookie back passes the gate to
  its route with the administrator's session; while the password must be changed the redirect
  leads to the page for that, and only it, the logout and the documentation are reached.
\<close>

lemma login_lets_in:
  assumes "hmac_law C" "session_key C box = Inr key"
    and "get_admin t = Some row" "check_admin_password C p t"
    and "serve_request C box quote_url env io (Login_Form p) (None, t) = (resp, cookie, t')"
    and "req_cookie req = cookie" "now \<le> vi_now io + 604800"
    and "req_path req \<notin> set public_paths" "\<not> is_setup (req_path req)"
  shows "t' = t \<and> resp = Some (Redirect_To (join_root env (visit_request io (Login_Form p) None)
        (if ad_must_change row then change_path else [47])) 303)
    \<and> (if ad_must_change row \<and> req_path req \<notin> set change_allowed \<union> set docs_paths
       then auth_gate C box env now t' req = Inr (Inl (forbidden_change env req))
       else \<exists>s. session_admin s \<and> auth_gate C box env now t' req = Inr (Inr (Some s)))"
proof -
  let ?s = "login_session (ad_must_change row) []"
  note served = serve_login [OF assms(2-4), of quote_url env io]
  have wf: "wf_json (JObj ?s)" by (rule wf_login_session) simp
  from load_own_session [OF assms(1,2) wf, of req "vi_now io" now] served assms(5-7) obtain d where
    d: "load_session C box now req = Inr d" "session_admin d"
      "map_of d (lit ''must_change_password'') = Some (JBool (ad_must_change row))"
    by (auto simp: login_session_admin max_age_def)
  then have "session_must_change d = ad_must_change row"
    by (simp add: session_must_change_def truthy_json_def)
  then show ?thesis
    using served assms(3,5,8,9) d by (auto simp: auth_gate_def Let_def admin_exists_def)
qed

subsection \<open>A browser to evaluate\<close>

definition toy_visit :: visit_io where
  "toy_visit = \<lparr>vi_now = 500, vi_salt = [1], vi_accept = None, vi_hx = None, vi_prefix = None,
     vi_page = Page [] None 200\<rparr>"

definition toy_admins :: "pystr \<Rightarrow> admin_table" where
  "toy_admins h = [(admin_username, \<lparr>ad_hash = h, ad_must_change = False\<rparr>)]"

definition page_request :: "pystr option \<Rightarrow> web_request" where
  "page_request cookie = \<lparr>req_path = lit ''/ui/logs'', req_accept = None, req_hx = None, req_prefix = None,
     req_cookie = cookie\<rparr>"

lemma logs_page_guarded: "lit ''/ui/logs'' \<notin> set public_paths" "\<not> is_setup (lit ''/ui/logs'')"
  by code_simp+

lemma page_request_facts [simp]: "req_cookie (page_request c) = c"
    "req_path (page_request c) \<notin> set public_paths" "\<not> is_setup (req_path (page_request c))"
  using logs_page_guarded by (simp_all add: page_request_def)

lemma toy_admin_login:
  "\<exists>h row key. hash_password toy_crypto [1] (lit ''hunter22'') = Inr h \<and> get_admin (toy_admins h) = Some row
    \<and> \<not> ad_must_change row \<and> check_admin_password toy_crypto (lit ''hunter22'') (toy_admins h)
    \<and> session_key toy_crypto \<lparr>box_key = []\<rparr> = Inr key"
proof -
  let ?a = "to_bytes (lit ''hunter22'')"
  have u: "utf8_encode (lit ''hunter22'') = Inr ?a"
    by (simp add: utf8_encode_def lit_def is_scalar_def utf8_cp_def)
  obtain d where d: "scrypt toy_crypto ?a [1] (16384, 8, 1) 32 = Inr d" by (simp add: toy_crypto_def)
  then have h: "hash_password toy_crypto [1] (lit ''hunter22'') = Inr (hash_text [1] d)"
    by (simp add: hash_password_def u)
  then have "verify_password toy_crypto (lit ''hunter22'') (hash_text [1] d)"
    using verify_own_hash [OF toy_scrypt h] by blast
  moreover have "\<exists>key. session_key toy_crypto \<lparr>box_key = []\<rparr> = Inr key"
    by (simp add: session_key_def derive_key_def utf8_encode_def lit_def is_scalar_def utf8_cp_def)
  ultimately show ?thesis
    using h by (auto simp: check_admin_password_def get_admin_def toy_admins_def)
qed

lemma login_lets_in_witness:
  "\<exists>h resp cookie t' s. hash_password toy_crypto [1] (lit ''hunter22'') = Inr h
    \<and> serve_request toy_crypto \<lparr>box_key = []\<rparr> id (\<lambda>_. None) toy_visit (Login_Form (lit ''hunter22''))
        (None, toy_admins h) = (resp, cookie, t')
    \<and> auth_gate toy_crypto \<lparr>box_key = []\<rparr> (\<lambda>_. None) 700 t' (page_request cookie) = Inr (Inr (Some s))"
proof -
  from toy_admin_login obtain h row key where
    h: "hash_password toy_crypto [1] (lit ''hunter22'') = Inr h" "get_admin (toy_admins h) = Some row"
      "\<not> ad_must_change row" "check_admin_password toy_crypto (lit ''hunter22'') (toy_admins h)"
      "session_key toy_crypto \<lparr>box_key = []\<rparr> = Inr key" by blast
  obtain resp cookie t' where run: "serve_request toy_crypto \<lparr>box_key = []\<rparr> id (\<lambda>_. None) toy_visit
      (Login_Form (lit ''hunter22'')) (None, toy_admins h) = (resp, cookie, t')" by (metis prod_cases3)
  have "(700::int) \<le> vi_now toy_visit + 604800" by (simp add: toy_visit_def)
  from login_lets_in [OF toy_hmac h(5,2,4) run page_request_facts(1) this page_request_facts(2,3)] h(3)
  obtain s where "auth_gate toy_crypto \<lparr>box_key = []\<rparr> (\<lambda>_. None) 700 t' (page_request cookie) = Inr (Inr (Some s))"
    by auto
  then show ?thesis using h(1) run by blast
qed

theorem sessions_are_earned_witness:
  "\<exists>h. earned toy_crypto \<lparr>box_key = []\<rparr> id (\<lambda>_. None) [(toy_visit, Login_Form (lit ''hunter22''))]
    (None, toy_admins h) False"
proof -
  from toy_admin_login obtain h row key where
    h: "get_admin (toy_admins h) = Some row" "\<not> ad_must_change row"
      "check_admin_password toy_crypto (lit ''hunter22'') (toy_admins h)"
      "session_key toy_crypto \<lparr>box_key = []\<rparr> = Inr key" by blast
  note served = serve_login [OF h(4,1,3), of id "\<lambda>_. None" toy_visit]
  let ?s = "login_session (ad_must_change row) []"
  let ?req = "page_request (Some (encode_session toy_crypto (vi_now toy_visit) ?s key))"
  have "wf_json (JObj ?s)" by (rule wf_login_session) simp
  from load_own_session [OF toy_hmac h(4) this page_request_facts(1), of 700 "vi_now toy_visit"] obtain d where
    d: "load_session toy_crypto \<lparr>box_key = []\<rparr> 700 ?req = Inr d" "session_admin d"
      "map_of d (lit ''must_change_password'') = Some (JBool False)"
    by (auto simp: login_session_admin max_age_def toy_visit_def h(2))
  then have gate: "auth_gate toy_crypto \<lparr>box_key = []\<rparr> (\<lambda>_. None) 700 (toy_admins h) ?req = Inr (Inr (Some d))"
    using h(1) by (simp add: auth_gate_def Let_def admin_exists_def session_must_change_def truthy_json_def)
  have "browse toy_crypto \<lparr>box_key = []\<rparr> id (\<lambda>_. None) [(toy_visit, Login_Form (lit ''hunter22''))]
      (None, toy_admins h) = (req_cookie ?req, toy_admins h)"
    by (simp add: served)
  from sessions_are_earned [OF toy_hmac this refl gate] show ?thesis by blast
qed

end
