(* ===== verification/Ui_Pages.thy ===== *)
theory Ui_Pages
  imports Api_Routes Digest_Scheduler Log_Reader Web_App
begin

section \<open>The pages of the web interface (api/routes/ui.py, ui\_logs.py, ui\_messages.py, auth\_ui.py, ui/context.py)\<close>

text \<open>
  A page is the context its template is rendered with; the templates are not modelled. A page
  asks for the statistics (and so for the health of the backend), for the capacity and for the
  operating settings; an exception on the way is the answer 500. \<open>query\<close> is the parsed query of
  the address, \<open>session\<close> what the session middleware left on the request, if anything. The context has
  the state of the backend twice (\<open>backend_ok\<close>, \<open>ews_ok\<close>), here \<open>pg_backend_ok\<close>.
\<close>

definition app_version :: pystr where "app_version = lit ''0.0.25''"

definition help_url :: "environ \<Rightarrow> pystr" where
  "help_url env = external_help_url env"

text \<open>What every template gets: the prefix, and the function that puts it before a path.\<close>

record base_ctx =
  cx_root :: pystr
  cx_rp :: "pystr \<Rightarrow> pystr"

definition template_context :: "environ \<Rightarrow> web_request \<Rightarrow> base_ctx" where
  "template_context env req = \<lparr>cx_root = request_root_path env req, cx_rp = join_root env req\<rparr>"

definition redirect_to :: "environ \<Rightarrow> web_request \<Rightarrow> pystr \<Rightarrow> web_response" where
  "redirect_to env req path = Redirect_To (join_root env req path) 303"

definition session_data :: "crypto \<Rightarrow> secret_box \<Rightarrow> int \<Rightarrow> web_request \<Rightarrow> session option \<Rightarrow> session res" where
  "session_data C box now req s = (case s of Some d \<Rightarrow> Inr d | None \<Rightarrow> load_session C box now req)"

subsection \<open>The pages of ui.py\<close>

datatype ui_page = Dashboard | Messages | Tools | Settings | Account

primrec page_name :: "ui_page \<Rightarrow> pystr" where
  "page_name Dashboard = lit ''Overview''"
| "page_name Messages = lit ''Messages''"
| "page_name Tools = lit ''Tools''"
| "page_name Settings = lit ''Settings''"
| "page_name Account = lit ''Account''"

primrec page_template :: "ui_page \<Rightarrow> pystr" where
  "page_template Dashboard = lit ''dashboard.html''"
| "page_template Messages = lit ''messages.html''"
| "page_template Tools = lit ''tools.html''"
| "page_template Settings = lit ''settings.html''"
| "page_template Account = lit ''account.html''"

record page_ctx = base_ctx +
  pg_template :: pystr
  pg_version :: pystr
  pg_page :: pystr
  pg_stats :: dashboard_stats
  pg_smtp_port :: int
  pg_backend_label :: pystr
  pg_backend_ok :: bool
  pg_help_url :: pystr
  pg_external_help_url :: pystr
  pg_must_change :: bool
  pg_capacity :: capacity_status
  pg_ops :: "ops_alerts option"
  pg_error :: "pystr option"
  pg_success :: "pystr option"
  pg_config :: "gateway_config option"

definition success_message :: "pystr dict \<Rightarrow> pystr option" where
  "success_message query =
     (if map_of query (lit ''ok'') = Some (lit ''1'') then Some (lit ''Password updated.'')
      else if map_of query (lit ''alerts'') = Some (lit ''1'') then Some (lit ''Alert settings saved.'')
      else if map_of query (lit ''digests'') = Some (lit ''1'') then Some (lit ''Digest settings saved.'')
      else if map_of query (lit ''digest_sent'') = Some (lit ''1'') then Some (lit ''Digest emailed.'')
      else None)"

text \<open>The clocks a page reads: UTC for the statistics and the capacity, monotonic for the breaker, epoch seconds.\<close>

record page_io =
  io_day_now :: time
  io_since_now :: time
  io_capacity_now :: time
  io_tick :: secs
  io_epoch :: int

text \<open>\<open>_capacity\<close>: what the watcher saw last, or an evaluation now.\<close>

definition app_capacity :: "page_io \<Rightarrow> 'w app \<Rightarrow> capacity_status res \<times> 'w app" where
  "app_capacity io a =
     (case capacity_seen a of
        Some st \<Rightarrow> (Inr st, a)
      | None \<Rightarrow>
          (case load_ops_alerts (app_settings a) of
             Inl e \<Rightarrow> (Inl e, a)
           | Inr ops \<Rightarrow>
               (case evaluate_capacity (io_capacity_now io) (io_tick io) (service_pending (app_table a)) ops
                       (app_table a) (app_circuit a) of
                  (r, b) \<Rightarrow> (r, a\<lparr>app_circuit := b\<rparr>))))"

definition render_page ::
    "crypto \<Rightarrow> pydantic \<Rightarrow> (gateway_config \<Rightarrow> 'w driver) \<Rightarrow> environ \<Rightarrow> page_io \<Rightarrow> web_request \<Rightarrow> session option
      \<Rightarrow> pystr dict \<Rightarrow> ui_page \<Rightarrow> 'w app \<Rightarrow> page_ctx res \<times> 'w app" where
  "render_page C P D env io req s query page a =
     (let cfg = runtime_get (app_runtime a)
      in case app_stats D (io_day_now io) (io_since_now io) a of
           (stats, a1) \<Rightarrow>
             (case load_ops_alerts (app_settings a1) of
                Inl e \<Rightarrow> (Inl e, a1)
              | Inr ops \<Rightarrow>
                  (case session_data C (app_box a1) (io_epoch io) req s of
                     Inl e \<Rightarrow> (Inl e, a1)
                   | Inr data \<Rightarrow>
                       (case app_capacity io a1 of
                          (Inl e, a2) \<Rightarrow> (Inl e, a2)
                        | (Inr cap, a2) \<Rightarrow>
                            (case (if page = Settings then bindE (redact_config P cfg) (\<lambda>c. Inr (Some c)) else Inr None) of
                               Inl e \<Rightarrow> (Inl e, a2)
                             | Inr shown \<Rightarrow>
                                 (Inr \<lparr>cx_root = request_root_path env req, cx_rp = join_root env req,
                                    pg_template = page_template page, pg_version = app_version,
                                    pg_page = page_name page, pg_stats = stats, pg_smtp_port = smtp_port (smtp cfg),
                                    pg_backend_label = st_backend_name stats, pg_backend_ok = st_connected stats,
                                    pg_help_url = help_url env, pg_external_help_url = external_help_url env,
                                    pg_must_change = session_must_change data, pg_capacity = cap, pg_ops = Some ops,
                                    pg_error = map_of query (lit ''error''), pg_success = success_message query,
                                    pg_config = shown\<rparr>, a2))))))"

text \<open>The forms answer with a redirect back to the account page.\<close>

definition after_form :: "environ \<Rightarrow> web_request \<Rightarrow> string \<Rightarrow> unit reply \<times> 'w app \<Rightarrow> web_response res \<times> 'w app" where
  "after_form env req path ra =
     (case ra of
        (Server_Error e, a) \<Rightarrow> (Inl e, a)
      | (_, a) \<Rightarrow> (Inr (redirect_to env req (lit path)), a))"

definition post_account_alerts ::
    "environ \<Rightarrow> web_request \<Rightarrow> pystr \<Rightarrow> bool \<Rightarrow> 'w app \<Rightarrow> web_response res \<times> 'w app" where
  "post_account_alerts env req email enabled a =
     after_form env req ''/ui/account?alerts=1'' (ui_account_alerts email enabled a)"

definition post_account_digests ::
    "environ \<Rightarrow> web_request \<Rightarrow> digest_form \<Rightarrow> 'w app \<Rightarrow> web_response res \<times> 'w app" where
  "post_account_digests env req f a = after_form env req ''/ui/account?digests=1'' (ui_account_digests f a)"

text \<open>A digest on demand; \<open>quote_url\<close> is \<open>urllib.parse.quote\<close>.\<close>

definition ui_account_digests_send ::
    "(pystr \<Rightarrow> pystr) \<Rightarrow> (gateway_config \<Rightarrow> 'w driver) \<Rightarrow> report_lib \<Rightarrow> environ \<Rightarrow> time \<Rightarrow> web_request \<Rightarrow> 'w app
      \<Rightarrow> web_response res \<times> 'w app" where
  "ui_account_digests_send quote_url D L env now req a =
     (case send_manual D L (lit ''manual'') now a of
        (Inl e, a') \<Rightarrow> (Inl e, a')
      | (Inr r, a') \<Rightarrow>
          if ds_ok r then (Inr (redirect_to env req (lit ''/ui/account?digest_sent=1'')), a')
          else (Inr (redirect_to env req (lit ''/ui/account?error=''
                 @ quote_url (if ds_error r = [] then lit ''Digest not sent.'' else ds_error r))), a'))"

definition partial_stats ::
    "(gateway_config \<Rightarrow> 'w driver) \<Rightarrow> environ \<Rightarrow> page_io \<Rightarrow> web_request \<Rightarrow> 'w app \<Rightarrow> (base_ctx \<times> dashboard_stats) \<times> 'w app" where
  "partial_stats D env io req a =
     (case app_stats D (io_day_now io) (io_since_now io) a of
        (stats, a') \<Rightarrow> ((template_context env req, stats), a'))"

definition partial_message_table ::
    "pydantic \<Rightarrow> environ \<Rightarrow> web_request \<Rightarrow> 'w app \<Rightarrow> (base_ctx \<times> message_record list) res" where
  "partial_message_table P env req a =
     bindE (list_queue P None 50 (app_table a)) (\<lambda>rows. Inr (template_context env req, rows))"

text \<open>The statistics as JSON, the counters as text, and the inspector of a message in a page.\<close>

definition get_stats :: "(gateway_config \<Rightarrow> 'w driver) \<Rightarrow> page_io \<Rightarrow> 'w app \<Rightarrow> dashboard_stats reply \<times> 'w app" where
  "get_stats D io a = (case app_stats D (io_day_now io) (io_since_now io) a of (stats, a') \<Rightarrow> (Reply 200 stats, a'))"

definition metrics_page :: "(gateway_config \<Rightarrow> 'w driver) \<Rightarrow> secs \<Rightarrow> secs \<Rightarrow> 'w app \<Rightarrow> pystr option \<times> 'w app" where
  "metrics_page D tick now a =
     (let a' = refresh_metrics D tick a in (map_option (prometheus_text now) (app_metrics a'), a'))"

definition ui_message_detail :: "pydantic \<Rightarrow> pystr \<Rightarrow> 'w app \<Rightarrow> (pystr \<times> message_detail) reply" where
  "ui_message_detail P i a =
     (case get_message_detail P i a of
        Reply st detail \<Rightarrow> Reply st (lit ''partials/message_detail.html'', detail)
      | Http_Error st msg \<Rightarrow> Http_Error st msg
      | Server_Error e \<Rightarrow> Server_Error e)"

subsection \<open>The log page\<close>

record logs_ctx = page_ctx +
  lg_query :: log_query
  lg_entries :: "log_entry list"
  lg_files :: "pystr list"
  lg_today :: pystr

definition today_log_stem :: "time \<Rightarrow> pystr" where
  "today_log_stem now = filter (\<lambda>c. c \<noteq> 45) (date_text now)"

definition query_text :: "pystr dict \<Rightarrow> string \<Rightarrow> pystr" where
  "query_text query k = or_empty (map_of query (lit k))"

definition logs_query :: "pystr dict \<Rightarrow> log_query" where
  "logs_query query = \<lparr>lq_query = query_text query ''q'', lq_level = query_text query ''level'',
     lq_logger = query_text query ''logger'', lq_day = query_text query ''day'',
     lq_limit = (case py_int (case map_of query (lit ''limit'') of None \<Rightarrow> lit ''200'' | Some v \<Rightarrow> v) of
       Inl _ \<Rightarrow> 200 | Inr n \<Rightarrow> n)\<rparr>"

text \<open>The page loads the operating settings whether or not the watcher has seen the capacity.\<close>

definition ui_logs ::
    "crypto \<Rightarrow> (gateway_config \<Rightarrow> 'w driver) \<Rightarrow> environ \<Rightarrow> page_io \<Rightarrow> log_file list option \<Rightarrow> time \<Rightarrow> web_request
      \<Rightarrow> session option \<Rightarrow> pystr dict \<Rightarrow> 'w app \<Rightarrow> logs_ctx res \<times> 'w app" where
  "ui_logs C D env io directory today req s query a =
     (let Q = logs_query query; cfg = runtime_get (app_runtime a)
      in case load_ops_alerts (app_settings a) of
           Inl e \<Rightarrow> (Inl e, a)
         | Inr ops \<Rightarrow>
             (case app_capacity io a of
                (Inl e, a1) \<Rightarrow> (Inl e, a1)
              | (Inr cap, a1) \<Rightarrow>
                  (case app_stats D (io_day_now io) (io_since_now io) a1 of
                     (stats, a2) \<Rightarrow>
                       (case session_data C (app_box a2) (io_epoch io) req s of
                          Inl e \<Rightarrow> (Inl e, a2)
                        | Inr data \<Rightarrow>
                            (Inr \<lparr>cx_root = request_root_path env req, cx_rp = join_root env req,
                               pg_template = lit ''logs.html'', pg_version = app_version,
                               pg_page = lit ''Logs'', pg_stats = stats, pg_smtp_port = smtp_port (smtp cfg),
                               pg_backend_label = st_backend_name stats, pg_backend_ok = st_connected stats,
                               pg_help_url = help_url env, pg_external_help_url = external_help_url env,
                               pg_must_change = session_must_change data, pg_capacity = cap, pg_ops = None,
                               pg_error = None, pg_success = None, pg_config = None, lg_query = Q,
                               lg_entries = search_logs Q directory,
                               lg_files = map lf_name (take 30 (list_log_files directory)),
                               lg_today = today_log_stem today\<rparr>, a2)))))"

subsection \<open>The pages of the login (auth\_ui.py)\<close>

record auth_ctx = base_ctx +
  ac_version :: pystr
  ac_error :: "pystr option"
  ac_help_url :: pystr
  ac_external_help_url :: pystr
  ac_forced :: bool
  ac_next_url :: pystr

definition make_auth_ctx :: "environ \<Rightarrow> web_request \<Rightarrow> pystr option \<Rightarrow> bool \<Rightarrow> pystr \<Rightarrow> auth_ctx" where
  "make_auth_ctx env req err forced next_url = \<lparr>cx_root = request_root_path env req, cx_rp = join_root env req,
     ac_version = app_version, ac_error = err, ac_help_url = help_url env,
     ac_external_help_url = external_help_url env, ac_forced = forced, ac_next_url = next_url\<rparr>"

definition ui_help :: "environ \<Rightarrow> web_request \<Rightarrow> pystr \<times> auth_ctx" where
  "ui_help env req = (lit ''auth/help.html'', make_auth_ctx env req None False [47])"

subsection \<open>Looking changes nothing\<close>

text \<open>What a page may have changed: the outside (a health check) and the breaker that was asked.\<close>

definition only_looked :: "'w app \<Rightarrow> 'w app \<Rightarrow> bool" where
  "only_looked a a' \<longleftrightarrow> app_runtime a' = app_runtime a \<and> app_box a' = app_box a
     \<and> app_settings a' = app_settings a \<and> app_admins a' = app_admins a \<and> app_table a' = app_table a
     \<and> mw_hub (app_mail a') = mw_hub (app_mail a) \<and> capacity_seen a' = capacity_seen a"

lemma only_looked_refl [simp]: "only_looked a a"
  by (simp add: only_looked_def)

lemma only_looked_trans: "only_looked a b \<Longrightarrow> only_looked b c \<Longrightarrow> only_looked a c"
  by (simp add: only_looked_def)

lemma app_stats_looks:
  "app_stats D now now' a = (st, a') \<Longrightarrow> only_looked a a' \<and> st_queue_pending st = count_pending (app_table a)"
  by (auto simp: app_stats_def Let_def only_looked_def compute_stats_def service_pending_def
      split: prod.splits dest!: app_health_keeps)

lemma app_capacity_looks: "app_capacity io a = (r, a') \<Longrightarrow> only_looked a a'"
  by (auto simp: app_capacity_def only_looked_def app_table_def split: option.splits sum.splits prod.splits)

lemma render_page_looks:
  assumes "render_page C P D env io req s query page a = (r, a')"
  shows "only_looked a a' \<and> (case r of Inl e \<Rightarrow> True | Inr p \<Rightarrow>
    st_queue_pending (pg_stats p) = count_pending (app_table a)
    \<and> (if page = Settings then (\<exists>c. redact_config P (rt_config (app_runtime a)) = Inr c \<and> pg_config p = Some c)
       else pg_config p = None))"
proof -
  obtain stats a1 where st: "app_stats D (io_day_now io) (io_since_now io) a = (stats, a1)" by fastforce
  note l1 = app_stats_looks [OF st]
  obtain cap a2 where cp: "app_capacity io a1 = (cap, a2)" by fastforce
  have l2: "only_looked a a2" using l1 app_capacity_looks [OF cp] only_looked_trans by blast
  show ?thesis
    using assms l1 l2
    by (auto simp: render_page_def Let_def st cp bindE_Inr_iff runtime_get_def split: sum.splits if_splits)
qed

lemma ui_logs_looks:
  assumes "ui_logs C D env io directory today req s query a = (r, a')"
  shows "only_looked a a' \<and> (case r of Inl e \<Rightarrow> True | Inr p \<Rightarrow>
    lg_entries p = search_logs (logs_query query) directory \<and> pg_config p = None)"
proof -
  obtain cap a1 where cp: "app_capacity io a = (cap, a1)" by fastforce
  note l1 = app_capacity_looks [OF cp]
  obtain stats a2 where st: "app_stats D (io_day_now io) (io_since_now io) a1 = (stats, a2)" by fastforce
  have l2: "only_looked a a2" using l1 app_stats_looks [OF st] only_looked_trans by blast
  show ?thesis
    using assms l1 l2 by (auto simp: ui_logs_def Let_def st cp split: sum.splits)
qed

text \<open>
  Looking changes nothing and shows no secret: whatever page is opened, the settings, the
  administrators, the messages, the configuration and the recorded events are afterwards what
  they were, also when the page fails; the number of waiting messages it shows is the right one;
  and the configuration appears on the settings page only, with every secret masked.
\<close>

lemma pages_only_look:
  assumes "pydantic_law P" "valid_config P (rt_config (app_runtime a))"
    and "render_page C P D env io req s query page a = (r, a')"
  shows "app_settings a' = app_settings a \<and> app_admins a' = app_admins a \<and> app_table a' = app_table a
    \<and> rt_config (app_runtime a') = rt_config (app_runtime a) \<and> mw_hub (app_mail a') = mw_hub (app_mail a)
    \<and> (case r of Inl e \<Rightarrow> True | Inr p \<Rightarrow>
         st_queue_pending (pg_stats p) = count_pending (app_table a)
         \<and> pg_config p = (if page = Settings then Some (redacted (rt_config (app_runtime a))) else None))"
  using render_page_looks [OF assms(3)] redact_config_valid [OF assms(1,2)]
  by (auto simp: only_looked_def split: sum.splits if_splits)

lemma pages_only_look_witness:
  "\<exists>r a'. render_page toy_crypto toy_pydantic (resolve_driver toy_io toy_io) (\<lambda>_. None)
      \<lparr>io_day_now = 0, io_since_now = 0, io_capacity_now = 0, io_tick = 0, io_epoch = 0\<rparr>
      (page_request None) (Some []) [(lit ''alerts'', lit ''1'')] Settings web_app = (r, a')
    \<and> app_settings a' = app_settings web_app \<and> app_table a' = []"
proof -
  have c: "rt_config (app_runtime web_app) = sample_config" "app_table web_app = []" by (simp_all add: web_app_def)
  obtain r a' where run: "render_page toy_crypto toy_pydantic (resolve_driver toy_io toy_io) (\<lambda>_. None)
      \<lparr>io_day_now = 0, io_since_now = 0, io_capacity_now = 0, io_tick = 0, io_epoch = 0\<rparr>
      (page_request None) (Some []) [(lit ''alerts'', lit ''1'')] Settings web_app = (r, a')" by fastforce
  have "valid_config toy_pydantic (rt_config (app_runtime web_app))" using valid_sample c by simp
  from pages_only_look [OF toy_pydantic_law this run] run c(2) show ?thesis by simp
qed

text \<open>The message after a form was stored is the one of that form.\<close>

lemma alerts_saved_message:
  "success_message [(lit ''alerts'', lit ''1'')] = Some (lit ''Alert settings saved.'')"
  by code_simp

end
