(* ===== verification/Ws_Stream.thy ===== *)
theory Ws_Stream
  imports Api_Routes
begin

section \<open>The live stream of a browser (api/routes/ws.py, events/hub.py)\<close>

text \<open>
  After \<open>traffic_ws\<close> has accepted a connection it takes one message after the other off its queue
  and sends it on, a keep-alive after thirty seconds without one, until the browser leaves. The
  queue is the one the hub holds for the subscriber \<open>i\<close>; once the hub has dropped the
  subscriber, the handler still holds the queue, which is then \<open>st_left\<close>.
\<close>

datatype ws_frame = Event_Frame pystr | Keepalive

datatype ws_event =
    Published pystr pystr "json dict" pystr
  | Queue_Ready
  | Thirty_Seconds
  | Browser_Left

record stream =
  st_hub :: event_hub
  st_left :: "pystr list option"
  st_sent :: "ws_frame list"
  st_open :: bool

definition own_queue :: "nat \<Rightarrow> stream \<Rightarrow> pystr list" where
  "own_queue i s = (case st_left s of
       Some q \<Rightarrow> q
     | None \<Rightarrow> (case map_of (hub_subs (st_hub s)) i of None \<Rightarrow> [] | Some sub \<Rightarrow> sub_queue sub))"

text \<open>One event: a publication by any thread, or what wakes the handler.\<close>

fun stream_step :: "nat \<Rightarrow> ws_event \<Rightarrow> stream \<Rightarrow> stream" where
  "stream_step i (Published kind message data ts) s =
     (let h = publish_sync kind message data ts (st_hub s)
      in s\<lparr>st_hub := h, st_left := (if map_of (hub_subs h) i = None \<and> st_open s then Some (own_queue i s) else st_left s)\<rparr>)"
| "stream_step i Queue_Ready s =
     (if \<not> st_open s then s
      else case own_queue i s of
          [] \<Rightarrow> s
        | p # ps \<Rightarrow> s\<lparr>st_sent := st_sent s @ [Event_Frame p],
            st_hub := (if st_left s = None then receive i (st_hub s) else st_hub s),
            st_left := map_option (\<lambda>_. ps) (st_left s)\<rparr>)"
| "stream_step i Thirty_Seconds s =
     (if st_open s \<and> own_queue i s = [] then s\<lparr>st_sent := st_sent s @ [Keepalive]\<rparr> else s)"
| "stream_step i Browser_Left s =
     (if st_open s then s\<lparr>st_open := False, st_hub := unsubscribe i (st_hub s)\<rparr> else s)"

definition run_stream :: "nat \<Rightarrow> ws_event list \<Rightarrow> stream \<Rightarrow> stream" where
  "run_stream i es s = fold (stream_step i) es s"

definition open_stream :: "nat \<Rightarrow> event_hub \<Rightarrow> stream" where
  "open_stream i h = \<lparr>st_hub = subscribe i h, st_left = None, st_sent = [], st_open = True\<rparr>"

definition frames_events :: "ws_frame list \<Rightarrow> pystr list" where
  "frames_events fs = concat (map (\<lambda>f. case f of Event_Frame p \<Rightarrow> [p] | Keepalive \<Rightarrow> []) fs)"

subsection \<open>What the browser sees\<close>

lemma frames_events_snoc [simp]: "frames_events (fs @ [Event_Frame p]) = frames_events fs @ [p]"
    "frames_events (fs @ [Keepalive]) = frames_events fs" "frames_events [] = []"
  by (simp_all add: frames_events_def)

text \<open>
  While the hub knows the subscriber, what was sent is what it took off its queue; afterwards sent
  and left are a piece of the events without a gap.
\<close>

definition follows :: "nat \<Rightarrow> stream \<Rightarrow> bool" where
  "follows i s \<longleftrightarrow> hub_ok (st_hub s) \<and> distinct (map fst (hub_subs (st_hub s)))
     \<and> sublist (frames_events (st_sent s)) (map event_json (hub_all (st_hub s)))
     \<and> (case st_left s of
          None \<Rightarrow> (if st_open s
            then (\<exists>sub. map_of (hub_subs (st_hub s)) i = Some sub \<and> frames_events (st_sent s) = sub_got sub)
            else True)
        | Some q \<Rightarrow> map_of (hub_subs (st_hub s)) i = None
            \<and> sublist (frames_events (st_sent s) @ q) (map event_json (hub_all (st_hub s))))"

lemma fan_out_keys: "distinct (map fst subs) \<Longrightarrow> distinct (map fst (fan_out p subs))"
  unfolding fan_out_def by (simp add: comp_def case_prod_unfold distinct_map_filter)

lemma fan_out_get:
  assumes "distinct (map fst subs)"
  shows "map_of (fan_out p subs) i = (case map_of subs i of None \<Rightarrow> None
    | Some s \<Rightarrow> if length (sub_queue s) < queue_size then Some (s\<lparr>sub_queue := sub_queue s @ [p]\<rparr>) else None)"
  using assms
proof (induction subs)
  case (Cons a subs)
  obtain j s where a: "a = (j, s)" by fastforce
  have "i \<notin> fst ` set subs \<Longrightarrow> map_of (fan_out p subs) i = None"
    by (force simp: fan_out_def map_of_eq_None_iff)
  then show ?case using Cons by (auto simp: a fan_out_def)
qed (simp add: fan_out_def)

lemma publish_subs: "hub_subs (publish_sync kind m d ts h)
    = fan_out (event_json \<lparr>ev_kind = kind, ev_message = m, ev_data = d, ev_ts = ts\<rparr>) (hub_subs h)"
    "hub_all (publish_sync kind m d ts h) = hub_all h @ [\<lparr>ev_kind = kind, ev_message = m, ev_data = d, ev_ts = ts\<rparr>]"
  by (simp_all add: publish_sync_def Let_def)

lemma receive_subs: "map fst (hub_subs (receive i h)) = map fst (hub_subs h)" "hub_all (receive i h) = hub_all h"
    "map_of (hub_subs (receive i h)) i = map_option take_one (map_of (hub_subs h) i)"
proof -
  show "map_of (hub_subs (receive i h)) i = map_option take_one (map_of (hub_subs h) i)"
  proof -
    have "map_of (map (\<lambda>(j, s). (j, if j = i then take_one s else s)) kvs) i = map_option take_one (map_of kvs i)" for kvs
      by (induction kvs) (auto simp del: take_one.simps)
    then show ?thesis by (simp add: receive_def del: take_one.simps)
  qed
qed (simp_all add: receive_def comp_def case_prod_unfold)

lemma sub_piece: "hub_ok h \<Longrightarrow> map_of (hub_subs h) i = Some sub
    \<Longrightarrow> sub_got sub @ sub_queue sub = map event_json (drop (sub_from sub) (hub_all h))"
  by (auto simp: hub_ok_def list_all_iff sub_ok_def dest!: map_of_SomeD)

lemma piece_snoc: "sublist xs ys \<Longrightarrow> sublist xs (ys @ [y])"
  unfolding sublist_def by (metis append.assoc)

lemma piece_front: "sublist (xs @ zs) ys \<Longrightarrow> sublist xs ys"
  unfolding sublist_def by (metis append.assoc)

lemma piece_drop: "sublist (map f (drop n xs)) (map f xs)"
  unfolding drop_map [symmetric] by (rule sublist_drop)

lemma follows_open:
  assumes "follows i s" "st_left s = None" "st_open s"
  obtains sub where "map_of (hub_subs (st_hub s)) i = Some sub" "frames_events (st_sent s) = sub_got sub"
    "own_queue i s = sub_queue sub"
    "sublist (sub_got sub @ sub_queue sub) (map event_json (hub_all (st_hub s)))"
proof -
  from assms obtain sub where sub: "map_of (hub_subs (st_hub s)) i = Some sub" "frames_events (st_sent s) = sub_got sub"
    by (auto simp: follows_def)
  moreover have "hub_ok (st_hub s)" using assms(1) by (simp add: follows_def)
  ultimately have "sublist (sub_got sub @ sub_queue sub) (map event_json (hub_all (st_hub s)))"
    using sub_piece [of "st_hub s" i sub] piece_drop by simp
  then show ?thesis using that sub assms(2) by (simp add: own_queue_def)
qed

lemma follows_step: "follows i s \<Longrightarrow> follows i (stream_step i e s)"
proof (cases e)
  case (Published kind message data ts)
  let ?h = "publish_sync kind message data ts (st_hub s)"
  assume f: "follows i s"
  then have base: "hub_ok ?h" "distinct (map fst (hub_subs ?h))"
    "sublist (frames_events (st_sent s)) (map event_json (hub_all ?h))"
    by (auto simp: follows_def hub_ok_publish publish_subs fan_out_keys piece_snoc)
  note get = fan_out_get [OF f [unfolded follows_def, THEN conjunct2, THEN conjunct1]]
  show ?thesis
  proof (cases "st_left s")
    case (Some q)
    with f base show ?thesis
      by (auto simp: follows_def Published Let_def own_queue_def publish_subs get piece_snoc)
  next
    case None
    show ?thesis
    proof (cases "st_open s")
      case False
      with f base None show ?thesis by (auto simp: follows_def Published Let_def)
    next
      case True
      from follows_open [OF f None True] obtain sub where
        "map_of (hub_subs (st_hub s)) i = Some sub" "frames_events (st_sent s) = sub_got sub"
        "own_queue i s = sub_queue sub"
        "sublist (sub_got sub @ sub_queue sub) (map event_json (hub_all (st_hub s)))" .
      with base None True show ?thesis
        by (auto simp: follows_def Published Let_def publish_subs get piece_snoc)
    qed
  qed
next
  case Queue_Ready
  assume f: "follows i s"
  show ?thesis
  proof (cases "st_open s \<and> own_queue i s \<noteq> []")
    case False
    then show ?thesis using f by (auto simp: Queue_Ready split: list.split)
  next
    case True
    then obtain p ps where q: "own_queue i s = p # ps" by (cases "own_queue i s") auto
    show ?thesis
    proof (cases "st_left s")
      case (Some x)
      then have x: "x = p # ps" using q by (simp add: own_queue_def)
      have all: "map_of (hub_subs (st_hub s)) i = None"
        "sublist ((frames_events (st_sent s) @ [p]) @ ps) (map event_json (hub_all (st_hub s)))"
        using f Some x by (simp_all add: follows_def)
      have "stream_step i Queue_Ready s = s\<lparr>st_sent := st_sent s @ [Event_Frame p], st_left := Some ps\<rparr>"
        using True q Some by simp
      then show ?thesis
        using f all piece_front [OF all(2)] by (simp add: follows_def Queue_Ready)
    next
      case None
      from follows_open [OF f None conjunct1 [OF True]] obtain sub where
        sub0: "map_of (hub_subs (st_hub s)) i = Some sub" "frames_events (st_sent s) = sub_got sub"
        "own_queue i s = sub_queue sub" "sublist (sub_got sub @ sub_queue sub) (map event_json (hub_all (st_hub s)))" .
      note sub = sub0(1,2) sub0(3) [unfolded q, symmetric] sub0(4)
      have piece: "sublist (sub_got sub @ [p]) (map event_json (hub_all (st_hub s)))"
        using sub(4) unfolding sub(3) by (intro piece_front [of "sub_got sub @ [p]" ps]) simp
      have step: "stream_step i Queue_Ready s
          = s\<lparr>st_sent := st_sent s @ [Event_Frame p], st_hub := receive i (st_hub s), st_left := None\<rparr>"
        using True q None by simp
      have get: "map_of (hub_subs (receive i (st_hub s))) i
          = Some (sub\<lparr>sub_queue := ps, sub_got := sub_got sub @ [p]\<rparr>)"
        using sub(1,3) by (simp add: receive_subs)
      have "hub_ok (receive i (st_hub s))" "distinct (map fst (hub_subs (receive i (st_hub s))))"
        using f hub_ok_receive [of "st_hub s" i] receive_subs(1) [of i "st_hub s"] by (simp_all add: follows_def)
      then show ?thesis
        unfolding follows_def Queue_Ready step using sub(2) piece get receive_subs(2) [of i "st_hub s"] by simp
    qed
  qed
next
  case Thirty_Seconds
  assume "follows i s"
  then show ?thesis by (auto simp: follows_def Thirty_Seconds split: option.splits)
next
  case Browser_Left
  assume f: "follows i s"
  show ?thesis
  proof (cases "st_open s")
    case True
    have "map_of (filter (\<lambda>(j, _). j \<noteq> i) (hub_subs (st_hub s))) i = None"
      by (auto simp: map_of_eq_None_iff)
    with f True show ?thesis
      by (auto simp: follows_def Browser_Left hub_ok_unsubscribe)
        (auto simp: unsubscribe_def distinct_map_filter split: option.splits)
  qed (use f in \<open>simp add: Browser_Left\<close>)
qed

lemma follows_run: "follows i s \<Longrightarrow> follows i (run_stream i es s)"
  unfolding run_stream_def by (induction es arbitrary: s) (simp_all add: follows_step)

lemma reachable_keys: "hub_reachable h \<Longrightarrow> distinct (map fst (hub_subs h))"
proof (induction rule: hub_reachable.induct)
  case (More h h')
  from More.hyps(2) show ?case
    using More.IH receive_subs(1)
    by (cases rule: hub_step.cases)
      (auto simp: publish_subs fan_out_keys subscribe_def unsubscribe_def distinct_map_filter)
qed (simp add: new_hub_def)

lemma map_of_last: "i \<notin> fst ` set kvs \<Longrightarrow> map_of (kvs @ [(i, x)]) i = Some x"
  by (simp add: map_add_def map_of_eq_None_iff [THEN iffD2])

lemma follows_start:
  assumes "hub_reachable h" "i \<notin> fst ` set (hub_subs h)"
  shows "follows i (open_stream i h)"
  using hub_ok_subscribe [OF hub_ok_reachable [OF assms(1)]] reachable_keys [OF assms(1)] assms(2)
    map_of_last [OF assms(2)]
  by (auto simp: follows_def open_stream_def subscribe_def)

lemma silent_step:
  assumes "st_left s = Some q" "map_of (hub_subs (st_hub s)) i = None"
  shows "\<exists>q'. st_left (stream_step i e s) = Some q' \<and> map_of (hub_subs (st_hub (stream_step i e s))) i = None
    \<and> frames_events (st_sent (stream_step i e s)) @ q' = frames_events (st_sent s) @ q"
proof (cases e)
  case (Published kind message data ts)
  have "map_of (fan_out p subs) i = None" if "map_of subs i = None" for p subs
    using that by (force simp: fan_out_def map_of_eq_None_iff)
  then show ?thesis using assms by (simp add: Published Let_def publish_subs own_queue_def)
next
  case Browser_Left
  have "map_of (filter (\<lambda>(j, _). j \<noteq> i) (hub_subs (st_hub s))) i = None" by (auto simp: map_of_eq_None_iff)
  then show ?thesis using assms by (simp add: Browser_Left unsubscribe_def)
qed (use assms in \<open>auto simp: own_queue_def split: list.split\<close>)

lemma silent_run:
  "st_left s = Some q \<Longrightarrow> map_of (hub_subs (st_hub s)) i = None \<Longrightarrow>
    \<exists>q'. frames_events (st_sent (run_stream i es s)) @ q' = frames_events (st_sent s) @ q"
  unfolding run_stream_def
proof (induction es arbitrary: s q)
  case (Cons e es)
  from silent_step [OF Cons.prems] Cons.IH show ?case by (metis fold_simps(2))
qed simp


text \<open>A browser that reads nothing while 257 events are published is dropped.\<close>

definition burst :: "ws_event list" where
  "burst = replicate 257 (Published (lit ''smtp.data'') [] [] [])"


end
