(* ===== verification/Db_Schema.thy ===== *)
theory Db_Schema
  imports Config_Boot
begin

section \<open>The database schema (db/models.py, db/session.py, alembic/)\<close>

text \<open>
  The tables the object-relational models declare, and the three migrations that make them. A
  \<open>schema\<close> is the list of its tables, each with its columns in order, and of its indexes; an
  operation of Alembic that the database refuses is an error. The order of the migrations
  follows their \<open>down_revision\<close>; a start brings the database to the last one.
\<close>

subsection \<open>Schemas and the operations of Alembic\<close>

datatype column_type = String_T nat | Text_T | Integer_T | Boolean_T | DateTime_TZ

record column =
  col_name :: pystr
  col_type :: column_type
  col_pk :: bool
  col_nullable :: bool
  col_default :: "pystr option"

record schema =
  sc_tables :: "column list dict"
  sc_indexes :: "(pystr \<times> pystr list) dict"

definition empty_schema :: schema where
  "empty_schema = \<lparr>sc_tables = [], sc_indexes = []\<rparr>"

text \<open>
  A primary key is never null; \<open>sa.Column\<close> is nullable unless it says otherwise. \<open>col_default\<close> is
  the \<open>server_default\<close>, in SQL; \<open>func.now()\<close> is \<open>CURRENT_TIMESTAMP\<close>. The values SQLAlchemy itself
  fills in (\<open>default\<close>, \<open>onupdate\<close>) are no part of the schema.
\<close>

definition key_column :: "string \<Rightarrow> column_type \<Rightarrow> column" where
  "key_column name ty = \<lparr>col_name = lit name, col_type = ty, col_pk = True, col_nullable = False,
     col_default = None\<rparr>"

definition plain_column :: "string \<Rightarrow> column_type \<Rightarrow> bool \<Rightarrow> column" where
  "plain_column name ty nullable = \<lparr>col_name = lit name, col_type = ty, col_pk = False, col_nullable = nullable,
     col_default = None\<rparr>"

definition server_default :: "string \<Rightarrow> column \<Rightarrow> column" where
  "server_default sql c = c\<lparr>col_default := Some (lit sql)\<rparr>"

definition now_column :: "string \<Rightarrow> bool \<Rightarrow> column" where
  "now_column name nullable = server_default ''CURRENT_TIMESTAMP'' (plain_column name DateTime_TZ nullable)"

definition db_error :: "string \<Rightarrow> 'a res" where
  "db_error msg = Inl (Exn OtherError (lit msg))"

definition create_table :: "string \<Rightarrow> column list \<Rightarrow> schema \<Rightarrow> schema res" where
  "create_table name cols s =
     (if map_of (sc_tables s) (lit name) \<noteq> None then db_error ''table already exists''
      else Inr (s\<lparr>sc_tables := sc_tables s @ [(lit name, cols)]\<rparr>))"

definition drop_table :: "string \<Rightarrow> schema \<Rightarrow> schema res" where
  "drop_table name s =
     (if map_of (sc_tables s) (lit name) = None then db_error ''no such table''
      else Inr (s\<lparr>sc_tables := filter (\<lambda>(n, _). n \<noteq> lit name) (sc_tables s)\<rparr>))"

definition create_index :: "string \<Rightarrow> string \<Rightarrow> string list \<Rightarrow> schema \<Rightarrow> schema res" where
  "create_index name tab cols s =
     (if map_of (sc_indexes s) (lit name) \<noteq> None then db_error ''index already exists''
      else (case map_of (sc_tables s) (lit tab) of
          None \<Rightarrow> db_error ''no such table''
        | Some cs \<Rightarrow>
            if \<not> list_all (\<lambda>c. lit c \<in> set (map col_name cs)) cols then db_error ''no such column''
            else Inr (s\<lparr>sc_indexes := sc_indexes s @ [(lit name, lit tab, map lit cols)]\<rparr>)))"

definition drop_index :: "string \<Rightarrow> schema \<Rightarrow> schema res" where
  "drop_index name s =
     (if map_of (sc_indexes s) (lit name) = None then db_error ''no such index''
      else Inr (s\<lparr>sc_indexes := filter (\<lambda>(n, _). n \<noteq> lit name) (sc_indexes s)\<rparr>))"

definition alter_table :: "string \<Rightarrow> (column list \<Rightarrow> column list res) \<Rightarrow> schema \<Rightarrow> schema res" where
  "alter_table name f s =
     (case map_of (sc_tables s) (lit name) of
        None \<Rightarrow> db_error ''no such table''
      | Some cs \<Rightarrow> bindE (f cs) (\<lambda>cs'.
          Inr (s\<lparr>sc_tables := map (\<lambda>(n, old). (n, if n = lit name then cs' else old)) (sc_tables s)\<rparr>)))"

definition add_column :: "column \<Rightarrow> column list \<Rightarrow> column list res" where
  "add_column c cs =
     (if col_name c \<in> set (map col_name cs) then db_error ''duplicate column name'' else Inr (cs @ [c]))"

definition drop_column :: "string \<Rightarrow> column list \<Rightarrow> column list res" where
  "drop_column name cs =
     (if lit name \<notin> set (map col_name cs) then db_error ''no such column''
      else Inr (filter (\<lambda>c. col_name c \<noteq> lit name) cs))"

fun stepsE :: "('a \<Rightarrow> 'a res) list \<Rightarrow> 'a \<Rightarrow> 'a res" where
  "stepsE [] x = Inr x"
| "stepsE (f # fs) x = bindE (f x) (stepsE fs)"

subsection \<open>The migrations\<close>

definition messages_v1 :: "column list" where
  "messages_v1 =
     [key_column ''id'' (String_T 64), plain_column ''client_ip'' (String_T 64) False,
      plain_column ''raw_auth_user'' (String_T 256) False, plain_column ''sanitized_user'' (String_T 256) False,
      plain_column ''sender'' (String_T 320) False, plain_column ''recipients'' Text_T False,
      plain_column ''subject'' (String_T 998) False, plain_column ''body'' Text_T False,
      plain_column ''status'' (String_T 32) False, server_default ''0'' (plain_column ''attempts'' Integer_T False),
      plain_column ''last_error'' Text_T True, now_column ''created_at'' True,
      now_column ''updated_at'' True]"

definition settings_v1 :: "column list" where
  "settings_v1 = [key_column ''key'' (String_T 128), plain_column ''value'' Text_T False,
     now_column ''updated_at'' True]"

definition upgrade_001 :: "schema \<Rightarrow> schema res" where
  "upgrade_001 = stepsE
     [create_table ''messages'' messages_v1, create_index ''ix_messages_status'' ''messages'' [''status''],
      create_table ''settings'' settings_v1]"

definition downgrade_001 :: "schema \<Rightarrow> schema res" where
  "downgrade_001 = stepsE [drop_table ''settings'', drop_index ''ix_messages_status'', drop_table ''messages'']"

definition add_retry_columns :: "column list \<Rightarrow> column list res" where
  "add_retry_columns = stepsE
     [add_column (plain_column ''mime_payload'' Text_T True),
      add_column (plain_column ''ews_username'' (String_T 320) True),
      add_column (plain_column ''ews_password_enc'' Text_T True),
      add_column (plain_column ''next_retry_at'' DateTime_TZ True)]"

definition drop_retry_columns :: "column list \<Rightarrow> column list res" where
  "drop_retry_columns = stepsE
     [drop_column ''next_retry_at'', drop_column ''ews_password_enc'', drop_column ''ews_username'',
      drop_column ''mime_payload'']"

definition upgrade_002 :: "schema \<Rightarrow> schema res" where
  "upgrade_002 = stepsE
     [alter_table ''messages'' add_retry_columns,
      create_index ''ix_messages_next_retry'' ''messages'' [''status'', ''next_retry_at'']]"

definition downgrade_002 :: "schema \<Rightarrow> schema res" where
  "downgrade_002 = stepsE
     [drop_index ''ix_messages_next_retry'',
      alter_table ''messages'' drop_retry_columns]"

definition upgrade_003 :: "schema \<Rightarrow> schema res" where
  "upgrade_003 = create_table ''admin_users''
     [key_column ''username'' (String_T 64), plain_column ''password_hash'' Text_T False,
      server_default ''0'' (plain_column ''must_change_password'' Boolean_T False), server_default ''(CURRENT_TIMESTAMP)'' (plain_column ''created_at'' DateTime_TZ False),
      server_default ''(CURRENT_TIMESTAMP)'' (plain_column ''updated_at'' DateTime_TZ False)]"

definition downgrade_003 :: "schema \<Rightarrow> schema res" where
  "downgrade_003 = drop_table ''admin_users''"

text \<open>A revision with the one before it; \<open>command.upgrade(cfg, "head")\<close> applies what is missing.\<close>

definition revisions :: "(pystr \<times> pystr option \<times> (schema \<Rightarrow> schema res)) list" where
  "revisions =
     [(lit ''001_initial'', None, upgrade_001),
      (lit ''002_queue_retry'', Some (lit ''001_initial''), upgrade_002),
      (lit ''003_admin_users'', Some (lit ''002_queue_retry''), upgrade_003)]"

fun upgrade_from ::
    "(pystr \<times> pystr option \<times> (schema \<Rightarrow> schema res)) list \<Rightarrow> pystr option \<times> schema \<Rightarrow> (pystr option \<times> schema) res" where
  "upgrade_from [] st = Inr st"
| "upgrade_from ((r, down, up) # rs) (cur, s) =
     (if cur = down then bindE (up s) (\<lambda>s'. upgrade_from rs (Some r, s')) else upgrade_from rs (cur, s))"

definition upgrade_head :: "pystr option \<times> schema \<Rightarrow> (pystr option \<times> schema) res" where
  "upgrade_head = upgrade_from revisions"

subsection \<open>The models (db/models.py)\<close>

definition MessageRow :: "column list" where
  "MessageRow =
     [key_column ''id'' (String_T 64), plain_column ''client_ip'' (String_T 64) False,
      plain_column ''raw_auth_user'' (String_T 256) False, plain_column ''sanitized_user'' (String_T 256) False,
      plain_column ''sender'' (String_T 320) False, plain_column ''recipients'' Text_T False,
      plain_column ''subject'' (String_T 998) False, plain_column ''body'' Text_T False,
      plain_column ''status'' (String_T 32) False, plain_column ''attempts'' Integer_T False,
      plain_column ''last_error'' Text_T True, plain_column ''mime_payload'' Text_T True,
      plain_column ''ews_username'' (String_T 320) True, plain_column ''ews_password_enc'' Text_T True,
      plain_column ''next_retry_at'' DateTime_TZ True, now_column ''created_at'' False,
      now_column ''updated_at'' False]"

definition SettingRow :: "column list" where
  "SettingRow = [key_column ''key'' (String_T 128), plain_column ''value'' Text_T False,
     now_column ''updated_at'' False]"

definition AdminUserRow :: "column list" where
  "AdminUserRow =
     [key_column ''username'' (String_T 64), plain_column ''password_hash'' Text_T False,
      plain_column ''must_change_password'' Boolean_T False, now_column ''created_at'' False,
      now_column ''updated_at'' False]"

definition Base_metadata :: "column list dict" where
  "Base_metadata = [(lit ''messages'', MessageRow), (lit ''settings'', SettingRow), (lit ''admin_users'', AdminUserRow)]"

subsection \<open>The connection (db/session.py, alembic/env.py)\<close>

record engine =
  en_url :: pystr
  en_cross_thread :: bool
  en_pre_ping :: bool
  en_on_connect :: "pystr list"

definition make_engine :: "environ \<Rightarrow> pystr \<Rightarrow> pystr option \<Rightarrow> engine" where
  "make_engine env resolved url =
     (let u = (if truthy url then or_empty url else resolve_database_url env resolved)
      in if is_sqlite_url u
         then \<lparr>en_url = u, en_cross_thread = True, en_pre_ping = False,
           en_on_connect = [lit ''PRAGMA journal_mode=WAL'', lit ''PRAGMA busy_timeout=5000'']\<rparr>
         else \<lparr>en_url = u, en_cross_thread = False, en_pre_ping = True, en_on_connect = []\<rparr>)"

text \<open>The URL the migrations run on: the option, unless it is empty or the one of alembic.ini.\<close>

definition alembic_url :: "environ \<Rightarrow> pystr \<Rightarrow> pystr option \<Rightarrow> pystr" where
  "alembic_url env resolved main_option =
     (let ini = or_empty main_option
      in if ini = [] \<or> startswith ini (lit ''sqlite:///./data'') \<or> startswith ini (lit ''sqlite:///data'')
         then resolve_database_url env resolved else ini)"

definition render_as_batch :: "pystr option \<Rightarrow> bool" where
  "render_as_batch url \<longleftrightarrow> truthy url \<and> is_sqlite_url (or_empty url)"

text \<open>
  Alembic keeps its options in a \<open>ConfigParser\<close>. Setting one fails when a percent sign (37) is left
  once the doubled ones and the references \<open>%(name)s\<close> are taken out; reading one takes a doubled
  sign for a single one and replaces a reference by what it names (\<open>named\<close>).
\<close>

definition config_reference :: "pystr \<Rightarrow> (pystr \<times> pystr) option" where
  "config_reference s = (case s of [] \<Rightarrow> None | c # cs \<Rightarrow>
     let name = takeWhile (\<lambda>x. x \<noteq> 41) cs; rest = dropWhile (\<lambda>x. x \<noteq> 41) cs
     in if c = 40 \<and> name \<noteq> [] \<and> startswith rest [41, 115] then Some (name, drop 2 rest) else None)"

fun drop_pairs :: "pystr \<Rightarrow> pystr" where
  "drop_pairs (x # y # s) = (if x = 37 \<and> y = 37 then drop_pairs s else x # drop_pairs (y # s))"
| "drop_pairs s = s"

lemma config_reference_shorter: "config_reference s = Some (name, r) \<Longrightarrow> length r < length s"
  using length_dropWhile_le [of "\<lambda>x. x \<noteq> 41" "tl s"]
  by (auto simp: config_reference_def Let_def split: list.splits if_splits)

function drop_references :: "pystr \<Rightarrow> pystr" where
  "drop_references [] = []"
| "drop_references (c # cs) = (case (if c = 37 then config_reference cs else None) of
       None \<Rightarrow> c # drop_references cs
     | Some (name, r) \<Rightarrow> drop_references r)"
  by pat_completeness auto
termination
  by (relation "measure length") (auto split: if_splits dest!: config_reference_shorter)

function interpolate :: "(pystr \<Rightarrow> pystr res) \<Rightarrow> pystr \<Rightarrow> pystr res" where
  "interpolate named [] = Inr []"
| "interpolate named (c # cs) =
     (if c \<noteq> 37 then bindE (interpolate named cs) (\<lambda>t. Inr (c # t))
      else if cs \<noteq> [] \<and> hd cs = 37 then bindE (interpolate named (tl cs)) (\<lambda>t. Inr (37 # t))
      else (case config_reference cs of
          None \<Rightarrow> Inl (Exn OtherError (lit ''InterpolationSyntaxError''))
        | Some (name, r) \<Rightarrow>
            bindE (named name) (\<lambda>v. bindE (interpolate named r) (\<lambda>t. Inr (v @ t)))))"
  by pat_completeness auto
termination
  by (relation "measure (length \<circ> snd)") (auto dest!: config_reference_shorter)

definition set_main_option :: "pystr \<Rightarrow> pystr res" where
  "set_main_option value =
     (if 37 \<in> set (drop_references (drop_pairs value))
      then Inl (Exn ValueError (lit ''invalid interpolation syntax'')) else Inr value)"

text \<open>The sessions of the application.\<close>

record session_factory =
  sf_bind :: engine
  sf_autoflush :: bool
  sf_autocommit :: bool

definition make_session_factory :: "engine \<Rightarrow> session_factory" where
  "make_session_factory e = \<lparr>sf_bind = e, sf_autoflush = False, sf_autocommit = False\<rparr>"

text \<open>
  \<open>alembic/env.py\<close> configures a migration context: offline for a URL, to write the statements out,
  online for a connection of an engine of its own, which has none of the settings of \<open>make_engine\<close>.
\<close>

record migration_context =
  mc_url :: "pystr option"
  mc_connection :: "engine option"
  mc_metadata :: "column list dict"
  mc_literal_binds :: bool
  mc_paramstyle :: "pystr option"
  mc_batch :: bool

definition migration_engine :: "pystr \<Rightarrow> engine" where
  "migration_engine url = \<lparr>en_url = url, en_cross_thread = False, en_pre_ping = False, en_on_connect = []\<rparr>"

definition run_migrations_offline ::
    "pystr \<Rightarrow> (pystr \<Rightarrow> pystr option \<times> schema) \<Rightarrow> (migration_context \<times> pystr option \<times> schema) res" where
  "run_migrations_offline url databases =
     Inr (\<lparr>mc_url = Some url, mc_connection = None, mc_metadata = Base_metadata, mc_literal_binds = True,
       mc_paramstyle = Some (lit ''named''), mc_batch = render_as_batch (Some url)\<rparr>, databases url)"

definition run_migrations_online ::
    "pystr \<Rightarrow> (pystr \<Rightarrow> pystr option \<times> schema) \<Rightarrow> (migration_context \<times> pystr option \<times> schema) res" where
  "run_migrations_online url databases =
     bindE (upgrade_head (databases url)) (\<lambda>st.
       Inr (\<lparr>mc_url = None, mc_connection = Some (migration_engine url), mc_metadata = Base_metadata,
         mc_literal_binds = False, mc_paramstyle = None, mc_batch = render_as_batch (Some url)\<rparr>, st))"

text \<open>The URL \<open>alembic/env.py\<close> settles on, given the option as it reads it, and what it then runs.\<close>

definition env_url :: "(pystr \<Rightarrow> pystr res) \<Rightarrow> environ \<Rightarrow> pystr \<Rightarrow> pystr \<Rightarrow> pystr res" where
  "env_url named env resolved ini =
     (if alembic_url env resolved (Some ini) = ini then Inr ini
      else bindE (set_main_option (alembic_url env resolved (Some ini))) (interpolate named))"

definition run_env ::
    "bool \<Rightarrow> (pystr \<Rightarrow> pystr res) \<Rightarrow> environ \<Rightarrow> pystr \<Rightarrow> pystr \<Rightarrow> (pystr \<Rightarrow> pystr option \<times> schema)
      \<Rightarrow> (migration_context \<times> pystr option \<times> schema) res" where
  "run_env offline named env resolved ini databases =
     bindE (env_url named env resolved ini) (\<lambda>url.
       if offline then run_migrations_offline url databases else run_migrations_online url databases)"

text \<open>
  \<open>run_migrations\<close>: the URL it hands over, and the one \<open>alembic/env.py\<close> then uses. The directory
  of a file database is made before, which is taken to succeed.
\<close>

definition run_migrations ::
    "(pystr \<Rightarrow> pystr res) \<Rightarrow> environ \<Rightarrow> pystr \<Rightarrow> (pystr \<Rightarrow> pystr option \<times> schema)
      \<Rightarrow> (pystr \<times> pystr option \<times> schema) res" where
  "run_migrations named env resolved databases =
     bindE (bindE (set_main_option (resolve_database_url env resolved)) (interpolate named)) (\<lambda>ini.
     bindE (env_url named env resolved ini) (\<lambda>url.
     bindE (upgrade_head (databases url)) (\<lambda>st. Inr (url, st))))"

text \<open>
  The start of the application is the online mode. The offline mode leaves every database alone,
  batch mode is for SQLite only, and the migrations run without the pragmas of the application.
\<close>

lemma run_migrations_is_online:
  "run_migrations named env resolved databases =
     bindE (bindE (set_main_option (resolve_database_url env resolved)) (interpolate named)) (\<lambda>ini.
     bindE (run_env False named env resolved ini databases) (\<lambda>(ctx, st).
       Inr (case mc_connection ctx of None \<Rightarrow> ini | Some e \<Rightarrow> en_url e, st)))"
  by (simp add: run_migrations_def run_env_def run_migrations_online_def migration_engine_def bindE_def
      split: sum.split)

lemma run_env_modes:
  assumes "run_env offline named env resolved ini databases = Inr (ctx, st)"
  shows "\<exists>url. env_url named env resolved ini = Inr url \<and> mc_batch ctx = (url \<noteq> [] \<and> is_sqlite_url url)
    \<and> mc_metadata ctx = Base_metadata
    \<and> (if offline then mc_url ctx = Some url \<and> st = databases url
       else mc_connection ctx = Some (migration_engine url) \<and> upgrade_head (databases url) = Inr st
         \<and> (if is_sqlite_url url \<and> url \<noteq> []
            then en_on_connect (make_engine env resolved (Some url)) \<noteq> en_on_connect (migration_engine url) else True))"
proof -
  have batch: "render_as_batch (Some u) = (u \<noteq> [] \<and> is_sqlite_url u)" for u
    by (simp add: render_as_batch_def)
  obtain url where url: "env_url named env resolved ini = Inr url"
    and run: "(if offline then run_migrations_offline url databases else run_migrations_online url databases) = Inr (ctx, st)"
    using assms by (auto simp: run_env_def bindE_Inr_iff)
  show ?thesis
  proof (cases offline)
    case True
    then have "run_migrations_offline url databases = Inr (ctx, st)" using run by simp
    then have "mc_url ctx = Some url" "st = databases url" "mc_batch ctx = render_as_batch (Some url)"
      "mc_metadata ctx = Base_metadata"
      by (simp_all add: run_migrations_offline_def) (elim conjE, drule sym, simp)+
    then show ?thesis using True url batch by (intro exI [of _ url]) simp
  next
    case False
    then have "run_migrations_online url databases = Inr (ctx, st)" using run by simp
    then have "upgrade_head (databases url) = Inr st" "mc_connection ctx = Some (migration_engine url)"
      "mc_batch ctx = render_as_batch (Some url)" "mc_metadata ctx = Base_metadata"
      by (auto simp: run_migrations_online_def bindE_Inr_iff)
    then show ?thesis using False url batch
      by (intro exI [of _ url]) (simp add: make_engine_def migration_engine_def Let_def)
  qed
qed

subsection \<open>A downgrade undoes its upgrade\<close>

lemma filter_new_key: "map_of kvs k = None \<Longrightarrow> filter (\<lambda>(n, _). n \<noteq> k) kvs = kvs"
  by (force simp: filter_id_conv map_of_eq_None_iff)

lemma drop_created_table: "create_table name cols s = Inr s' \<Longrightarrow> drop_table name s' = Inr s"
  by (auto simp: create_table_def drop_table_def db_error_def filter_new_key map_of_append map_add_def
      split: if_splits option.splits)

lemma drop_created_index: "create_index name tab cols s = Inr s' \<Longrightarrow> drop_index name s' = Inr s
    \<and> sc_tables s' = sc_tables s"
  by (auto simp: create_index_def drop_index_def db_error_def filter_new_key map_add_def
      split: if_splits option.splits)

lemma drop_added_column: "add_column c cs = Inr cs' \<Longrightarrow> col_name c = lit name \<Longrightarrow> drop_column name cs' = Inr cs"
  by (auto simp: add_column_def drop_column_def db_error_def filter_id_conv split: if_splits) (metis imageI)

text \<open>Steps are undone in the opposite order.\<close>

lemma stepsE_snoc: "stepsE (fs @ [f]) x = bindE (stepsE fs x) f"
  by (induction fs arbitrary: x) (auto simp: bindE_def split: sum.splits)

definition undoes :: "('a \<Rightarrow> 'a res) \<Rightarrow> ('a \<Rightarrow> 'a res) \<Rightarrow> bool" where
  "undoes g f \<longleftrightarrow> (\<forall>x y. f x = Inr y \<longrightarrow> g y = Inr x)"

lemma undoes_steps: "list_all2 undoes gs fs \<Longrightarrow> undoes (stepsE (rev gs)) (stepsE fs)"
proof (induction gs fs rule: list_all2_induct)
  case (Cons g gs f fs)
  show ?case
    unfolding undoes_def
  proof (intro allI impI)
    fix x y assume "stepsE (f # fs) x = Inr y"
    then obtain z where "f x = Inr z" "stepsE fs z = Inr y" by (auto simp: bindE_Inr_iff)
    then show "stepsE (rev (g # gs)) y = Inr x"
      using Cons by (simp add: stepsE_snoc undoes_def)
  qed
qed (simp add: undoes_def)

lemma undoes_column: "lit name = col_name c \<Longrightarrow> undoes (drop_column name) (add_column c)"
  using drop_added_column by (simp add: undoes_def)

lemma alter_back:
  assumes "distinct (map fst (sc_tables s))" "alter_table name f s = Inr s'" "undoes g f"
  shows "alter_table name g s' = Inr s"
proof -
  from assms(2) obtain cs cs' where cs: "map_of (sc_tables s) (lit name) = Some cs" "f cs = Inr cs'"
    and s': "s' = s\<lparr>sc_tables := map (\<lambda>(n, old). (n, if n = lit name then cs' else old)) (sc_tables s)\<rparr>"
    by (auto simp: alter_table_def db_error_def bindE_Inr_iff split: option.splits)
  have "map_of (map (\<lambda>(n, old). (n, if n = lit name then cs' else old)) kvs) (lit name)
      = map_option (\<lambda>_. cs') (map_of kvs (lit name))" for kvs
    by (induction kvs) auto
  moreover have "g cs' = Inr cs" using assms(3) cs(2) by (simp add: undoes_def)
  moreover have "map (\<lambda>(n, old). (n, if n = lit name then cs else old))
      (map (\<lambda>(n, old). (n, if n = lit name then cs' else old)) (sc_tables s)) = sc_tables s"
    using assms(1) cs(1) by (auto intro!: map_idI dest: eq_key_imp_eq_value)
  ultimately show ?thesis using cs(1) by (simp add: alter_table_def s')
qed

lemma undoes_002: "undoes drop_retry_columns add_retry_columns"
  using undoes_steps [of "[drop_column ''mime_payload'', drop_column ''ews_username'',
      drop_column ''ews_password_enc'', drop_column ''next_retry_at'']"
    "[add_column (plain_column ''mime_payload'' Text_T True),
      add_column (plain_column ''ews_username'' (String_T 320) True),
      add_column (plain_column ''ews_password_enc'' Text_T True),
      add_column (plain_column ''next_retry_at'' DateTime_TZ True)]"]
  unfolding add_retry_columns_def drop_retry_columns_def by (simp add: undoes_column plain_column_def)


subsection \<open>The migrations and the models\<close>

text \<open>
  A column of the database fits the one of a model: name, type and key are the same, where the
  model leaves a value to the database there is a default, and null is allowed alike, except
  that the migrations leave the time stamps of the two older tables nullable.
\<close>

definition time_stamp :: "column \<Rightarrow> bool" where
  "time_stamp c \<longleftrightarrow> col_name c = lit ''created_at'' \<or> col_name c = lit ''updated_at''"

definition column_fits :: "column list \<Rightarrow> column \<Rightarrow> bool" where
  "column_fits cs c \<longleftrightarrow> list_ex (\<lambda>d. col_name d = col_name c \<and> col_type d = col_type c \<and> col_pk d = col_pk c
     \<and> (if time_stamp c then True else col_nullable d = col_nullable c)
     \<and> (if col_default c = None then True else col_default d \<noteq> None)) cs"

definition fits_models :: "schema \<Rightarrow> bool" where
  "fits_models s \<longleftrightarrow> map fst (sc_tables s) = map fst Base_metadata
     \<and> list_all (\<lambda>(name, cols). case map_of (sc_tables s) name of
          None \<Rightarrow> False
        | Some cs \<Rightarrow> length cs = length cols \<and> distinct (map col_name cs) \<and> list_all (column_fits cs) cols)
        Base_metadata"

lemma fresh_upgrade: "case upgrade_head (None, empty_schema) of
    Inl e \<Rightarrow> False | Inr (cur, s) \<Rightarrow> cur = Some (lit ''003_admin_users'') \<and> fits_models s
      \<and> map fst (sc_indexes s) = [lit ''ix_messages_status'', lit ''ix_messages_next_retry'']"
  by code_simp

lemma head_is_last: "upgrade_head (Some (lit ''003_admin_users''), s) = Inr (Some (lit ''003_admin_users''), s)"
  by (simp add: upgrade_head_def revisions_def lit_def)

lemma same_database: "alembic_url env resolved (Some (resolve_database_url env resolved)) = resolve_database_url env resolved"
  by (simp add: alembic_url_def Let_def)

lemma plain_pairs: "37 \<notin> set s \<Longrightarrow> drop_pairs s = s"
  by (induction s rule: drop_pairs.induct) auto

lemma plain_references: "37 \<notin> set s \<Longrightarrow> drop_references s = s"
  by (induction s) auto

lemma plain_interpolate: "37 \<notin> set s \<Longrightarrow> interpolate named s = Inr s"
  by (induction s) auto

lemma plain_option: "37 \<notin> set s \<Longrightarrow> bindE (set_main_option s) (interpolate named) = Inr s"
  by (simp add: set_main_option_def plain_pairs plain_references plain_interpolate)


text \<open>An address with a password in which \<open>@\<close> is written \<open>%40\<close>.\<close>

definition encoded_password_url :: pystr where
  "encoded_password_url = lit ''postgresql://msgate:p%40ss@db/msgate''"



end
