(* ===== verification/Load_Test.thy ===== *)
theory Load_Test
  imports Py_Prelude
begin

section \<open>The load test (scripts/load\_test\_smtp.py)\<close>

text \<open>
  A burst of SMTP clients against the gateway, and the account of their outcomes. What the server
  answers one client is a \<open>dialogue\<close>: the step of smtplib that raises, if one does. The order in
  which the clients complete is a list of their indices. The values of the command line are the
  record \<open>burst_args\<close>; argparse itself is left out.
\<close>

subsection \<open>One client\<close>

text \<open>
  smtplib raises a \<open>SMTPResponseException\<close> with the code of the reply and its bytes, given here as
  their \<open>repr\<close>, or something else, given as its \<open>str\<close>.
\<close>

datatype client_exn = SMTPResponseException int pystr | OtherException pystr

type_synonym outcome = "client_exn option"

text \<open>
  \<open>on_quit\<close> is what leaving the \<open>with\<close> block raises: a reply to QUIT other than 221. It replaces
  what the block raised.
\<close>

record 'm dialogue =
  on_connect :: outcome
  on_ehlo :: outcome
  on_login :: "pystr \<Rightarrow> pystr \<Rightarrow> outcome"
  on_send :: "'m \<Rightarrow> outcome"
  on_quit :: outcome

record burst_args =
  ba_host :: pystr
  ba_port :: int
  ba_count :: int
  ba_concurrency :: int
  ba_mail_from :: pystr
  ba_rcpt_to :: pystr
  ba_user :: "pystr option"
  ba_password :: "pystr option"
  ba_subject :: pystr

definition burst_defaults :: burst_args where
  "burst_defaults = \<lparr>ba_host = lit ''127.0.0.1'', ba_port = 25, ba_count = 100, ba_concurrency = 10,
     ba_mail_from = lit ''zabbix@example.com'', ba_rcpt_to = lit ''ops@example.com'', ba_user = None,
     ba_password = None, ba_subject = lit ''msgate-loadtest''\<rparr>"

fun first_raise :: "outcome list \<Rightarrow> outcome" where
  "first_raise [] = None"
| "first_raise (Some e # _) = Some e"
| "first_raise (None # os) = first_raise os"

definition with_smtp :: "'m dialogue \<Rightarrow> pystr option \<Rightarrow> pystr option \<Rightarrow> 'm \<Rightarrow> outcome" where
  "with_smtp d user password msg =
     (case on_connect d of Some e \<Rightarrow> Some e
      | None \<Rightarrow> (case on_quit d of Some e \<Rightarrow> Some e
        | None \<Rightarrow> first_raise [on_ehlo d,
            (case user of None \<Rightarrow> None | Some u \<Rightarrow> on_login d u (or_empty password)), on_send d msg]))"

text \<open>The message is built before the \<open>try\<close>, so a header the module email refuses ends the burst.\<close>

type_synonym 'm make_message = "pystr \<Rightarrow> pystr \<Rightarrow> pystr \<Rightarrow> pystr \<Rightarrow> 'm res"

datatype status = Ok | Deferred | Failed

definition status_of :: "outcome \<Rightarrow> status \<times> pystr" where
  "status_of r = (case r of
       None \<Rightarrow> (Ok, [])
     | Some (SMTPResponseException code e) \<Rightarrow>
         (if 400 \<le> code \<and> code < 500 then Deferred else Failed, str_int code @ 32 # e)
     | Some (OtherException e) \<Rightarrow> (Failed, e))"

definition one_client ::
    "'m make_message \<Rightarrow> 'm dialogue \<Rightarrow> burst_args \<Rightarrow> int \<Rightarrow> secs \<Rightarrow> secs \<Rightarrow> (status \<times> rat \<times> pystr) res" where
  "one_client mk d a i t0 t1 =
     bindE (mk (ba_mail_from a) (ba_rcpt_to a) (ba_subject a @ lit '' #'' @ str_int i)
              (lit ''msgate load test message '' @ str_int i @ [10])) (\<lambda>msg.
       case status_of (with_smtp d (ba_user a) (ba_password a) msg) of
         (st, err) \<Rightarrow> Inr (st, (t1 - t0) * 1000, err))"

subsection \<open>The burst\<close>

record burst_result =
  ok :: nat
  deferred :: nat
  failed :: nat
  duration_s :: rat
  latencies_ms :: "rat list"
  burst_errors :: "pystr list"

definition no_burst :: burst_result where
  "no_burst = \<lparr>ok = 0, deferred = 0, failed = 0, duration_s = 0, latencies_ms = [], burst_errors = []\<rparr>"

definition note_error :: "pystr \<Rightarrow> burst_result \<Rightarrow> burst_result" where
  "note_error err b = (if length (burst_errors b) < 10 then b\<lparr>burst_errors := burst_errors b @ [err]\<rparr> else b)"

fun take_result :: "burst_result \<Rightarrow> status \<times> rat \<times> pystr \<Rightarrow> burst_result" where
  "take_result b (st, ms, err) =
     (let b = b\<lparr>latencies_ms := latencies_ms b @ [ms]\<rparr>
      in case st of Ok \<Rightarrow> b\<lparr>ok := ok b + 1\<rparr>
         | Deferred \<Rightarrow> note_error err (b\<lparr>deferred := deferred b + 1\<rparr>)
         | Failed \<Rightarrow> note_error err (b\<lparr>failed := failed b + 1\<rparr>))"

fun take_futures :: "burst_result \<Rightarrow> (status \<times> rat \<times> pystr) res list \<Rightarrow> burst_result res" where
  "take_futures b [] = Inr b"
| "take_futures b (f # fs) = bindE f (\<lambda>r. take_futures (take_result b r) fs)"

text \<open>\<open>order\<close> lists the indices of the clients as they complete; \<open>run i\<close> is what client \<open>i\<close> returned.\<close>

definition run_burst :: "(int \<Rightarrow> (status \<times> rat \<times> pystr) res) \<Rightarrow> int list \<Rightarrow> secs \<Rightarrow> secs \<Rightarrow> burst_result res" where
  "run_burst run order t0 t1 =
     bindE (take_futures no_burst (map run order)) (\<lambda>b. Inr (b\<lparr>duration_s := t1 - t0\<rparr>))"

subsection \<open>The report\<close>

definition fmt_dec :: "nat \<Rightarrow> rat \<Rightarrow> pystr" where
  "fmt_dec k x =
     (let n = \<bar>round_half_even (x * 10 ^ k)\<bar>; frac = str_int (n mod 10 ^ k)
      in (if x < 0 then [45] else []) @ str_int (n div 10 ^ k)
           @ 46 # replicate (k - length frac) 48 @ frac)"

definition median :: "rat list \<Rightarrow> rat" where
  "median xs = (let s = sort xs; n = length xs
     in if odd n then s ! (n div 2) else (s ! (n div 2 - 1) + s ! (n div 2)) / 2)"

definition mean :: "rat list \<Rightarrow> rat" where
  "mean xs = sum_list xs / of_nat (length xs)"

definition burst_report :: "burst_result \<Rightarrow> pystr list" where
  "burst_report b =
     (let rate = (if duration_s b > 0 then of_nat (ok b) / duration_s b else 0)
      in [lit ''ok='' @ str_int (int (ok b)) @ lit '' deferred_4xx='' @ str_int (int (deferred b))
            @ lit '' failed='' @ str_int (int (failed b)),
          lit ''wall_seconds='' @ fmt_dec 2 (duration_s b) @ lit '' accept_rate_ok_per_s='' @ fmt_dec 1 rate]
         @ (if latencies_ms b = [] then []
            else [lit ''latency_ms p50='' @ fmt0 (median (latencies_ms b)) @ lit '' max=''
                    @ fmt0 (Max (set (latencies_ms b))) @ lit '' mean='' @ fmt0 (mean (latencies_ms b))])
         @ map (\<lambda>e. lit ''sample_error: '' @ e) (burst_errors b))"

definition burst_main ::
    "burst_args \<Rightarrow> (int \<Rightarrow> (status \<times> rat \<times> pystr) res) \<Rightarrow> int list \<Rightarrow> secs \<Rightarrow> secs \<Rightarrow> pystr list \<times> int res" where
  "burst_main a run order t0 t1 =
     (let start = lit ''burst host='' @ ba_host a @ 58 # str_int (ba_port a) @ lit '' count='' @ str_int (ba_count a)
            @ lit '' concurrency='' @ str_int (ba_concurrency a)
      in case run_burst run order t0 t1 of
           Inl e \<Rightarrow> ([start], Inl e)
         | Inr b \<Rightarrow> (start # burst_report b, Inr (if failed b > 0 then 1 else 0)))"

subsection \<open>The account\<close>

definition with_status :: "status \<Rightarrow> (status \<times> rat \<times> pystr) list \<Rightarrow> nat" where
  "with_status st rs = length (filter (\<lambda>r. fst r = st) rs)"

lemma take_result_counts:
  "ok (foldl take_result b rs) = ok b + with_status Ok rs"
  "deferred (foldl take_result b rs) = deferred b + with_status Deferred rs"
  "failed (foldl take_result b rs) = failed b + with_status Failed rs"
  "latencies_ms (foldl take_result b rs) = latencies_ms b @ map (fst \<circ> snd) rs"
  by (induction rs arbitrary: b)
    (auto simp: with_status_def note_error_def Let_def split: status.splits)

lemma take_result_errors:
  "length (burst_errors b) \<le> 10 \<Longrightarrow> burst_errors (foldl take_result b rs)
     = take 10 (burst_errors b @ map (snd \<circ> snd) (filter (\<lambda>r. fst r \<noteq> Ok) rs))"
proof (induction rs arbitrary: b)
  case (Cons r rs)
  have now: "burst_errors (take_result b r)
      = take 10 (burst_errors b @ (if fst r \<noteq> Ok then [snd (snd r)] else []))"
    using Cons.prems by (cases r) (auto simp: Let_def note_error_def split: status.splits)
  then have "length (burst_errors (take_result b r)) \<le> 10" by simp
  note IH = Cons.IH [OF this]
  show ?case
    using IH Cons.prems by (cases "length (burst_errors b) = 10") (auto simp: now take_Cons')
qed simp

lemma take_futures_all: "take_futures b (map Inr rs) = Inr (foldl take_result b rs)"
  by (induction rs arbitrary: b) simp_all

lemma status_total: "with_status Ok rs + with_status Deferred rs + with_status Failed rs = length rs"
proof (induction rs)
  case (Cons r rs)
  then show ?case by (cases "fst r") (simp_all add: with_status_def)
qed (simp add: with_status_def)

text \<open>
  Whatever the order in which the clients complete, every client is counted once, at most the
  first ten errors are kept, and the exit code is 0 exactly when nothing but acceptances and 4xx
  replies was seen.
\<close>

lemma burst_accounts:
  assumes "\<And>i. run i = Inr (res i)"
  shows "\<exists>b. run_burst run order t0 t1 = Inr b
    \<and> ok b = with_status Ok (map res order) \<and> deferred b = with_status Deferred (map res order)
    \<and> ok b + deferred b + failed b = length order
    \<and> burst_errors b = take 10 (map (snd \<circ> snd) (filter (\<lambda>r. fst r \<noteq> Ok) (map res order)))
    \<and> (snd (burst_main a run order t0 t1) = Inr 0 \<longleftrightarrow> list_all (\<lambda>i. fst (res i) \<noteq> Failed) order)"
proof -
  let ?b = "foldl take_result no_burst (map res order)"
  have "map run order = map Inr (map res order)"
    using assms by simp
  then have run: "run_burst run order t0 t1 = Inr (?b\<lparr>duration_s := t1 - t0\<rparr>)"
    unfolding run_burst_def by (simp only: take_futures_all bindE_simps)
  have "failed ?b = 0 \<longleftrightarrow> list_all (\<lambda>i. fst (res i) \<noteq> Failed) order"
    by (simp add: take_result_counts no_burst_def with_status_def filter_empty_conv list_all_iff)
  then have "\<not> failed ?b > 0 \<longleftrightarrow> list_all (\<lambda>i. fst (res i) \<noteq> Failed) order" by simp
  then show ?thesis
    using status_total [of "map res order"]
    by (auto simp: run burst_main_def take_result_counts take_result_errors no_burst_def)
qed

end
