(* ===== verification/Spec2Isabelle.thy ===== *)
theory Spec2Isabelle
  imports Queue_Retries Cli_Args Ui_Pages Ws_Stream Db_Schema Load_Test
begin

text \<open>
  msgate is an SMTP gateway in front of Microsoft Exchange. A mail a client hands in over SMTP
  is checked against the relay rules and against the state of the gateway, stored in a table
  with the sender's credentials encrypted, and delivered later by worker threads over Exchange
  Web Services, with retries, a circuit breaker and a TLS profile negotiated per server. A web
  interface edits the configuration and shows the traffic. This library models the Python code
  under \<^verbatim>\<open>src/src/msgate\<close>, to which paths below are relative, the migrations under
  \<^verbatim>\<open>src/alembic\<close> and the load test under \<^verbatim>\<open>src/scripts\<close>.

  \<^bold>\<open>Conventions.\<close> Strings are lists of code points, bytes and instants are integers, JSON
  documents and dictionaries are data of their own (\<^verbatim>\<open>Py_Prelude\<close>, \<^verbatim>\<open>Py_Codecs\<close>, \<^verbatim>\<open>Json_Text\<close>). An
  exception is a value \<^verbatim>\<open>Exn kind text\<close>; what may raise returns \<^verbatim>\<open>exn + 'a\<close>. A class is a record,
  a method a function from the record to the record. Clocks, random values, environment
  variables and the answers of libraries that are not under \<^verbatim>\<open>src\<close> are arguments: \<^verbatim>\<open>crypto\<close>
  (AES-GCM, SHA-256, HMAC, scrypt), \<^verbatim>\<open>pydantic\<close> (the parsers of HttpUrl, EmailStr and the lax
  scalars), \<^verbatim>\<open>network\<close> (sockets and OpenSSL), \<^verbatim>\<open>exchange\<close> (exchangelib), \<^verbatim>\<open>mail_lib\<close> (the MIME
  parser), \<^verbatim>\<open>report_lib\<close> (the MIME writer). A theorem that relies on such a library names the documented law it needs
  (\<^verbatim>\<open>aead_law\<close>, \<^verbatim>\<open>digest_law\<close>, \<^verbatim>\<open>pydantic_law\<close>), and its witness gives a concrete library that has it.

  \<^bold>\<open>Parts.\<close>

  \<^item> \<^verbatim>\<open>Queue_Backoff\<close> (queue/backoff.py): which errors are retriable, compared with an independent
    description of the regular expression, and the delays of the retries.
  \<^item> \<^verbatim>\<open>Circuit_Breaker\<close> (queue/circuit\_breaker.py): the breaker, and its state as a function of the
    trace of calls.
  \<^item> \<^verbatim>\<open>Secret_Box\<close> (crypto/secrets.py): encryption of stored secrets and the choice of the key.
  \<^item> \<^verbatim>\<open>Gateway_Config\<close>, \<^verbatim>\<open>Config_Store\<close> (schemas/config.py, schemas/enums.py, config/store.py,
    config/runtime.py): the configuration, its validation, its encrypted storage, the redaction
    for the API and the merge of an update. Saved configurations load again; redaction hides
    the secrets and sending the redacted document back keeps them.
  \<^item> \<^verbatim>\<open>Tls_Profiles\<close>, \<^verbatim>\<open>Tls_Cache\<close>, \<^verbatim>\<open>Tls_Negotiate\<close> (tls/): profiles, contexts and probes, the cache
    with its file, the negotiation, and the transition system of the process-wide TLS state
    with the invariant that the modern mode is never weakened.
  \<^item> \<^verbatim>\<open>Ews_Client\<close> (ews/), \<^verbatim>\<open>Mail_Drivers\<close> (drivers/): the translation of a mail to an Exchange
    message and its submission with the fallbacks on TLS failures; the drivers, the registry
    and the health check.
  \<^item> \<^verbatim>\<open>Metrics\<close> (observability/metrics.py), \<^verbatim>\<open>Event_Hub\<close> (events/hub.py, observability/webhooks.py):
    counters and their rendering; publication of events to the history, the subscribers and
    the webhooks.
  \<^item> \<^verbatim>\<open>Message_Store\<close> (queue/repository.py, db/models.py, schemas/messages.py): the table of
    messages as the list of its rows and every operation on it.
  \<^item> \<^verbatim>\<open>Queue_Processor\<close>, \<^verbatim>\<open>Queue_Service\<close>, \<^verbatim>\<open>Queue_Worker\<close> (queue/processor.py, queue/service.py,
    queue/worker.py): delivery of one row, acceptance of a mail under backpressure, the loop of
    a worker.
  \<^item> \<^verbatim>\<open>Queue_System\<close>: any number of workers, the SMTP side and crashes as the step relation
    \<^verbatim>\<open>sys_step\<close> over the shared table; the steps of the threads alone are \<^verbatim>\<open>worker_step\<close>. A row is claimed by at most one worker, accepted by the
    server at most once, handed over at most eight times and follows the life cycle of a
    message; a row that is held at a crash stays in PROCESSING. The sequential loop \<^verbatim>\<open>drain\<close> is
    a run of this system.
  \<^item> \<^verbatim>\<open>Queue_Delivery\<close>: the SMTP side and the loop of a worker put together. Accepted mails are handed
    over once each, in the order of acceptance and with the data of the client, and leave no
    row waiting; while the server fails, the breaker bounds the attempts of a whole cool-down.
  \<^item> \<^verbatim>\<open>End_To_End\<close> (the wiring of app/bootstrap.py): the SMTP side with its authenticator, the table, any
    number of workers and the Exchange client with its TLS state as one step relation
    \<^verbatim>\<open>gateway_step\<close>, from the mail a client hands in to what an Exchange server accepts. In
    every reachable state what Exchange took are different mails that were answered with 250,
    each the translation of its bytes, under its own login and with its own recipients; and a
    drain hands over all that waits while the servers take it.
  \<^item> \<^verbatim>\<open>Queue_Retries\<close>: the polls of a worker over time, whatever the servers answer. After eight polls
    per waiting mail, each the longest delay and the cool-down after the one before, no mail waits.
  \<^item> \<^verbatim>\<open>Ip_Access\<close>, \<^verbatim>\<open>Smtp_Auth\<close>, \<^verbatim>\<open>Smtp_Handler\<close> (smtp/, auth/sanitize.py): the allowlist with the
    address parsers of the module ipaddress, compared with matching of bit prefixes; user
    names; the handler of DATA with its replies.
  \<^item> \<^verbatim>\<open>Web_Session\<close>, \<^verbatim>\<open>Web_Auth\<close> (auth/session.py, auth/passwords.py, auth/admin.py,
    auth/web\_middleware.py, api/routes/auth\_ui.py, http/root\_path.py): session cookies, password
    hashes, the gate in front of every route and the login, setup, password and logout routes.
  \<^item> \<^verbatim>\<open>Web_App\<close> (api/app.py): the table of all routes and the two middlewares as \<^verbatim>\<open>serve_request\<close>. No
    route but the probes and the login is reached without a signed session; over any list of
    visits of a browser a session is there only if the password was given or the set-up done
    since the last logout, and the right password lets in.
  \<^item> \<^verbatim>\<open>Config_Boot\<close> (config\_load.py, config/load.py, config/export.py): the configuration of the
    environment, which decides at the first start only, and the encrypted bundles.
  \<^item> \<^verbatim>\<open>Ops_Settings\<close>, \<^verbatim>\<open>Ops_Capacity\<close>, \<^verbatim>\<open>Ops_Watch\<close> (ops/alerts\_config.py, ops/digest\_state.py,
    ops/capacity.py, ops/watcher.py, ops/alert\_mail.py): the stored settings, whose values are
    not checked when they are read, the grade of the gateway, and the watcher as a step relation:
    alerts respect their cool-down in every run.
  \<^item> \<^verbatim>\<open>Py_Calendar\<close>, \<^verbatim>\<open>Digest_Report\<close>, \<^verbatim>\<open>Text_Pdf\<close>, \<^verbatim>\<open>Digest_Scheduler\<close> (ops/digest\_report.py,
    ops/digest\_pdf.py, ops/digest\_mail.py, ops/digest\_scheduler.py): what a digest says, the
    PDF it is written to, and when it is sent: at most once a day and once a week in every run.
  \<^item> \<^verbatim>\<open>Log_Reader\<close> (observability/log\_reader.py, log\_retention.py): the search of the log files,
    compared with a search of everything, and the purge.
  \<^item> \<^verbatim>\<open>Logging_Setup\<close> (paths.py, logging\_setup.py, log\_retention.py, alembic/env.py): the names of the
    files, the tree of loggers with the handlers a record reaches, and what \<^verbatim>\<open>fileConfig\<close> of the
    migrations does to it.
  \<^item> \<^verbatim>\<open>Db_Schema\<close> (db/models.py, db/session.py, alembic/): the migrations as operations on schemas; a
    downgrade undoes its upgrade, and a start brings an empty database to what the models declare.
    Both modes of Alembic are there: the one with a connection and the one that only prints.
  \<^item> \<^verbatim>\<open>App_State\<close> (app/state.py, app/bootstrap.py): the shared state, its gauges and the start.
  \<^item> \<^verbatim>\<open>Api_Routes\<close>, \<^verbatim>\<open>Cli_Commands\<close> (api/, tools/diagnostics.py, \_\_main\_\_.py, cli/admin.py): the routes
    of the API as functions from the application to reply and application, and two commands.
  \<^item> \<^verbatim>\<open>Ws_Stream\<close> (api/routes/ws.py): the loop of a live stream against the publications of other
    threads: what a browser gets has no gap, and ends without a word once it lagged behind.
  \<^item> \<^verbatim>\<open>Ui_Pages\<close> (api/routes/ui.py, ui\_logs.py, ui\_messages.py, auth\_ui.py, ui/context.py): the pages as
    the contexts of their templates. Opening one changes nothing and shows no secret.
  \<^item> \<^verbatim>\<open>Serve_Command\<close> (\_\_main\_\_.py, the threads of ops/watcher.py and ops/digest\_scheduler.py): the
    command \<^verbatim>\<open>serve\<close> from the set-up of the log to its end, which brings up every part and takes
    it down again, but whose migrations silence the log; the process waits in naps for a signal.
  \<^item> \<^verbatim>\<open>Cli_Args\<close> (\_\_main\_\_.py): the parsers of \<^verbatim>\<open>main\<close>, with what they use of argparse. What a command
    line says in full is what the command gets, and every other line ends in a help text, a usage
    error or a command with a valid log level.
  \<^item> \<^verbatim>\<open>Load_Test\<close> (scripts/load\_test\_smtp.py): the burst of clients and the account of it, which counts
    every client once whatever the order in which they complete.

  \<^bold>\<open>Interfaces.\<close> \<^verbatim>\<open>Kv_Store\<close> is the contract of a store under string keys, which the settings
  table, the SMTP credentials, the TLS profiles and the Exchange accounts keep. \<^verbatim>\<open>Work_Queue\<close> is
  the contract of a conditional claim that counts the rows it changed; the table of messages
  provides it, and the exclusion of workers rests on it. The locale \<^verbatim>\<open>mail_driver\<close> is the
  contract of a driver's configuration check, which the four drivers provide.

  \<^bold>\<open>Bounds and fuel.\<close> \<^verbatim>\<open>drain\<close> takes the list of the clock readings and library answers of its
  turns, one per turn; \<^verbatim>\<open>drain_terminates\<close> shows that a list one longer than the attempts left
  in the table is enough, since every turn that does not stop counts an attempt and a row has
  at most eight. For the same reason eight polls per waiting row are enough for
  \<^verbatim>\<open>every_waiting_mail_is_settled\<close>, if they are 300 seconds, the longest delay of a retry, and the
  cool-down of the breaker apart. The JSON reader spends one unit of fuel per value and gets the length of the
  text, which \<^verbatim>\<open>loads_dumps\<close> shows to be enough for what the writer produces. The history of
  events holds 200, a subscriber's queue 256. Python's integers are unbounded and are modelled
  by \<^verbatim>\<open>int\<close>; no machine word occurs in the code.

  \<^bold>\<open>Atomicity.\<close> A method that runs under a lock is one step, and so is a transaction of the
  database and a publication of an event. A tick of the watcher or of the scheduler is one step
  too, but anything may happen between two ticks. Between the claim of a row, the hand-over of its mail
  and the settling of the outcome every other thread may act.

  \<^bold>\<open>Not modelled.\<close> Commits that fail, and files that cannot be made or written, except where a theory
  says so; the texts of log lines; templates and the pages of the API documentation; the texts
  argparse prints and its lone double dash; the permissions of files; the five seconds for which a
  stop waits for its threads (whether they end is an argument); the matching of a path against a
  route, which is Starlette's and a parameter with a law (\<^verbatim>\<open>match_law\<close>); the SMTP, HTTP and WebSocket
  protocols themselves (libraries). The remaining lines of the code are imports, re-exports, annotations of the OpenAPI schema and log
  calls.
\<close>

end
